theory Spec2Isabelle
  imports Complex_Main
begin

section \<open>Identifiers\<close>

text \<open>
  Every object of the analysis carries an id drawn from \<^verbatim>\<open>generateId\<close>, a UUID built
  from \<^verbatim>\<open>Math.random\<close>.  The random source is explicit here: a run owns a
  generator \<open>gen\<close>, the id returned by the \<open>c\<close>-th call of the run is \<open>gen c\<close>, and
  every function that creates objects takes the call counter and returns the new one.
\<close>

type_synonym uid = string
type_synonym idgen = "nat \<Rightarrow> uid"

section \<open>Numbers\<close>

text \<open>
  JavaScript numbers are modelled as exact reals, and as integers where the source only
  ever holds integers in them (measures, MIDI numbers, beat indices).  The rounding of
  double arithmetic is not modelled: a comparison of a computed fraction with a threshold
  can come out differently in the source when the real value lies within rounding distance
  of the threshold.
\<close>

text \<open>\<^verbatim>\<open>Math.round\<close>: halves round up.\<close>

definition mathRound :: "real \<Rightarrow> int" where
  "mathRound x = \<lfloor>x + 1 / 2\<rfloor>"

section \<open>Notes and pitch utilities (RuleEngine helper methods)\<close>

text \<open>
  A note as the rule engine reads it.  \<open>pitch\<close> is \<open>None\<close> for a missing pitch;
  numbers are JavaScript numbers, modelled as integers where the code uses them as measure
  numbers and as reals elsewhere (rounding of doubles is not modelled).
\<close>

record Note =
  pitch :: "string option"
  duration :: real
  measureNumber :: int
  beat :: real
  isRest :: bool

record keySignature =
  fifths :: int
  mode :: string

definition pitchClasses :: "(string \<times> int) list" where
  "pitchClasses =
    [(''C'', 0), (''C#'', 1), (''Db'', 1), (''D'', 2), (''D#'', 3), (''Eb'', 3),
     (''E'', 4), (''Fb'', 4), (''E#'', 5), (''F'', 5), (''F#'', 6), (''Gb'', 6),
     (''G'', 7), (''G#'', 8), (''Ab'', 8), (''A'', 9), (''A#'', 10), (''Bb'', 10),
     (''B'', 11), (''Cb'', 11), (''B#'', 0)]"

definition isDigit :: "char \<Rightarrow> bool" where
  "isDigit c = (c \<in> set ''0123456789'')"

definition digitVal :: "char \<Rightarrow> int" where
  "digitVal c = int (of_char c) - 48"

text \<open>\<^verbatim>\<open>parseInt\<close> on the text matched by \<^verbatim>\<open>-?\d+\<close>.\<close>

definition parseInt :: "string \<Rightarrow> int" where
  "parseInt s =
    (case s of
       [] \<Rightarrow> 0
     | c # r \<Rightarrow>
        if c = CHR ''-'' then - foldl (\<lambda>a d. 10 * a + digitVal d) 0 r
        else foldl (\<lambda>a d. 10 * a + digitVal d) 0 s)"

text \<open>
  The octave part \<^verbatim>\<open>(-?\d+)\<close> of the pitch pattern, tried at the head of a string:
  an optional minus sign, then as many digits as there are, at least one.
\<close>

definition matchOctave :: "string \<Rightarrow> string option" where
  "matchOctave s =
    (case s of
       [] \<Rightarrow> None
     | c # r \<Rightarrow>
        if c = CHR ''-'' then
          (if takeWhile isDigit r = [] then None else Some (c # takeWhile isDigit r))
        else if takeWhile isDigit s = [] then None
        else Some (takeWhile isDigit s))"

text \<open>
  The pattern \<^verbatim>\<open>([A-G][#b]?)(-?\d+)\<close> tried at the head of a string.  The accidental
  is taken when present; the match without it is the pattern's second alternative.
\<close>

definition matchPitchHere :: "string \<Rightarrow> (string \<times> string) option" where
  "matchPitchHere s =
    (case s of
       [] \<Rightarrow> None
     | c # r \<Rightarrow>
        if c \<in> set ''ABCDEFG'' then
          (case r of
             [] \<Rightarrow> None
           | a # r' \<Rightarrow>
              (if a = CHR ''#'' \<or> a = CHR ''b'' then
                 (case matchOctave r' of
                    Some oct \<Rightarrow> Some ([c, a], oct)
                  | None \<Rightarrow> map_option (\<lambda>oct. ([c], oct)) (matchOctave r))
               else map_option (\<lambda>oct. ([c], oct)) (matchOctave r)))
        else None)"

text \<open>\<^verbatim>\<open>pitch.match(...)\<close>: the leftmost position where the pattern matches.\<close>

fun matchPitch :: "string \<Rightarrow> (string \<times> string) option" where
  "matchPitch [] = None"
| "matchPitch (c # r) =
    (case matchPitchHere (c # r) of
       Some m \<Rightarrow> Some m
     | None \<Rightarrow> matchPitch r)"

definition pitchToMidi :: "string option \<Rightarrow> int" where
  "pitchToMidi p =
    (case p of
       None \<Rightarrow> 60
     | Some s \<Rightarrow>
        if s = [] then 60
        else (case matchPitch s of
                None \<Rightarrow> 60
              | Some (noteName, octave) \<Rightarrow>
                  (case map_of pitchClasses noteName of None \<Rightarrow> 0 | Some pc \<Rightarrow> pc)
                  + (parseInt octave + 1) * 12))"

definition majorKeys :: "string list" where
  "majorKeys = [''C'', ''G'', ''D'', ''A'', ''E'', ''B'', ''F#'', ''C#'']"

definition majorKeysFlat :: "string list" where
  "majorKeysFlat = [''C'', ''F'', ''Bb'', ''Eb'', ''Ab'', ''Db'', ''Gb'', ''Cb'']"

text \<open>The first entry of the pitch-class table with the given class and a name of at most two characters.\<close>

fun firstShortName :: "(string \<times> int) list \<Rightarrow> int \<Rightarrow> string option" where
  "firstShortName [] pc = None"
| "firstShortName ((name, p) # rest) pc =
    (if p = pc \<and> length name \<le> 2 then Some name else firstShortName rest pc)"

definition modeOrMajor :: "keySignature \<Rightarrow> string" where
  "modeOrMajor ks = (if mode ks = [] then ''major'' else mode ks)"

definition getTonicFromKey :: "keySignature \<Rightarrow> string" where
  "getTonicFromKey ks =
    (let f = fifths ks;
         tonic = (if f \<ge> 0 then majorKeys ! nat (min f 7) else majorKeysFlat ! nat (min (- f) 7))
     in if modeOrMajor ks = ''minor'' then
          (case map_of pitchClasses tonic of
             None \<Rightarrow> tonic
           | Some tonicPc \<Rightarrow>
               (case firstShortName pitchClasses ((tonicPc + 9) mod 12) of
                  Some name \<Rightarrow> name
                | None \<Rightarrow> tonic))
        else tonic)"

definition degreeMap :: "(int \<times> int) list" where
  "degreeMap = [(0, 0), (2, 1), (4, 2), (5, 3), (7, 4), (9, 5), (11, 6)]"

definition getScaleDegree :: "string option \<Rightarrow> string \<Rightarrow> int" where
  "getScaleDegree p tonic =
    (case p of
       None \<Rightarrow> -1
     | Some s \<Rightarrow>
        if s = [] then -1
        else
          (let tonicPc = (case map_of pitchClasses tonic of None \<Rightarrow> 0 | Some pc \<Rightarrow> pc)
           in case map_of pitchClasses (filter (\<lambda>c. \<not> isDigit c) s) of
                None \<Rightarrow> -1
              | Some pitchPc \<Rightarrow>
                  (case map_of degreeMap ((pitchPc - tonicPc + 12) mod 12) of
                     None \<Rightarrow> -1
                   | Some d \<Rightarrow> d)))"

text \<open>\<^verbatim>\<open>note.measureNumber || 1\<close>: the key under which a note is grouped.\<close>

definition measureKey :: "Note \<Rightarrow> int" where
  "measureKey n = (if measureNumber n = 0 then 1 else measureNumber n)"

text \<open>
  \<^verbatim>\<open>groupNotesByMeasure\<close> followed by the sorted key list every caller takes from it:
  the group of a key keeps the notes in their order in the stream.
\<close>

definition measureNumbersOf :: "Note list \<Rightarrow> int list" where
  "measureNumbersOf notes = sort (remdups (map measureKey notes))"

definition measureGroup :: "Note list \<Rightarrow> int \<Rightarrow> Note list" where
  "measureGroup notes m = filter (\<lambda>n. measureKey n = m) notes"

definition getLowestNote :: "Note list \<Rightarrow> Note option" where
  "getLowestNote notes =
    foldl (\<lambda>lowest n.
             case lowest of
               None \<Rightarrow> Some n
             | Some l \<Rightarrow> if pitchToMidi (pitch n) < pitchToMidi (pitch l) then Some n else Some l)
          None notes"

definition getHighestNote :: "Note list \<Rightarrow> Note option" where
  "getHighestNote notes =
    foldl (\<lambda>highest n.
             case highest of
               None \<Rightarrow> Some n
             | Some h \<Rightarrow> if pitchToMidi (pitch n) > pitchToMidi (pitch h) then Some n else Some h)
          None notes"

definition getNotesInRange :: "Note list \<Rightarrow> int \<Rightarrow> int \<Rightarrow> Note list" where
  "getNotesInRange notes startM endM =
    filter (\<lambda>n. measureNumber n \<ge> startM \<and> measureNumber n \<le> endM) notes"

section \<open>Cadence detection\<close>

definition PERFECT_AUTHENTIC :: string where "PERFECT_AUTHENTIC = ''perfect_authentic''"
definition IMPERFECT_AUTHENTIC :: string where "IMPERFECT_AUTHENTIC = ''imperfect_authentic''"
definition HALF :: string where "HALF = ''half''"
definition DECEPTIVE :: string where "DECEPTIVE = ''deceptive''"
definition PLAGAL :: string where "PLAGAL = ''plagal''"
definition PHRYGIAN :: string where "PHRYGIAN = ''phrygian''"

record cadence =
  cadenceId :: uid
  cadMeasure :: int
  cadBeat :: real
  cadType :: string
  strength :: string
  cadConfidence :: real

definition mkCadence :: "uid \<Rightarrow> int \<Rightarrow> string \<Rightarrow> string \<Rightarrow> real \<Rightarrow> cadence" where
  "mkCadence i m t s c =
    \<lparr>cadenceId = i, cadMeasure = m, cadBeat = 0, cadType = t, strength = s, cadConfidence = c\<rparr>"

text \<open>
  \<^verbatim>\<open>classifyCadence(prevDegree, currDegree, melodyDegree, measureNumber, mode)\<close>: the
  tests in the order of the source; \<open>i\<close> is the id \<^verbatim>\<open>generateId()\<close> returns in the
  branch that is taken.
\<close>

definition classifyCadence :: "uid \<Rightarrow> int \<Rightarrow> int \<Rightarrow> int \<Rightarrow> int \<Rightarrow> string \<Rightarrow> cadence option" where
  "classifyCadence i prevDegree currDegree melodyDegree m md =
    (if prevDegree = 4 \<and> currDegree = 0 then
       (if melodyDegree = 0 then Some (mkCadence i m PERFECT_AUTHENTIC ''strong'' 0.95)
        else Some (mkCadence i m IMPERFECT_AUTHENTIC ''moderate'' 0.8))
     else if (prevDegree = 4 \<or> prevDegree = 6) \<and> currDegree = 0 \<and> melodyDegree \<noteq> 0 then
       Some (mkCadence i m IMPERFECT_AUTHENTIC ''moderate'' 0.75)
     else if currDegree = 4 then Some (mkCadence i m HALF ''weak'' 0.8)
     else if prevDegree = 4 \<and> currDegree = 5 then Some (mkCadence i m DECEPTIVE ''moderate'' 0.85)
     else if prevDegree = 3 \<and> currDegree = 0 then Some (mkCadence i m PLAGAL ''moderate'' 0.75)
     else if md = ''minor'' \<and> prevDegree = 3 \<and> currDegree = 4 then
       Some (mkCadence i m PHRYGIAN ''weak'' 0.7)
     else None)"

text \<open>
  One iteration of the loop of \<^verbatim>\<open>detectCadences\<close> over the pair of measures
  \<open>(prevM, currM)\<close>.  Both measures come from the key list, so their groups are not empty
  and both bass notes exist.
\<close>

definition cadenceAt :: "idgen \<Rightarrow> nat \<Rightarrow> Note list \<Rightarrow> keySignature \<Rightarrow> int \<Rightarrow> int \<Rightarrow> cadence option" where
  "cadenceAt gen c notes ks prevM currM =
    (let tonicPitch = getTonicFromKey ks;
         prevMeasure = measureGroup notes prevM;
         currMeasure = measureGroup notes currM
     in case (getLowestNote prevMeasure, getLowestNote currMeasure) of
          (Some prevBass, Some currBass) \<Rightarrow>
            classifyCadence (gen c)
              (getScaleDegree (pitch prevBass) tonicPitch)
              (getScaleDegree (pitch currBass) tonicPitch)
              (case getHighestNote currMeasure of
                 Some currMelody \<Rightarrow> getScaleDegree (pitch currMelody) tonicPitch
               | None \<Rightarrow> -1)
              currM (modeOrMajor ks)
        | _ \<Rightarrow> None)"

text \<open>The loop \<^verbatim>\<open>for (i = 1; i < measureNumbers.length; i++)\<close> over adjacent measures.\<close>

fun cadenceLoop :: "idgen \<Rightarrow> nat \<Rightarrow> Note list \<Rightarrow> keySignature \<Rightarrow> int list \<Rightarrow> cadence list \<times> nat" where
  "cadenceLoop gen c notes ks (prevM # currM # rest) =
    (case cadenceAt gen c notes ks prevM currM of
       Some cad \<Rightarrow>
         (let (cs, c') = cadenceLoop gen (Suc c) notes ks (currM # rest) in (cad # cs, c'))
     | None \<Rightarrow> cadenceLoop gen c notes ks (currM # rest))"
| "cadenceLoop gen c notes ks _ = ([], c)"

definition detectCadences :: "idgen \<Rightarrow> nat \<Rightarrow> Note list \<Rightarrow> keySignature \<Rightarrow> cadence list \<times> nat" where
  "detectCadences gen c notes ks = cadenceLoop gen c notes ks (measureNumbersOf notes)"

text \<open>\<^verbatim>\<open>getCadenceStrength\<close>; a missing cadence has strength 0, an unknown type 0.3.\<close>

definition getCadenceStrength :: "cadence option \<Rightarrow> real" where
  "getCadenceStrength co =
    (case co of
       None \<Rightarrow> 0
     | Some cad \<Rightarrow>
        if cadType cad = PERFECT_AUTHENTIC then 1.0
        else if cadType cad = IMPERFECT_AUTHENTIC then 0.8
        else if cadType cad = PLAGAL then 0.7
        else if cadType cad = DECEPTIVE then 0.5
        else if cadType cad = HALF then 0.4
        else if cadType cad = PHRYGIAN then 0.3
        else 0.3)"

section \<open>Similarity kernels\<close>

definition extractIntervalPattern :: "Note list \<Rightarrow> int list" where
  "extractIntervalPattern notes =
    map (\<lambda>i. pitchToMidi (pitch (notes ! i)) - pitchToMidi (pitch (notes ! (i - 1))))
        [1 ..< length notes]"

definition extractRhythmPattern :: "Note list \<Rightarrow> real list" where
  "extractRhythmPattern notes = map (\<lambda>n. if duration n = 0 then 1 else duration n) notes"

text \<open>
  \<^verbatim>\<open>compareArrays\<close>: matches within a tolerance of 1 on the common prefix, scaled by
  the length penalty.
\<close>

definition compareArrays :: "real list \<Rightarrow> real list \<Rightarrow> real" where
  "compareArrays arr1 arr2 =
    (if arr1 = [] \<or> arr2 = [] then 0
     else
       (let minLen = min (length arr1) (length arr2);
            maxLen = max (length arr1) (length arr2);
            matches = length (filter (\<lambda>i. \<bar>arr1 ! i - arr2 ! i\<bar> \<le> 1) [0 ..< minLen]);
            lengthPenalty = 1 - (real maxLen - real minLen) / real maxLen
        in (real matches / real minLen) * lengthPenalty))"

definition calculateMelodicSimilarity :: "Note list \<Rightarrow> Note list \<Rightarrow> real" where
  "calculateMelodicSimilarity notes1 notes2 =
    (if notes1 = [] \<or> notes2 = [] then 0
     else
       (let intervalSim = compareArrays (map real_of_int (extractIntervalPattern notes1))
                                        (map real_of_int (extractIntervalPattern notes2));
            rhythmSim = compareArrays (extractRhythmPattern notes1) (extractRhythmPattern notes2)
        in intervalSim * 0.6 + rhythmSim * 0.4))"

section \<open>Motives, sub-phrases and phrases: the data\<close>

record relation =
  relType :: string
  relConfidence :: real
  relTransposition :: "int option"

record motive =
  motId :: uid
  motIndex :: nat
  motNotes :: "Note list"
  motMeasure :: int
  motStartBeat :: int
  intervalPattern :: "int list"
  rhythmPattern :: "real list"
  contour :: string
  motRelationship :: "relation option"
  relatedTo :: "uid option"

record subPhrase =
  spId :: uid
  spIndex :: nat
  spStart :: int
  spEnd :: int
  spStartBeat :: int
  spEndBeat :: int
  spNotes :: "Note list"
  spMotives :: "motive list"
  spMaterial :: string
  similarTo :: "uid option"
  similarity :: "real option"

record phrase =
  phId :: uid
  phIndex :: nat
  phStart :: int
  phEnd :: int
  phLength :: int
  phCadence :: "cadence option"
  phNotes :: "Note list"
  phSubPhrases :: "subPhrase list"
  phMaterial :: string
  phClosure :: string
  phRelationship :: "string option"
  headSimilarity :: "real option"

section \<open>Phrase detection\<close>

definition baseLabels :: "string list" where
  "baseLabels = [''a'', ''b'', ''c'', ''d'', ''e'', ''f'', ''g'', ''h'']"

definition assignMaterialLabel :: "nat \<Rightarrow> string" where
  "assignMaterialLabel index =
    baseLabels ! (index mod length baseLabels) @ replicate (index div length baseLabels) (CHR 0x27)"

definition closureOf :: "cadence option \<Rightarrow> string" where
  "closureOf co = (if getCadenceStrength co > 0.7 then ''closed'' else ''open'')"

definition mkPhrase ::
  "uid \<Rightarrow> nat \<Rightarrow> int \<Rightarrow> int \<Rightarrow> int \<Rightarrow> cadence option \<Rightarrow> Note list \<Rightarrow> subPhrase list \<Rightarrow> string \<Rightarrow> phrase" where
  "mkPhrase i idx s e len cad ns sps cl =
    \<lparr>phId = i, phIndex = idx, phStart = s, phEnd = e, phLength = len, phCadence = cad,
     phNotes = ns, phSubPhrases = sps, phMaterial = assignMaterialLabel idx, phClosure = cl,
     phRelationship = None, headSimilarity = None\<rparr>"

text \<open>
  The state of the loop of \<^verbatim>\<open>detectPhrases\<close> over the sorted cadences:
  \<open>(phraseStart, phraseIndex, phrases, id counter)\<close>.
\<close>

type_synonym phraseState = "int \<times> nat \<times> phrase list \<times> nat"

definition phraseStep ::
  "idgen \<Rightarrow> Note list \<Rightarrow> subPhrase list \<Rightarrow> phraseState \<Rightarrow> cadence \<Rightarrow> phraseState" where
  "phraseStep gen notes sps st cad =
    (case st of (phraseStart, phraseIndex, phrases, c) \<Rightarrow>
      (let phraseEnd = cadMeasure cad;
           phraseLength = phraseEnd - phraseStart + 1
       in if phraseLength \<ge> 2 \<and> phraseLength \<le> 12 then
            (phraseEnd + 1, phraseIndex + 1,
             phrases @
             [mkPhrase (gen c) phraseIndex phraseStart phraseEnd phraseLength (Some cad)
                (getNotesInRange notes phraseStart phraseEnd)
                (filter (\<lambda>sp. spStart sp \<ge> phraseStart \<and> spEnd sp \<le> phraseEnd) sps)
                (closureOf (Some cad))],
             Suc c)
          else if phraseLength > 12 then
            (let midPoint = phraseStart + phraseLength div 2
             in (phraseEnd + 1, phraseIndex + 2,
                 phrases @
                 [mkPhrase (gen c) phraseIndex phraseStart midPoint (midPoint - phraseStart + 1) None
                    (getNotesInRange notes phraseStart midPoint)
                    (filter (\<lambda>sp. spStart sp \<ge> phraseStart \<and> spEnd sp \<le> midPoint) sps)
                    ''open'',
                  mkPhrase (gen (Suc c)) (phraseIndex + 1) (midPoint + 1) phraseEnd
                    (phraseEnd - midPoint) (Some cad)
                    (getNotesInRange notes (midPoint + 1) phraseEnd)
                    (filter (\<lambda>sp. spStart sp > midPoint \<and> spEnd sp \<le> phraseEnd) sps)
                    (closureOf (Some cad))],
                 Suc (Suc c)))
          else st))"

text \<open>The phrase for the measures left after the last cadence.\<close>

definition remainingPhrase ::
  "idgen \<Rightarrow> Note list \<Rightarrow> subPhrase list \<Rightarrow> int \<Rightarrow> phraseState \<Rightarrow> phrase list \<times> nat" where
  "remainingPhrase gen notes sps lastMeasure st =
    (case st of (phraseStart, phraseIndex, phrases, c) \<Rightarrow>
      if phraseStart \<le> lastMeasure \<and> lastMeasure - phraseStart + 1 \<ge> 2 then
        (phrases @
         [mkPhrase (gen c) phraseIndex phraseStart lastMeasure (lastMeasure - phraseStart + 1) None
            (getNotesInRange notes phraseStart lastMeasure)
            (filter (\<lambda>sp. spStart sp \<ge> phraseStart) sps)
            ''open''],
         Suc c)
      else (phrases, c))"

definition headLength :: "phrase \<Rightarrow> phrase \<Rightarrow> nat" where
  "headLength p1 p2 =
    min (min ((length (phNotes p1) + 1) div 2) ((length (phNotes p2) + 1) div 2)) 8"

definition comparePhraseHeads :: "phrase \<Rightarrow> phrase \<Rightarrow> real" where
  "comparePhraseHeads p1 p2 =
    calculateMelodicSimilarity (take (headLength p1 p2) (phNotes p1))
                               (take (headLength p1 p2) (phNotes p2))"

text \<open>\<^verbatim>\<open>notes.slice(-tailLength)\<close>; \<^verbatim>\<open>slice(-0)\<close> is the whole array.\<close>

definition sliceLast :: "nat \<Rightarrow> 'a list \<Rightarrow> 'a list" where
  "sliceLast k xs = (if k = 0 then xs else drop (length xs - k) xs)"

definition comparePhraseTails :: "phrase \<Rightarrow> phrase \<Rightarrow> real" where
  "comparePhraseTails p1 p2 =
    calculateMelodicSimilarity (sliceLast (headLength p1 p2) (phNotes p1))
                               (sliceLast (headLength p1 p2) (phNotes p2))"

text \<open>The body of the loop of \<^verbatim>\<open>analyzePhraseMaterials\<close> for one pair \<open>(prev, cur)\<close>.\<close>

definition relabelPhrase :: "phrase \<Rightarrow> phrase \<Rightarrow> phrase" where
  "relabelPhrase prev cur =
    (let headSim = comparePhraseHeads prev cur;
         tailSim = comparePhraseTails prev cur
     in if headSim > 0.7 \<and> tailSim < 0.5 then
          cur\<lparr>phMaterial := phMaterial prev @ [CHR 0x27],
               phRelationship := Some ''parallel'',
               headSimilarity := Some headSim\<rparr>
        else if headSim > 0.7 \<and> tailSim > 0.7 then
          cur\<lparr>phMaterial := phMaterial prev @ ''r'', phRelationship := Some ''repetition''\<rparr>
        else if headSim < 0.3 then cur\<lparr>phRelationship := Some ''contrasting''\<rparr>
        else cur\<lparr>phRelationship := Some ''development''\<rparr>)"

text \<open>The loop reads \<^verbatim>\<open>phrases[i - 1]\<close> after it has been relabelled.\<close>

fun relabelFrom :: "phrase \<Rightarrow> phrase list \<Rightarrow> phrase list" where
  "relabelFrom prev [] = []"
| "relabelFrom prev (cur # rest) =
    relabelPhrase prev cur # relabelFrom (relabelPhrase prev cur) rest"

fun analyzePhraseMaterials :: "phrase list \<Rightarrow> phrase list" where
  "analyzePhraseMaterials [] = []"
| "analyzePhraseMaterials (p # ps) = p # relabelFrom p ps"

definition detectPhrases ::
  "idgen \<Rightarrow> nat \<Rightarrow> Note list \<Rightarrow> cadence list \<Rightarrow> subPhrase list \<Rightarrow> phrase list \<times> nat" where
  "detectPhrases gen c notes cadences sps =
    (let measureNumbers = measureNumbersOf notes
     in if measureNumbers = [] then ([], c)
        else
          (let sortedCadences = sort_key cadMeasure cadences;
               st = foldl (phraseStep gen notes sps) (hd measureNumbers, 0, [], c) sortedCadences;
               (phrases, c') = remainingPhrase gen notes sps (last measureNumbers) st
           in (analyzePhraseMaterials phrases, c')))"

section \<open>Auxiliary notions for the proofs\<close>

text \<open>A fixed injective id generator for the concrete runs evaluated below.\<close>

definition sampleIds :: idgen where
  "sampleIds n = replicate (Suc n) (CHR ''x'')"

text \<open>The fields of a phrase that \<^verbatim>\<open>analyzePhraseMaterials\<close> leaves alone.\<close>

definition phraseCore :: "phrase \<Rightarrow> int \<times> int \<times> int \<times> cadence option \<times> string" where
  "phraseCore p = (phStart p, phEnd p, phLength p, phCadence p, phClosure p)"

definition phraseOk :: "phrase \<Rightarrow> bool" where
  "phraseOk p = (phLength p = phEnd p - phStart p + 1 \<and> 2 \<le> phLength p
     \<and> (phClosure p = ''closed'' \<longleftrightarrow> getCadenceStrength (phCadence p) > 0.7))"

definition phrasesOk :: "phrase list \<Rightarrow> bool" where
  "phrasesOk ps = (\<forall>i < length ps. phraseOk (ps ! i)
      \<and> (phCadence (ps ! i) \<noteq> None \<and> (i = 0 \<or> phCadence (ps ! (i - 1)) \<noteq> None)
           \<longrightarrow> phLength (ps ! i) \<le> 12))"

definition phraseInv :: "phraseState \<Rightarrow> bool" where
  "phraseInv st = (case st of (phraseStart, phraseIndex, phrases, c) \<Rightarrow>
     phrasesOk phrases \<and> (phrases = [] \<or> phCadence (last phrases) \<noteq> None))"

section \<open>Structure nodes (StructureAnalyzer)\<close>

text \<open>
  The \<^verbatim>\<open>features\<close> bag of a tree node: the root carries \<^verbatim>\<open>formType\<close>, \<^verbatim>\<open>tempo\<close>
  and \<^verbatim>\<open>keySignature\<close>, a section node \<^verbatim>\<open>function\<close>, a period node its type,
  proportion and closure, a phrase node its cadence; an absent entry is \<open>None\<close>.
\<close>

record nodeFeatures =
  nfFormType :: "string option"
  nfTempo :: "real option"
  nfKeySignature :: "keySignature option"
  nfFunction :: "string option"
  nfPeriodType :: "string option"
  nfProportion :: "string option"
  nfClosure :: "string option"
  nfCadence :: "cadence option"

definition noFeatures :: nodeFeatures where
  "noFeatures =
    \<lparr>nfFormType = None, nfTempo = None, nfKeySignature = None, nfFunction = None,
     nfPeriodType = None, nfProportion = None, nfClosure = None, nfCadence = None\<rparr>"

text \<open>
  A node of the structure tree with its children; the \<^verbatim>\<open>parent\<close> back link of the
  source is the position of the node in the tree.
\<close>

record visualStyle =
  lineStyle :: string
  opacity :: real
  borderWidth :: nat
  uncertaintyLevel :: string

datatype structNode =
  StructNode (nodeId: uid) (nodeType: string) (startMeasure: int) (endMeasure: int)
    (children: "structNode list") (material: string) (confidence: real)
    (features: nodeFeatures) (nodeStyle: "visualStyle option")

section \<open>Preference learner (PreferenceManager)\<close>

text \<open>
  The feature object that \<^verbatim>\<open>extractNodeFeatures\<close> builds from a node, with the
  optional emotion entries \<^verbatim>\<open>extractFeatureVector\<close> also reads.  An absent or
  undefined entry is \<open>None\<close>.
\<close>

record nodeInfo =
  fType :: "string option"
  fStartMeasure :: int
  fEndMeasure :: int
  fMaterial :: "string option"
  fConfidence :: "real option"
  fCadence :: "cadence option"
  fPeriodType :: "string option"
  fClosure :: "string option"
  fEmotionTempo :: "string option"
  fEmotionDynamics :: "string option"
  fEmotionTension :: "string option"

definition extractNodeFeatures :: "structNode \<Rightarrow> nodeInfo" where
  "extractNodeFeatures node =
    \<lparr>fType = Some (nodeType node), fStartMeasure = startMeasure node,
     fEndMeasure = endMeasure node, fMaterial = Some (material node),
     fConfidence = Some (confidence node), fCadence = nfCadence (features node),
     fPeriodType = nfPeriodType (features node), fClosure = nfClosure (features node),
     fEmotionTempo = None, fEmotionDynamics = None, fEmotionTension = None\<rparr>"

definition structureTypes :: "string list" where
  "structureTypes = [''motive'', ''subphrase'', ''phrase'', ''period'', ''theme'', ''section'']"

definition cadenceTypeNames :: "string list" where
  "cadenceTypeNames = [''perfect_authentic'', ''imperfect_authentic'', ''half'', ''deceptive'', ''none'']"

definition periodTypeNames :: "string list" where
  "periodTypeNames = [''parallel'', ''contrasting'', ''sequential'', ''none'']"

text \<open>\<^verbatim>\<open>vector.push(x === type ? 1 : 0)\<close> for each name of a list.\<close>

definition indicators :: "string option \<Rightarrow> string list \<Rightarrow> real list" where
  "indicators x names = map (\<lambda>t. if x = Some t then 1 else 0) names"

text \<open>\<^verbatim>\<open>map[key] ?? 0.5\<close> on a table from three level names to \<open>1\<close>, \<open>0.5\<close>, \<open>0\<close>.\<close>

definition levelOf :: "string \<Rightarrow> string \<Rightarrow> string \<Rightarrow> string option \<Rightarrow> real" where
  "levelOf hi mid lo x =
    (if x = Some hi then 1 else if x = Some mid then 0.5 else if x = Some lo then 0 else 0.5)"

text \<open>\<^verbatim>\<open>x || 'none'\<close> on an optional string.\<close>

definition orNone :: "string option \<Rightarrow> string option" where
  "orNone x = (case x of None \<Rightarrow> Some ''none'' | Some s \<Rightarrow> if s = [] then Some ''none'' else Some s)"

definition extractFeatureVector :: "nodeInfo \<Rightarrow> real list" where
  "extractFeatureVector f =
    indicators (fType f) structureTypes
    @ [case fConfidence f of None \<Rightarrow> 0.5 | Some c \<Rightarrow> if c = 0 then 0.5 else c]
    @ [min 1 (real_of_int (fEndMeasure f - fStartMeasure f + 1) / 16)]
    @ [case fMaterial f of None \<Rightarrow> 0 | Some m \<Rightarrow> if CHR 0x27 \<in> set m then 1 else 0]
    @ [case fMaterial f of None \<Rightarrow> 0 | Some m \<Rightarrow> if length m > 1 then 1 else 0]
    @ indicators (orNone (map_option cadType (fCadence f))) cadenceTypeNames
    @ indicators (orNone (fPeriodType f)) periodTypeNames
    @ [levelOf ''fast'' ''moderate'' ''slow'' (fEmotionTempo f)]
    @ [levelOf ''strong'' ''moderate'' ''soft'' (fEmotionDynamics f)]
    @ [levelOf ''tense'' ''neutral'' ''relaxed'' (fEmotionTension f)]"

record featureWeights =
  wStructureType :: real
  wConfidence :: real
  wDuration :: real
  wMaterialVariation :: real
  wCadenceType :: real
  wPeriodType :: real
  wEmotionTempo :: real
  wEmotionDynamics :: real
  wEmotionTension :: real

text \<open>A stored example; \<open>'s\<close> is the visual scheme, which the learner only stores.\<close>

record 's example =
  exFeatures :: "real list"
  exScheme :: 's
  exReward :: real
  exTimestamp :: real

record 's preferenceManager =
  examples :: "'s example list"
  kNeighbours :: nat
  exampleCount :: nat
  weights :: featureWeights
  recencyDecay :: real
  minExamplesForRecommendation :: nat

text \<open>The state the constructor builds.\<close>

definition newPreferenceManager :: "'s preferenceManager" where
  "newPreferenceManager =
    \<lparr>examples = [], kNeighbours = 5, exampleCount = 0,
     weights = \<lparr>wStructureType = 1.0, wConfidence = 0.5, wDuration = 0.8,
                 wMaterialVariation = 0.7, wCadenceType = 0.9, wPeriodType = 0.8,
                 wEmotionTempo = 0.6, wEmotionDynamics = 0.6, wEmotionTension = 0.7\<rparr>,
     recencyDecay = 0.95, minExamplesForRecommendation = 2\<rparr>"

text \<open>
  \<^verbatim>\<open>recordSelection(features, scheme, reward)\<close>; \<open>now\<close> is the value of
  \<^verbatim>\<open>Date.now()\<close> at the call.
\<close>

definition recordSelection ::
  "'s preferenceManager \<Rightarrow> nodeInfo \<Rightarrow> 's \<Rightarrow> real \<Rightarrow> real \<Rightarrow> 's preferenceManager" where
  "recordSelection pm f scheme reward now =
    pm\<lparr>examples := examples pm @
           [\<lparr>exFeatures = extractFeatureVector f, exScheme = scheme, exReward = reward,
             exTimestamp = now\<rparr>],
       exampleCount := exampleCount pm + 1\<rparr>"

definition getWeightVector :: "'s preferenceManager \<Rightarrow> real list" where
  "getWeightVector pm =
    (let w = weights pm
     in replicate 6 (wStructureType w) @ [wConfidence w, wDuration w]
        @ replicate 2 (wMaterialVariation w) @ replicate 5 (wCadenceType w)
        @ replicate 4 (wPeriodType w)
        @ [wEmotionTempo w, wEmotionDynamics w, wEmotionTension w])"

definition clampWeight :: "real \<Rightarrow> real" where
  "clampWeight x = max 0.1 (min 2.0 x)"

text \<open>A JavaScript string or object used as a condition: set and not the empty string.\<close>

definition truthy :: "string option \<Rightarrow> bool" where
  "truthy x = (case x of None \<Rightarrow> False | Some s \<Rightarrow> s \<noteq> [])"

definition updateFeatureWeights :: "'s preferenceManager \<Rightarrow> nodeInfo \<Rightarrow> bool \<Rightarrow> 's preferenceManager" where
  "updateFeatureWeights pm f accepted =
    (let adjustment = (if accepted then 0.05 else - 0.03);
         w = weights pm;
         w1 = (if truthy (fType f)
               then w\<lparr>wStructureType := clampWeight (wStructureType w + adjustment)\<rparr> else w);
         w2 = (if fCadence f \<noteq> None
               then w1\<lparr>wCadenceType := clampWeight (wCadenceType w1 + adjustment)\<rparr> else w1);
         w3 = (if truthy (fPeriodType f)
               then w2\<lparr>wPeriodType := clampWeight (wPeriodType w2 + adjustment)\<rparr> else w2)
     in pm\<lparr>weights := w3\<rparr>)"

section \<open>Recording a selection (VisualSchemeRecommender)\<close>

text \<open>\<^verbatim>\<open>rewardMap[action] || 0\<close>.\<close>

definition rewardOf :: "string \<Rightarrow> real" where
  "rewardOf action =
    (if action = ''accept'' then 1 else if action = ''modify'' then 0.5
     else if action = ''reject'' then - 1 else 0)"

text \<open>
  \<^verbatim>\<open>VisualSchemeRecommender.recordSelection(node, scheme, action)\<close> on the
  recommender's preference manager.
\<close>

definition recommenderRecordSelection ::
  "'s preferenceManager \<Rightarrow> structNode \<Rightarrow> 's \<Rightarrow> string \<Rightarrow> real \<Rightarrow> 's preferenceManager" where
  "recommenderRecordSelection pm node scheme action now =
    recordSelection pm (extractNodeFeatures node) scheme (rewardOf action) now"

section \<open>DTW aligner\<close>

text \<open>
  Costs are JavaScript numbers that may be \<^verbatim>\<open>Infinity\<close>: the cost matrix is filled
  with it.  Chroma entries are finite numbers, so no \<^verbatim>\<open>NaN\<close> arises.
\<close>

datatype jsnum = Fin real | Infinity

fun jsAdd :: "jsnum \<Rightarrow> jsnum \<Rightarrow> jsnum" where
  "jsAdd (Fin a) (Fin b) = Fin (a + b)"
| "jsAdd _ _ = Infinity"

fun jsLe :: "jsnum \<Rightarrow> jsnum \<Rightarrow> bool" where
  "jsLe (Fin a) (Fin b) = (a \<le> b)"
| "jsLe _ Infinity = True"
| "jsLe Infinity (Fin b) = False"

fun jsLt :: "jsnum \<Rightarrow> jsnum \<Rightarrow> bool" where
  "jsLt (Fin a) (Fin b) = (a < b)"
| "jsLt (Fin a) Infinity = True"
| "jsLt Infinity _ = False"

definition jsMin :: "jsnum \<Rightarrow> jsnum \<Rightarrow> jsnum" where
  "jsMin a b = (if jsLe a b then a else b)"

text \<open>
  \<^verbatim>\<open>euclideanDistance\<close> over the common length of two vectors.  Every element of a
  sequence is a vector here, so the guard for a missing vector is not taken.
\<close>

definition euclideanDistance :: "real list \<Rightarrow> real list \<Rightarrow> jsnum" where
  "euclideanDistance vec1 vec2 =
    Fin (sqrt (foldl (\<lambda>s i. s + (vec1 ! i - vec2 ! i) * (vec1 ! i - vec2 ! i)) 0
                 [0 ..< min (length vec1) (length vec2)]))"

type_synonym costMatrix = "jsnum list list"

text \<open>The assignment to \<^verbatim>\<open>dtw[i][j]\<close> in the body of the two loops.\<close>

definition dtwCell :: "real list list \<Rightarrow> real list list \<Rightarrow> costMatrix \<Rightarrow> nat \<Rightarrow> nat \<Rightarrow> costMatrix" where
  "dtwCell seq1 seq2 dtw i j =
    dtw[i := (dtw ! i)[j :=
      jsAdd (euclideanDistance (seq1 ! (i - 1)) (seq2 ! (j - 1)))
            (jsMin (jsMin (dtw ! (i - 1) ! j) (dtw ! i ! (j - 1))) (dtw ! (i - 1) ! (j - 1)))]]"

definition dtwRow :: "real list list \<Rightarrow> real list list \<Rightarrow> costMatrix \<Rightarrow> nat \<Rightarrow> costMatrix" where
  "dtwRow seq1 seq2 dtw i = foldl (\<lambda>d j. dtwCell seq1 seq2 d i j) dtw [1 ..< Suc (length seq2)]"

definition dtwInit :: "nat \<Rightarrow> nat \<Rightarrow> costMatrix" where
  "dtwInit n m =
    (replicate (Suc n) (replicate (Suc m) Infinity))[0 := (replicate (Suc m) Infinity)[0 := Fin 0]]"

definition dtwFill :: "real list list \<Rightarrow> real list list \<Rightarrow> costMatrix" where
  "dtwFill seq1 seq2 =
    foldl (\<lambda>d i. dtwRow seq1 seq2 d i) (dtwInit (length seq1) (length seq2))
          [1 ..< Suc (length seq1)]"

text \<open>
  \<^verbatim>\<open>backtrack\<close>: the loop runs while both indices are positive; \<open>path\<close> is the path
  built so far, to which each step prepends.
\<close>

function backtrack :: "costMatrix \<Rightarrow> nat \<Rightarrow> nat \<Rightarrow> (nat \<times> nat) list \<Rightarrow> (nat \<times> nat) list" where
  "backtrack dtw i j path =
    (if i > 0 \<and> j > 0 then
       (let diag = dtw ! (i - 1) ! (j - 1);
            left = dtw ! i ! (j - 1);
            up = dtw ! (i - 1) ! j
        in if jsLe diag left \<and> jsLe diag up then backtrack dtw (i - 1) (j - 1) ((i - 1, j - 1) # path)
           else if jsLt left up then backtrack dtw i (j - 1) ((i - 1, j - 1) # path)
           else backtrack dtw (i - 1) j ((i - 1, j - 1) # path))
     else path)"
  by pat_completeness auto
termination
  by (relation "measure (\<lambda>(dtw, i, j, path). i + j)") auto

definition computeDTW :: "real list list \<Rightarrow> real list list \<Rightarrow> (nat \<times> nat) list \<times> jsnum" where
  "computeDTW seq1 seq2 =
    (if length seq1 = 0 \<or> length seq2 = 0 then ([], Infinity)
     else
       (let dtw = dtwFill seq1 seq2
        in (backtrack dtw (length seq1) (length seq2) [],
            dtw ! length seq1 ! length seq2)))"

record alignOptions =
  optHopSize :: real
  optSampleRate :: real
  optBeatsPerMeasure :: real
  optTempo :: real

definition defaultAlignOptions :: alignOptions where
  "defaultAlignOptions = \<lparr>optHopSize = 1024, optSampleRate = 44100, optBeatsPerMeasure = 4, optTempo = 120\<rparr>"

text \<open>
  The result of an alignment.  Its \<^verbatim>\<open>measureToTime\<close> and \<^verbatim>\<open>timeToMeasure\<close> entries
  are the aligner's own two maps, kept in the aligner below.
\<close>

record alignmentResult =
  arPath :: "(nat \<times> nat) list"
  arConfidence :: real
  arDistance :: jsnum

text \<open>The maps are JavaScript \<^verbatim>\<open>Map\<close>s: association lists in insertion order.\<close>

record aligner =
  alignmentResult :: "alignmentResult option"
  measureToTime :: "(int \<times> real) list"
  timeToMeasure :: "(real \<times> int) list"

text \<open>\<^verbatim>\<open>if (!map.has(k)) map.set(k, v)\<close>.\<close>

definition setIfAbsent :: "'k \<Rightarrow> 'v \<Rightarrow> ('k \<times> 'v) list \<Rightarrow> ('k \<times> 'v) list" where
  "setIfAbsent k v m = (if map_of m k = None then m @ [(k, v)] else m)"

text \<open>
  The body of \<^verbatim>\<open>path.forEach\<close> in \<^verbatim>\<open>align\<close>.  The measure of a frame is
  \<^verbatim>\<open>Math.floor(symbolicIdx / framesPerMeasure) + 1\<close>; the model is for options that make
  \<open>framesPerMeasure\<close> a positive integer (the defaults give 86), where this is a finite
  number.
\<close>

definition recordPathPoint ::
  "real \<Rightarrow> int \<Rightarrow> (int \<times> real) list \<times> (real \<times> int) list \<Rightarrow> nat \<times> nat \<Rightarrow>
   (int \<times> real) list \<times> (real \<times> int) list" where
  "recordPathPoint secondsPerFrame framesPerMeasure maps pt =
    (let measureNum = \<lfloor>real (fst pt) / real_of_int framesPerMeasure\<rfloor> + 1;
         timestamp = real (snd pt) * secondsPerFrame;
         roundedTime = real_of_int (mathRound (timestamp * 10)) / 10
     in (setIfAbsent measureNum timestamp (fst maps),
         setIfAbsent roundedTime measureNum (snd maps)))"

text \<open>
  \<^verbatim>\<open>confidence = 1 - distance / maxDistance\<close>, clipped to \<open>[0, 1]\<close>.  An infinite
  distance over a non-negative \<open>maxDistance\<close> gives \<open>-Infinity\<close>, clipped to 0.
\<close>

definition alignConfidence :: "jsnum \<Rightarrow> nat \<Rightarrow> real" where
  "alignConfidence distance maxDistance =
    (case distance of
       Infinity \<Rightarrow> 0
     | Fin d \<Rightarrow> max 0 (min 1 (1 - d / real maxDistance)))"

definition align :: "aligner \<Rightarrow> real list list \<Rightarrow> real list list \<Rightarrow> alignOptions \<Rightarrow> aligner" where
  "align a symbolicChroma acousticChroma opts =
    (let (path, distance) = computeDTW symbolicChroma acousticChroma;
         secondsPerFrame = optHopSize opts / optSampleRate opts;
         secondsPerBeat = 60 / optTempo opts;
         secondsPerMeasure = secondsPerBeat * optBeatsPerMeasure opts;
         framesPerMeasure = mathRound (secondsPerMeasure / secondsPerFrame);
         maps = foldl (recordPathPoint secondsPerFrame framesPerMeasure) ([], []) path
     in \<lparr>alignmentResult =
           Some \<lparr>arPath = path,
                 arConfidence =
                   alignConfidence distance (length symbolicChroma * length acousticChroma),
                 arDistance = distance\<rparr>,
         measureToTime = fst maps, timeToMeasure = snd maps\<rparr>)"

text \<open>The \<^verbatim>\<open>for (const m of measures)\<close> loop of \<^verbatim>\<open>getTimestamp\<close> on \<open>(lower, upper)\<close>.\<close>

definition surround :: "int \<Rightarrow> int \<times> int \<Rightarrow> int \<Rightarrow> int \<times> int" where
  "surround measureNum lu m =
    (let lower = (if m \<le> measureNum then m else fst lu);
         upper = (if m \<ge> measureNum \<and> m < snd lu then m else snd lu)
     in (lower, upper))"

definition getTimestamp :: "aligner \<Rightarrow> int \<Rightarrow> real" where
  "getTimestamp a measureNum =
    (case map_of (measureToTime a) measureNum of
       Some t \<Rightarrow> t
     | None \<Rightarrow>
        (let measures = sort (map fst (measureToTime a))
         in if measures = [] then 0
            else
              (let (lower, upper) = foldl (surround measureNum) (hd measures, last measures) measures
               in if lower = upper then the (map_of (measureToTime a) lower)
                  else
                    (let lowerTime = the (map_of (measureToTime a) lower);
                         upperTime = the (map_of (measureToTime a) upper);
                         ratio = real_of_int (measureNum - lower) / real_of_int (upper - lower)
                     in lowerTime + ratio * (upperTime - lowerTime)))))"

text \<open>
  Invariants of the cost matrix while \<^verbatim>\<open>computeDTW\<close> fills it for a sequence aligned
  with itself: its dimensions, that no cell is negative, and that the diagonal cells
  written so far are zero.
\<close>

definition dims :: "nat \<Rightarrow> nat \<Rightarrow> costMatrix \<Rightarrow> bool" where
  "dims n m D = (length D = Suc n \<and> (\<forall>i \<le> n. length (D ! i) = Suc m))"

definition nonneg :: "nat \<Rightarrow> nat \<Rightarrow> costMatrix \<Rightarrow> bool" where
  "nonneg n m D = (\<forall>i \<le> n. \<forall>j \<le> m. jsLe (Fin 0) (D ! i ! j))"

definition rowInv :: "nat \<Rightarrow> nat \<Rightarrow> nat \<Rightarrow> costMatrix \<Rightarrow> bool" where
  "rowInv n i k D = (dims n n D \<and> nonneg n n D \<and> (\<forall>a < i. D ! a ! a = Fin 0)
      \<and> (i \<le> k \<longrightarrow> D ! i ! i = Fin 0))"

definition fillInv :: "nat \<Rightarrow> nat \<Rightarrow> costMatrix \<Rightarrow> bool" where
  "fillInv n i D = (dims n n D \<and> nonneg n n D \<and> (\<forall>a \<le> i. D ! a ! a = Fin 0))"

section \<open>Period detection\<close>

record period =
  perId :: uid
  perIndex :: nat
  perStart :: int
  perEnd :: int
  perLength :: int
  perPhrases :: "phrase list"
  phraseCount :: nat
  perType :: string
  proportion :: string
  perClosure :: string
  perMaterial :: string
  perCadence :: "cadence option"

definition isNewSection :: "phrase \<Rightarrow> phrase \<Rightarrow> bool" where
  "isNewSection currentPhrase nextPhrase =
    (getCadenceStrength (phCadence currentPhrase) \<ge> 0.8
     \<and> comparePhraseHeads currentPhrase nextPhrase < 0.3)"

definition averageMidi :: "Note list \<Rightarrow> real" where
  "averageMidi notes = real_of_int (sum_list (map (\<lambda>n. pitchToMidi (pitch n)) notes)) / real (length notes)"

definition detectTransposition :: "Note list \<Rightarrow> Note list \<Rightarrow> int" where
  "detectTransposition notes1 notes2 =
    (if notes1 = [] \<or> notes2 = [] then 0
     else mathRound (averageMidi notes2 - averageMidi notes1))"

definition isSequentialRelation :: "phrase \<Rightarrow> phrase \<Rightarrow> bool" where
  "isSequentialRelation phrase1 phrase2 =
    (if phNotes phrase1 = [] \<or> phNotes phrase2 = [] then False
     else
       (let intervalSim =
              compareArrays (map real_of_int (extractIntervalPattern (take 8 (phNotes phrase1))))
                            (map real_of_int (extractIntervalPattern (take 8 (phNotes phrase2))));
            transposition = detectTransposition (phNotes phrase1) (phNotes phrase2)
        in intervalSim > 0.7 \<and> \<bar>transposition\<bar> > 0))"

definition classifyPeriodType :: "phrase list \<Rightarrow> string" where
  "classifyPeriodType phrases =
    (if length phrases = 1 then ''parallel''
     else if length phrases = 2 then
       (let p1 = phrases ! 0; p2 = phrases ! 1
        in if phRelationship p2 = Some ''parallel''
              \<or> (case headSimilarity p2 of None \<Rightarrow> False | Some h \<Rightarrow> h > 0.7)
           then ''parallel''
           else if isSequentialRelation p1 p2 then ''sequential''
           else ''contrasting'')
     else if length phrases = 3 then ''three_phrase''
     else if length phrases = 4 then ''four_phrase''
     else ''compound'')"

text \<open>
  \<^verbatim>\<open>(length & (length - 1)) === 0 && length >= 4\<close>; phrase lengths are far inside
  the 32-bit range on which the source's \<^verbatim>\<open>&\<close> works.
\<close>

definition classifyProportion :: "phrase list \<Rightarrow> string" where
  "classifyProportion phrases =
    (if length phrases < 2 then ''non_square''
     else
       (let lengths = map phLength phrases
        in if \<not> list_all (\<lambda>l. l = hd lengths) lengths then ''non_square''
           else if and (hd lengths) (hd lengths - 1) = 0 \<and> hd lengths \<ge> 4 then ''square''
           else ''regular''))"

text \<open>\<^verbatim>\<open>xs.join(sep)\<close>.\<close>

fun joinWith :: "string \<Rightarrow> string list \<Rightarrow> string" where
  "joinWith sep [] = []"
| "joinWith sep [x] = x"
| "joinWith sep (x # y # ys) = x @ sep @ joinWith sep (y # ys)"

definition derivePeriodMaterial :: "phrase list \<Rightarrow> string" where
  "derivePeriodMaterial phrases =
    (if phrases = [] then ''a''
     else
       (let materials = map (\<lambda>p. take 1 (phMaterial p)) phrases
        in if length (remdups materials) = 1 then hd materials
           else joinWith ''+'' materials))"

text \<open>
  \<^verbatim>\<open>createPeriod(phrases, index)\<close>.  \<^verbatim>\<open>detectPeriods\<close> passes the slice from
  \<open>periodStart\<close> to \<open>i\<close> with \<open>periodStart \<le> i\<close>, which is never empty.
\<close>

definition createPeriod :: "uid \<Rightarrow> phrase list \<Rightarrow> nat \<Rightarrow> period" where
  "createPeriod i phrases index =
    \<lparr>perId = i, perIndex = index,
     perStart = phStart (hd phrases), perEnd = phEnd (last phrases),
     perLength = phEnd (last phrases) - phStart (hd phrases) + 1,
     perPhrases = phrases, phraseCount = length phrases,
     perType = classifyPeriodType phrases,
     proportion = classifyProportion phrases,
     perClosure = (if getCadenceStrength (phCadence (last phrases)) \<ge> 0.7 then ''closed'' else ''open''),
     perMaterial = derivePeriodMaterial phrases,
     perCadence = phCadence (last phrases)\<rparr>"

text \<open>
  The state of the loop of \<^verbatim>\<open>detectPeriods\<close>:
  \<open>(periodStart, periodIndex, periods, id counter)\<close>; the step is the body for index \<open>i\<close>.
\<close>

type_synonym periodState = "nat \<times> nat \<times> period list \<times> nat"

definition periodStep :: "idgen \<Rightarrow> phrase list \<Rightarrow> periodState \<Rightarrow> nat \<Rightarrow> periodState" where
  "periodStep gen phrases st i =
    (case st of (periodStart, periodIndex, periods, c) \<Rightarrow>
      (let phr = phrases ! i;
           isStrongCadence = (getCadenceStrength (phCadence phr) \<ge> 0.7);
           phrasesInPeriod = i - periodStart + 1;
           shouldEndPeriod =
             ((isStrongCadence \<and> phrasesInPeriod \<ge> 2) \<or> phrasesInPeriod \<ge> 4
              \<or> (Suc i < length phrases \<and> isNewSection phr (phrases ! (i + 1))))
       in if shouldEndPeriod \<or> Suc i = length phrases then
            (i + 1, periodIndex + 1,
             periods @ [createPeriod (gen c) (take (i + 1 - periodStart) (drop periodStart phrases))
                          periodIndex],
             Suc c)
          else st))"

definition detectPeriods :: "idgen \<Rightarrow> nat \<Rightarrow> phrase list \<Rightarrow> period list \<times> nat" where
  "detectPeriods gen c phrases =
    (case foldl (periodStep gen phrases) (0, 0, [], c) [0 ..< length phrases] of
       (periodStart, periodIndex, periods, c') \<Rightarrow> (periods, c'))"

record compoundPeriod =
  cpId :: uid
  cpType :: string
  cpPeriods :: "period list"
  cpStart :: int
  cpEnd :: int
  cpStructure :: string

definition arePeriodsParallel :: "period \<Rightarrow> period \<Rightarrow> bool" where
  "arePeriodsParallel period1 period2 =
    (if perPhrases period1 = [] \<or> perPhrases period2 = [] then False
     else comparePhraseHeads (hd (perPhrases period1)) (hd (perPhrases period2)) > 0.7
          \<and> getCadenceStrength (perCadence period2) > getCadenceStrength (perCadence period1))"

text \<open>The loop \<^verbatim>\<open>for (i = 0; i < periods.length - 1; i += 2)\<close> over pairs of periods.\<close>

fun detectCompoundPeriods :: "idgen \<Rightarrow> nat \<Rightarrow> period list \<Rightarrow> compoundPeriod list \<times> nat" where
  "detectCompoundPeriods gen c (p1 # p2 # rest) =
    (if arePeriodsParallel p1 p2 then
       (let (cps, c') = detectCompoundPeriods gen (Suc c) rest
        in (\<lparr>cpId = gen c, cpType = ''compound'', cpPeriods = [p1, p2], cpStart = perStart p1,
              cpEnd = perEnd p2, cpStructure = ''AA'' @ [CHR 0x27]\<rparr> # cps, c'))
     else detectCompoundPeriods gen c rest)"
| "detectCompoundPeriods gen c _ = ([], c)"

section \<open>Form detection\<close>

text \<open>
  The results of the form detectors.  The \<^verbatim>\<open>description\<close> strings of the source, which
  no function reads, are left out.  An entry that a detector does not set is \<open>None\<close>.
\<close>

record middleSection =
  msType :: string
  msConfidence :: real

record themeSpan =
  tsPeriods :: "period list"
  tsStart :: int
  tsEnd :: int

record exposition =
  exPrimaryTheme :: "themeSpan option"
  exTransition :: "themeSpan option"
  exSecondaryTheme :: "themeSpan option"

record recapTheme =
  rtPeriod :: period
  rtSimilarity :: real
  rtIsVaried :: "bool option"
  rtIsInTonic :: "bool option"

record recapitulation =
  rcPrimaryTheme :: "recapTheme option"
  rcSecondaryTheme :: "recapTheme option"
  rcIsComplete :: bool
  rcIsVaried :: bool

record formSection =
  secId :: uid
  secName :: string
  secType :: string
  secStart :: int
  secEnd :: int
  secFunction :: string
  secPeriods :: "period list"
  secMiddleType :: "middleSection option"
  secInternalForm :: "string option"
  secRecapitulationType :: "string option"
  secVariationType :: "string option"
  secIsRecurrence :: "bool option"
  secExposition :: "exposition option"
  secRecapitulation :: "recapitulation option"

definition mkSection :: "uid \<Rightarrow> string \<Rightarrow> string \<Rightarrow> int \<Rightarrow> int \<Rightarrow> string \<Rightarrow> period list \<Rightarrow> formSection" where
  "mkSection i name ty s e fn ps =
    \<lparr>secId = i, secName = name, secType = ty, secStart = s, secEnd = e, secFunction = fn,
     secPeriods = ps, secMiddleType = None, secInternalForm = None,
     secRecapitulationType = None, secVariationType = None, secIsRecurrence = None,
     secExposition = None, secRecapitulation = None\<rparr>"

record variation =
  varIndex :: nat
  varPeriod :: period
  varSimilarity :: real
  varType :: string

record formAnalysis =
  faFormType :: string
  faSections :: "formSection list option"
  faConfidence :: real
  faTheme :: "period option"
  faVariations :: "variation list option"
  faMainThemeCount :: "nat option"
  faEpisodeCount :: "nat option"
  faPattern :: "string option"

definition mkForm :: "string \<Rightarrow> formSection list option \<Rightarrow> real \<Rightarrow> formAnalysis" where
  "mkForm ty secs conf =
    \<lparr>faFormType = ty, faSections = secs, faConfidence = conf, faTheme = None,
     faVariations = None, faMainThemeCount = None, faEpisodeCount = None, faPattern = None\<rparr>"

record materialPattern =
  mpPattern :: string
  mpMaterials :: "string list"
  mpCounts :: "(string \<times> nat) list"
  mpMainMaterial :: string
  mpUniqueCount :: nat
  mpHasRecapitulation :: bool

text \<open>
  \<^verbatim>\<open>counts[m] = (counts[m] || 0) + 1\<close> on an object whose keys are material letters:
  the keys keep the order of their first occurrence.
\<close>

fun bumpCount :: "string \<Rightarrow> (string \<times> nat) list \<Rightarrow> (string \<times> nat) list" where
  "bumpCount m [] = [(m, 1)]"
| "bumpCount m ((k, v) # rest) = (if k = m then (k, v + 1) # rest else (k, v) # bumpCount m rest)"

definition analyzeMaterialPattern :: "period list \<Rightarrow> materialPattern" where
  "analyzeMaterialPattern periods =
    (let materials = map (\<lambda>p. take 1 (perMaterial p)) periods;
         counts = foldl (\<lambda>cs m. bumpCount m cs) [] materials;
         sorted = sort_key (\<lambda>kv. - int (snd kv)) counts
     in \<lparr>mpPattern = concat materials, mpMaterials = materials, mpCounts = counts,
         mpMainMaterial = (case sorted of [] \<Rightarrow> ''a'' | kv # _ \<Rightarrow> if fst kv = [] then ''a'' else fst kv),
         mpUniqueCount = length counts,
         mpHasRecapitulation = (length materials \<ge> 3 \<and> hd materials = last materials)\<rparr>)"

definition calculatePeriodSimilarity :: "period \<Rightarrow> period \<Rightarrow> real" where
  "calculatePeriodSimilarity period1 period2 =
    (if perPhrases period1 = [] \<or> perPhrases period2 = [] then 0
     else calculateMelodicSimilarity (concat (map phNotes (perPhrases period1)))
                                     (concat (map phNotes (perPhrases period2))))"

definition compareRhythms :: "period \<Rightarrow> period \<Rightarrow> real" where
  "compareRhythms period1 period2 =
    compareArrays (concat (map (\<lambda>p. extractRhythmPattern (phNotes p)) (perPhrases period1)))
                  (concat (map (\<lambda>p. extractRhythmPattern (phNotes p)) (perPhrases period2)))"

definition hasRecapitulation :: "period \<Rightarrow> period \<Rightarrow> bool" where
  "hasRecapitulation period1 period2 =
    (if perPhrases period2 = [] then False
     else if perPhrases period1 = [] then False
     else comparePhraseHeads (hd (perPhrases period1)) (last (perPhrases period2)) > 0.6)"

definition analyzeOnePartForm :: "idgen \<Rightarrow> nat \<Rightarrow> period list \<Rightarrow> formAnalysis \<times> nat" where
  "analyzeOnePartForm gen c periods =
    (let p = hd periods
     in (mkForm ''one_part''
           (Some [mkSection (gen c) ''A'' ''period'' (perStart p) (perEnd p) ''main'' [p]]) 0.9,
         Suc c))"

definition analyzeBinaryForm :: "idgen \<Rightarrow> nat \<Rightarrow> period list \<Rightarrow> formAnalysis \<times> nat" where
  "analyzeBinaryForm gen c periods =
    (let A = periods ! 0; B = periods ! 1; hasRecap = hasRecapitulation A B
     in (mkForm (if hasRecap then ''binary_rounded'' else ''binary_parallel'')
           (Some [mkSection (gen c) ''A'' ''period'' (perStart A) (perEnd A) ''exposition'' [A],
                  mkSection (gen (Suc c)) (if hasRecap then ''A'' @ [CHR 0x27] else ''B'') ''period''
                    (perStart B) (perEnd B) (if hasRecap then ''recapitulation'' else ''contrast'') [B]])
           0.8,
         Suc (Suc c)))"

definition classifyMiddleSection :: "period \<Rightarrow> period \<Rightarrow> middleSection" where
  "classifyMiddleSection middlePeriod firstPeriod =
    (let materialSimilarity = calculatePeriodSimilarity middlePeriod firstPeriod;
         isKeyStable = (perClosure middlePeriod = ''closed'');
         hasCompleteStructure = (phraseCount middlePeriod \<ge> 2)
     in if hasCompleteStructure \<and> isKeyStable then \<lparr>msType = ''trio'', msConfidence = 0.8\<rparr>
        else if materialSimilarity > 0.5 then \<lparr>msType = ''development'', msConfidence = 0.75\<rparr>
        else \<lparr>msType = ''episode'', msConfidence = 0.7\<rparr>)"

definition analyzeTernaryForm ::
  "idgen \<Rightarrow> nat \<Rightarrow> period list \<Rightarrow> materialPattern \<Rightarrow> formAnalysis \<times> nat" where
  "analyzeTernaryForm gen c periods mp =
    (let A = periods ! 0; B = periods ! 1; C = periods ! 2
     in if mpHasRecapitulation mp then
          (let middleType = classifyMiddleSection B A
           in (mkForm ''ternary_simple''
                 (Some [mkSection (gen c) ''A'' ''period'' (perStart A) (perEnd A) ''exposition'' [A],
                        (mkSection (gen (Suc c)) ''B'' (msType middleType) (perStart B) (perEnd B)
                           ''middle'' [B])\<lparr>secMiddleType := Some middleType\<rparr>,
                        mkSection (gen (Suc (Suc c))) (''A'' @ [CHR 0x27]) ''period'' (perStart C)
                          (perEnd C) ''recapitulation'' [C]])
                 0.85,
               c + 3))
        else
          (mkForm ''ternary_parallel''
             (Some [mkSection (gen c) ''A'' ''period'' (perStart A) (perEnd A) ''first_theme'' [A],
                    mkSection (gen (Suc c)) ''B'' ''period'' (perStart B) (perEnd B) ''second_theme'' [B],
                    mkSection (gen (Suc (Suc c))) ''C'' ''period'' (perStart C) (perEnd C)
                      ''third_theme'' [C]])
             0.75,
           c + 3))"

text \<open>\<^verbatim>\<open>String.fromCharCode(65 + index)\<close>, for the codes of one byte.\<close>

definition letterFrom :: "nat \<Rightarrow> string" where
  "letterFrom index = [char_of (65 + index)]"

text \<open>\<^verbatim>\<open>createSections\<close>: one section per period, named A, B, C, ...\<close>

definition createSections :: "idgen \<Rightarrow> nat \<Rightarrow> period list \<Rightarrow> formSection list \<times> nat" where
  "createSections gen c periods =
    (map (\<lambda>index.
            mkSection (gen (c + index)) (letterFrom index) ''period''
              (perStart (periods ! index)) (perEnd (periods ! index))
              (if index = 0 then ''main'' else ''secondary'') [periods ! index])
         [0 ..< length periods],
     c + length periods)"

definition analyzeInternalForm :: "period list \<Rightarrow> string" where
  "analyzeInternalForm periods =
    (if length periods = 1 then ''period''
     else if length periods = 2 then
       (if arePeriodsParallel (periods ! 0) (periods ! 1) then ''binary_rounded''
        else ''binary_parallel'')
     else if length periods = 3 then ''ternary''
     else ''complex'')"

text \<open>
  \<^verbatim>\<open>classifyRecapitulation\<close>; the periods of a detected form have positive lengths,
  so the ratio is a finite number.
\<close>

definition classifyRecapitulation :: "period list \<Rightarrow> period list \<Rightarrow> string" where
  "classifyRecapitulation originalPeriods recapPeriods =
    (if originalPeriods = [] \<or> recapPeriods = [] then ''unknown''
     else
       (let lengthRatio = real_of_int (sum_list (map perLength recapPeriods))
                          / real_of_int (sum_list (map perLength originalPeriods))
        in if lengthRatio > 0.95 \<and> lengthRatio < 1.05 then ''complete''
           else if lengthRatio < 0.7 then ''abbreviated''
           else if lengthRatio > 1.3 then ''expanded''
           else ''varied''))"

text \<open>
  The first loop of \<^verbatim>\<open>analyzeCompoundTernaryForm\<close>: the indices of the first period
  whose material differs from the first one and of the last period before the material
  returns; \<open>None\<close> stands for \<open>-1\<close>.
\<close>

fun findMiddle :: "string list \<Rightarrow> string \<Rightarrow> nat \<Rightarrow> nat option \<Rightarrow> nat option \<times> nat option" where
  "findMiddle [] mainMaterial i middleStart = (middleStart, None)"
| "findMiddle (m # rest) mainMaterial i middleStart =
    (let middleStart' = (if m \<noteq> mainMaterial \<and> middleStart = None then Some i else middleStart)
     in if m = mainMaterial \<and> middleStart' \<noteq> None then (middleStart', Some (i - 1))
        else findMiddle rest mainMaterial (i + 1) middleStart')"

definition analyzeCompoundTernaryForm ::
  "idgen \<Rightarrow> nat \<Rightarrow> period list \<Rightarrow> materialPattern \<Rightarrow> formAnalysis \<times> nat" where
  "analyzeCompoundTernaryForm gen c periods mp =
    (if \<not> mpHasRecapitulation mp then
       (let (secs, c') = createSections gen c periods in (mkForm ''multi_part'' (Some secs) 0.5, c'))
     else
       (let materials = mpMaterials mp;
            found = findMiddle (tl materials) (hd materials) 1 None;
            middleStart = (case fst found of None \<Rightarrow> 1 | Some i \<Rightarrow> i);
            middleEnd = (case snd found of None \<Rightarrow> length periods - 2 | Some i \<Rightarrow> i);
            aPeriods = take middleStart periods;
            aSection = (mkSection (gen c) ''A'' (if length aPeriods > 1 then ''section'' else ''period'')
                          (perStart (hd aPeriods)) (perEnd (last aPeriods)) ''exposition'' aPeriods)
                       \<lparr>secInternalForm := Some (analyzeInternalForm aPeriods)\<rparr>;
            bPeriods = take (middleEnd + 1 - middleStart) (drop middleStart periods);
            bSections =
              (if bPeriods = [] then []
               else
                 (let middleType = classifyMiddleSection (hd bPeriods) (hd aPeriods)
                  in [(mkSection (gen (Suc c)) ''B''
                         (if length bPeriods > 1 then ''section'' else msType middleType)
                         (perStart (hd bPeriods)) (perEnd (last bPeriods)) ''middle'' bPeriods)
                      \<lparr>secMiddleType := Some middleType,
                        secInternalForm := Some (analyzeInternalForm bPeriods)\<rparr>]));
            c1 = Suc c + length bSections;
            aPrimePeriods = drop (middleEnd + 1) periods;
            aPrimeSections =
              (if aPrimePeriods = [] then []
               else
                 [(mkSection (gen c1) (''A'' @ [CHR 0x27])
                     (if length aPrimePeriods > 1 then ''section'' else ''period'')
                     (perStart (hd aPrimePeriods)) (perEnd (last aPrimePeriods)) ''recapitulation''
                     aPrimePeriods)
                  \<lparr>secRecapitulationType := Some (classifyRecapitulation aPeriods aPrimePeriods)\<rparr>])
        in (mkForm ''ternary_compound'' (Some (aSection # bSections @ aPrimeSections)) 0.75,
            c1 + length aPrimeSections)))"

text \<open>Decimal notation of a count, as template strings print it.\<close>

fun showNat :: "nat \<Rightarrow> string" where
  "showNat n = (if n < 10 then [char_of (48 + n)] else showNat (n div 10) @ [char_of (48 + n mod 10)])"

definition classifyVariationType :: "period \<Rightarrow> period \<Rightarrow> string" where
  "classifyVariationType theme var =
    (let melodySim = calculateMelodicSimilarity
                       (case perPhrases theme of [] \<Rightarrow> [] | p # _ \<Rightarrow> phNotes p)
                       (case perPhrases var of [] \<Rightarrow> [] | p # _ \<Rightarrow> phNotes p);
         rhythmSim = compareRhythms theme var
     in if melodySim > 0.7 then ''ornamental''
        else if rhythmSim > 0.7 then ''melodic''
        else ''character'')"

definition createVariationSections ::
  "idgen \<Rightarrow> nat \<Rightarrow> period \<Rightarrow> variation list \<Rightarrow> formSection list \<times> nat" where
  "createVariationSections gen c theme variations =
    (mkSection (gen c) ''Theme'' ''theme'' (perStart theme) (perEnd theme) ''theme'' [theme]
     # map (\<lambda>i.
              (mkSection (gen (Suc c + i)) (''Var. '' @ showNat (i + 1)) ''variation''
                 (perStart (varPeriod (variations ! i))) (perEnd (varPeriod (variations ! i)))
                 ''variation'' [varPeriod (variations ! i)])
              \<lparr>secVariationType := Some (varType (variations ! i))\<rparr>)
           [0 ..< length variations],
     Suc c + length variations)"

text \<open>
  The loop of \<^verbatim>\<open>detectVariationForm\<close> over the periods after the theme: the periods
  whose similarity to the theme lies strictly between 0.3 and 0.9.
\<close>

definition findVariations :: "period list \<Rightarrow> variation list" where
  "findVariations periods =
    map (\<lambda>i. \<lparr>varIndex = i, varPeriod = periods ! i,
               varSimilarity = calculatePeriodSimilarity (periods ! i) (hd periods),
               varType = classifyVariationType (hd periods) (periods ! i)\<rparr>)
        (filter (\<lambda>i. calculatePeriodSimilarity (periods ! i) (hd periods) > 0.3
                     \<and> calculatePeriodSimilarity (periods ! i) (hd periods) < 0.9)
                [1 ..< length periods])"

definition detectVariationForm :: "idgen \<Rightarrow> nat \<Rightarrow> period list \<Rightarrow> formAnalysis \<times> nat" where
  "detectVariationForm gen c periods =
    (if length periods < 3 then (mkForm ''variation'' None 0.3, c)
     else
       (let theme = hd periods;
            variations = findVariations periods;
            variationCount = length variations;
            variationRatio = real variationCount / real (length periods - 1)
        in if variationRatio > 0.6 then
             (let (secs, c') = createVariationSections gen c theme variations
              in ((mkForm ''variation'' (Some secs) (0.7 + variationRatio * 0.2))
                    \<lparr>faTheme := Some theme, faVariations := Some variations\<rparr>,
                  c'))
           else (mkForm ''variation'' None 0.3, c)))"

text \<open>
  The section loop of \<^verbatim>\<open>detectRondoForm\<close> on
  \<open>(sections, mainThemeIndex, episodeIndex, id counter)\<close>.
\<close>

definition rondoStep ::
  "idgen \<Rightarrow> period list \<Rightarrow> string list \<Rightarrow> string \<Rightarrow> formSection list \<times> nat \<times> nat \<times> nat \<Rightarrow> nat
   \<Rightarrow> formSection list \<times> nat \<times> nat \<times> nat" where
  "rondoStep gen periods materials mainMaterial st i =
    (case st of (secs, mainThemeIndex, episodeIndex, c) \<Rightarrow>
      if materials ! i = mainMaterial then
        (secs @
         [(mkSection (gen c)
             (if mainThemeIndex = 0 then ''A (Main Theme)'' else ''A'' @ showNat mainThemeIndex)
             ''refrain'' (perStart (periods ! i)) (perEnd (periods ! i)) ''main_theme'' [periods ! i])
          \<lparr>secIsRecurrence := Some (mainThemeIndex > 0)\<rparr>],
         mainThemeIndex + 1, episodeIndex, Suc c)
      else
        (secs @
         [mkSection (gen c)
            (letterFrom (episodeIndex + 1) @ '' (Episode '' @ showNat (episodeIndex + 1) @ '')'')
            ''episode'' (perStart (periods ! i)) (perEnd (periods ! i)) ''episode'' [periods ! i]],
         mainThemeIndex, episodeIndex + 1, Suc c))"

definition detectRondoForm ::
  "idgen \<Rightarrow> nat \<Rightarrow> period list \<Rightarrow> materialPattern \<Rightarrow> formAnalysis \<times> nat" where
  "detectRondoForm gen c periods mp =
    (let materials = mpMaterials mp;
         mainMaterial = mpMainMaterial mp;
         mainCount = (case map_of (mpCounts mp) mainMaterial of None \<Rightarrow> 0 | Some n \<Rightarrow> n)
     in if mainCount < 3 then (mkForm ''rondo'' None 0.3, c)
        else
          (let episodeCount = length (filter (\<lambda>m. m \<noteq> mainMaterial) (map fst (mpCounts mp)))
           in if episodeCount < 2 then (mkForm ''rondo'' None 0.4, c)
              else
                (case foldl (rondoStep gen periods materials mainMaterial) ([], 0, 0, c)
                        [0 ..< length periods] of
                   (secs, mainThemeIndex, episodeIndex, c') \<Rightarrow>
                     ((mkForm ''rondo'' (Some secs)
                         (min 0.9 (0.5 + real mainCount * 0.1 + real episodeCount * 0.1)))
                        \<lparr>faMainThemeCount := Some mainCount, faEpisodeCount := Some episodeCount,
                          faPattern := Some (concat materials)\<rparr>,
                      c'))))"

definition spanOf :: "period list \<Rightarrow> themeSpan" where
  "spanOf ps = \<lparr>tsPeriods = ps, tsStart = perStart (hd ps), tsEnd = perEnd (last ps)\<rparr>"

text \<open>\<^verbatim>\<open>analyzeExposition\<close>; its \<^verbatim>\<open>closingTheme\<close> entry is always \<^verbatim>\<open>null\<close>.\<close>

definition analyzeExposition :: "period list \<Rightarrow> exposition" where
  "analyzeExposition periods =
    \<lparr>exPrimaryTheme = (if length periods \<ge> 1 then Some (spanOf [hd periods]) else None),
     exTransition = (if length periods \<ge> 3 then Some (spanOf (butlast (tl periods))) else None),
     exSecondaryTheme = (if length periods \<ge> 2 then Some (spanOf [last periods]) else None)\<rparr>"

definition analyzeRecapitulation :: "period list \<Rightarrow> period list \<Rightarrow> recapitulation" where
  "analyzeRecapitulation recapPeriods expositionPeriods =
    \<lparr>rcPrimaryTheme =
       (if length recapPeriods \<ge> 1 \<and> length expositionPeriods \<ge> 1 then
          Some \<lparr>rtPeriod = hd recapPeriods,
                rtSimilarity = calculatePeriodSimilarity (hd recapPeriods) (hd expositionPeriods),
                rtIsVaried = Some (calculatePeriodSimilarity (hd recapPeriods) (hd expositionPeriods) < 0.8),
                rtIsInTonic = None\<rparr>
        else None),
     rcSecondaryTheme =
       (if length recapPeriods \<ge> 2 \<and> length expositionPeriods \<ge> 2 then
          Some \<lparr>rtPeriod = last recapPeriods,
                rtSimilarity = calculatePeriodSimilarity (last recapPeriods) (last expositionPeriods),
                rtIsVaried = None, rtIsInTonic = Some True\<rparr>
        else None),
     rcIsComplete = (real (length recapPeriods) \<ge> real (length expositionPeriods) * 0.7),
     rcIsVaried = False\<rparr>"

definition detectSonataForm :: "idgen \<Rightarrow> nat \<Rightarrow> period list \<Rightarrow> formAnalysis \<times> nat" where
  "detectSonataForm gen c periods =
    (if length periods < 3 then (mkForm ''sonata'' None 0.3, c)
     else
       (let expEndIndex = length periods div 3;
            devEndIndex = (2 * length periods) div 3;
            firstPeriod = hd periods;
            lastPeriods = drop devEndIndex periods
        in if \<not> list_ex (\<lambda>p. calculatePeriodSimilarity p firstPeriod > 0.5) lastPeriods
           then (mkForm ''sonata'' None 0.4, c)
           else
             (let expositionPeriods = take (expEndIndex + 1) periods;
                  expositionSection =
                    (mkSection (gen c) ''Exposition'' ''exposition'' (perStart (hd expositionPeriods))
                       (perEnd (last expositionPeriods)) ''exposition'' expositionPeriods)
                    \<lparr>secExposition := Some (analyzeExposition expositionPeriods)\<rparr>;
                  developmentPeriods = take (devEndIndex - expEndIndex) (drop (expEndIndex + 1) periods);
                  developmentSections =
                    (if developmentPeriods = [] then []
                     else [mkSection (gen (Suc c)) ''Development'' ''development''
                             (perStart (hd developmentPeriods)) (perEnd (last developmentPeriods))
                             ''development'' developmentPeriods]);
                  c1 = Suc c + length developmentSections;
                  recapPeriods = drop (devEndIndex + 1) periods;
                  recapSections =
                    (if recapPeriods = [] then []
                     else [(mkSection (gen c1) ''Recapitulation'' ''recapitulation''
                              (perStart (hd recapPeriods)) (perEnd (last recapPeriods))
                              ''recapitulation'' recapPeriods)
                           \<lparr>secRecapitulation :=
                               Some (analyzeRecapitulation recapPeriods expositionPeriods)\<rparr>])
              in (mkForm ''sonata'' (Some (expositionSection # developmentSections @ recapSections)) 0.65,
                  c1 + length recapSections))))"

section \<open>Popular-music forms\<close>

definition sameLetter :: "char \<Rightarrow> char \<Rightarrow> char \<Rightarrow> bool" where
  "sameLetter lower upper ch = (ch = lower \<or> ch = upper)"

text \<open>
  The pattern \<^verbatim>\<open>/^(xy)+x?$/i\<close> for two letters \<open>x\<close> and \<open>y\<close>, each given in lower
  and upper case.
\<close>

fun alternates :: "char \<Rightarrow> char \<Rightarrow> char \<Rightarrow> char \<Rightarrow> string \<Rightarrow> bool" where
  "alternates x X y Y (a # b # rest) =
    (sameLetter x X a \<and> sameLetter y Y b
     \<and> (rest = [] \<or> (length rest = 1 \<and> sameLetter x X (hd rest)) \<or> alternates x X y Y rest))"
| "alternates x X y Y _ = False"

definition matchesAABA :: "string \<Rightarrow> bool" where
  "matchesAABA s =
    (length s = 4 \<and> sameLetter (CHR ''a'') (CHR ''A'') (s ! 0) \<and> sameLetter (CHR ''a'') (CHR ''A'') (s ! 1)
     \<and> sameLetter (CHR ''b'') (CHR ''B'') (s ! 2) \<and> sameLetter (CHR ''a'') (CHR ''A'') (s ! 3))"

text \<open>
  The section loop of \<^verbatim>\<open>createVerseChorusSections\<close> on
  \<open>(sections, verseCount, chorusCount, id counter)\<close>.
\<close>

definition verseChorusStep ::
  "idgen \<Rightarrow> period list \<Rightarrow> string list \<Rightarrow> formSection list \<times> nat \<times> nat \<times> nat \<Rightarrow> nat
   \<Rightarrow> formSection list \<times> nat \<times> nat \<times> nat" where
  "verseChorusStep gen periods materials st i =
    (case st of (secs, verseCount, chorusCount, c) \<Rightarrow>
      if materials ! i = hd materials then
        (secs @ [mkSection (gen c) (''Verse '' @ showNat (verseCount + 1)) ''verse''
                   (perStart (periods ! i)) (perEnd (periods ! i)) ''verse'' [periods ! i]],
         verseCount + 1, chorusCount, Suc c)
      else
        (secs @ [mkSection (gen c) (''Chorus '' @ showNat (chorusCount + 1)) ''chorus''
                   (perStart (periods ! i)) (perEnd (periods ! i)) ''chorus'' [periods ! i]],
         verseCount, chorusCount + 1, Suc c))"

definition createVerseChorusSections ::
  "idgen \<Rightarrow> nat \<Rightarrow> period list \<Rightarrow> string list \<Rightarrow> formSection list \<times> nat" where
  "createVerseChorusSections gen c periods materials =
    (case foldl (verseChorusStep gen periods materials) ([], 0, 0, c) [0 ..< length periods] of
       (secs, verseCount, chorusCount, c') \<Rightarrow> (secs, c'))"

definition aabaNames :: "string list" where
  "aabaNames = [''A (Verse 1)'', ''A (Verse 2)'', ''B (Bridge)'', ''A'' @ [CHR 0x27] @ '' (Verse 3)'']"

definition aabaFunctions :: "string list" where
  "aabaFunctions = [''verse'', ''verse'', ''bridge'', ''verse'']"

definition createAABASections :: "idgen \<Rightarrow> nat \<Rightarrow> period list \<Rightarrow> formSection list \<times> nat" where
  "createAABASections gen c periods =
    (map (\<lambda>i. mkSection (gen (c + i))
                 (if i < length aabaNames then aabaNames ! i else ''Section '' @ showNat (i + 1))
                 (if i < length aabaFunctions then aabaFunctions ! i else ''section'')
                 (perStart (periods ! i)) (perEnd (periods ! i))
                 (if i < length aabaFunctions then aabaFunctions ! i else ''section'')
                 [periods ! i])
         [0 ..< length periods],
     c + length periods)"

definition detectPopularMusicForm :: "idgen \<Rightarrow> nat \<Rightarrow> period list \<Rightarrow> formAnalysis \<times> nat" where
  "detectPopularMusicForm gen c periods =
    (if length periods < 2 then (mkForm ''unknown'' None 0.3, c)
     else
       (let mp = analyzeMaterialPattern periods;
            materials = mpMaterials mp;
            pat = concat materials
        in if length (mpCounts mp) = 2
              \<and> (alternates (CHR ''a'') (CHR ''A'') (CHR ''b'') (CHR ''B'') pat
                 \<or> alternates (CHR ''b'') (CHR ''B'') (CHR ''a'') (CHR ''A'') pat)
           then
             (let (secs, c') = createVerseChorusSections gen c periods materials
              in (mkForm ''verse_chorus'' (Some secs) 0.75, c'))
           else if length materials = 4 \<and> matchesAABA pat then
             (let (secs, c') = createAABASections gen c periods
              in (mkForm ''aaba'' (Some secs) 0.8, c'))
           else (mkForm ''unknown'' None 0.3, c)))"

section \<open>The form cascade\<close>

text \<open>
  \<^verbatim>\<open>detectForm\<close>, in the order of the source: the small forms by the number of
  periods, then the variation probe, the rondo probe for five periods or more, the sonata
  probe, the compound ternary analysis, and the multi-part default.
\<close>

definition formAfterSonata ::
  "idgen \<Rightarrow> nat \<Rightarrow> period list \<Rightarrow> materialPattern \<Rightarrow> formAnalysis \<times> nat" where
  "formAfterSonata gen c periods mp =
    (if length periods \<ge> 4 then analyzeCompoundTernaryForm gen c periods mp
     else (let (secs, c') = createSections gen c periods in (mkForm ''multi_part'' (Some secs) 0.5, c')))"

definition formAfterRondo ::
  "idgen \<Rightarrow> nat \<Rightarrow> period list \<Rightarrow> materialPattern \<Rightarrow> formAnalysis \<times> nat" where
  "formAfterRondo gen c periods mp =
    (if length periods \<ge> 3 then
       (let (sonataAnalysis, c1) = detectSonataForm gen c periods
        in if faConfidence sonataAnalysis > 0.6 then (sonataAnalysis, c1)
           else formAfterSonata gen c1 periods mp)
     else formAfterSonata gen c periods mp)"

definition formAfterVariation ::
  "idgen \<Rightarrow> nat \<Rightarrow> period list \<Rightarrow> materialPattern \<Rightarrow> formAnalysis \<times> nat" where
  "formAfterVariation gen c periods mp =
    (if length periods \<ge> 5 then
       (let (rondoAnalysis, c1) = detectRondoForm gen c periods mp
        in if faConfidence rondoAnalysis > 0.6 then (rondoAnalysis, c1)
           else formAfterRondo gen c1 periods mp)
     else formAfterRondo gen c periods mp)"

definition detectForm :: "idgen \<Rightarrow> nat \<Rightarrow> period list \<Rightarrow> formAnalysis \<times> nat" where
  "detectForm gen c periods =
    (if length periods = 0 then (mkForm ''one_part'' (Some []) 0.5, c)
     else
       (let mp = analyzeMaterialPattern periods
        in if length periods = 1 then analyzeOnePartForm gen c periods
           else if length periods = 2 then analyzeBinaryForm gen c periods
           else if length periods = 3 then analyzeTernaryForm gen c periods mp
           else
             (let (variationAnalysis, c1) = detectVariationForm gen c periods
              in if faConfidence variationAnalysis > 0.7 then (variationAnalysis, c1)
                 else formAfterVariation gen c1 periods mp)))"

text \<open>
  Sample periods for the concrete runs of the form cascade: a period of one four-measure
  phrase with the given pitches, each one beat long.  Against the theme C4 D4 E4 the
  varied pitches C4 E4 C4 have similarity 0.4 (no interval matches, the rhythm does) and the
  theme itself has similarity 1.
\<close>

definition sampleNote :: "string \<Rightarrow> int \<Rightarrow> Note" where
  "sampleNote p m = \<lparr>pitch = Some p, duration = 1, measureNumber = m, beat = 0, isRest = False\<rparr>"






section \<open>Motive detection\<close>

record timeSignature =
  beats :: nat
  beatType :: nat

text \<open>
  The JavaScript remainder \<^verbatim>\<open>x % b\<close> for a positive divisor: the quotient is truncated
  towards zero.
\<close>

definition jsRem :: "real \<Rightarrow> real \<Rightarrow> real" where
  "jsRem x b = x - b * real_of_int (if x / b \<ge> 0 then \<lfloor>x / b\<rfloor> else \<lceil>x / b\<rceil>)"

text \<open>
  \<^verbatim>\<open>groupNotesByBeat\<close>: the notes of a measure whose beat, taken modulo the number of
  beats and rounded down, is \<open>b\<close>; a note whose index is no key of the table (a negative
  beat) is in no group.
\<close>

definition beatGroup :: "Note list \<Rightarrow> nat \<Rightarrow> nat \<Rightarrow> Note list" where
  "beatGroup notes beatsPerMeasure b =
    filter (\<lambda>n. \<lfloor>jsRem (beat n) (real beatsPerMeasure)\<rfloor> = int b) notes"

definition extractContour :: "Note list \<Rightarrow> string" where
  "extractContour notes =
    (if length notes < 2 then ''static''
     else
       (let diff = pitchToMidi (pitch (last notes)) - pitchToMidi (pitch (hd notes))
        in if diff > 2 then ''ascending'' else if diff < - 2 then ''descending'' else ''static''))"

definition mkMotive :: "uid \<Rightarrow> nat \<Rightarrow> Note list \<Rightarrow> int \<Rightarrow> int \<Rightarrow> motive" where
  "mkMotive i index notes measureNum startBeat =
    \<lparr>motId = i, motIndex = index, motNotes = notes, motMeasure = measureNum,
     motStartBeat = startBeat, intervalPattern = extractIntervalPattern notes,
     rhythmPattern = extractRhythmPattern notes, contour = extractContour notes,
     motRelationship = None, relatedTo = None\<rparr>"

text \<open>
  The loop over the beats of one measure, on
  \<open>(currentMotive, motiveStartBeat, motives, motiveIndex, id counter)\<close>.
\<close>

type_synonym motiveState = "Note list \<times> int \<times> motive list \<times> nat \<times> nat"

definition motiveBeatStep ::
  "idgen \<Rightarrow> Note list \<Rightarrow> nat \<Rightarrow> int \<Rightarrow> motiveState \<Rightarrow> nat \<Rightarrow> motiveState" where
  "motiveBeatStep gen measureNotes beatsPerMeasure measureNum st b =
    (case st of (currentMotive, motiveStartBeat, motives, motiveIndex, c) \<Rightarrow>
      (let isStrongBeat = (b = 0 \<or> (beatsPerMeasure = 4 \<and> b = 2));
           beatNotes = beatGroup measureNotes beatsPerMeasure b
       in if isStrongBeat \<and> currentMotive \<noteq> [] then
            (if length currentMotive \<ge> 2 then
               (beatNotes, int b,
                motives @ [mkMotive (gen c) motiveIndex currentMotive measureNum motiveStartBeat],
                motiveIndex + 1, Suc c)
             else (beatNotes, int b, motives, motiveIndex, c))
          else (currentMotive @ beatNotes, motiveStartBeat, motives, motiveIndex, c)))"

text \<open>The body of the loop over the measures, on \<open>(motives, motiveIndex, id counter)\<close>.\<close>

definition motiveMeasureStep ::
  "idgen \<Rightarrow> Note list \<Rightarrow> nat \<Rightarrow> motive list \<times> nat \<times> nat \<Rightarrow> int \<Rightarrow> motive list \<times> nat \<times> nat" where
  "motiveMeasureStep gen notes beatsPerMeasure st measureNum =
    (case st of (motives, motiveIndex, c) \<Rightarrow>
      (case foldl (motiveBeatStep gen (measureGroup notes measureNum) beatsPerMeasure measureNum)
              ([], 0, motives, motiveIndex, c) [0 ..< beatsPerMeasure] of
         (currentMotive, motiveStartBeat, motives', motiveIndex', c') \<Rightarrow>
           if length currentMotive \<ge> 2 then
             (motives' @ [mkMotive (gen c') motiveIndex' currentMotive measureNum motiveStartBeat],
              motiveIndex' + 1, Suc c')
           else (motives', motiveIndex', c')))"

text \<open>\<^verbatim>\<open>intervalPattern.slice(0, len2 - 1)\<close>; for \<open>len2 = 0\<close> the end index is \<open>-1\<close>.\<close>

definition isFragmentation :: "motive \<Rightarrow> motive \<Rightarrow> bool" where
  "isFragmentation motive1 motive2 =
    (let len1 = length (motNotes motive1); len2 = length (motNotes motive2)
     in if real len2 \<ge> real len1 * 0.8 then False
        else compareArrays
               (map real_of_int
                  (if len2 = 0 then butlast (intervalPattern motive1)
                   else take (len2 - 1) (intervalPattern motive1)))
               (map real_of_int (intervalPattern motive2)) > 0.7)"

text \<open>
  \<^verbatim>\<open>isInversion\<close>; for two empty patterns the source compares \<^verbatim>\<open>0 / 0\<close> with 0.8,
  which is false.
\<close>

definition isInversion :: "int list \<Rightarrow> int list \<Rightarrow> bool" where
  "isInversion intervals1 intervals2 =
    (if length intervals1 \<noteq> length intervals2 then False
     else if intervals1 = [] then False
     else real (length (filter (\<lambda>i. \<bar>intervals1 ! i + intervals2 ! i\<bar> \<le> 1) [0 ..< length intervals1]))
          / real (length intervals1) > 0.8)"

definition analyzeMotiveRelationship :: "motive \<Rightarrow> motive \<Rightarrow> relation" where
  "analyzeMotiveRelationship motive1 motive2 =
    (let intervalSim = compareArrays (map real_of_int (intervalPattern motive1))
                                     (map real_of_int (intervalPattern motive2));
         rhythmSim = compareArrays (rhythmPattern motive1) (rhythmPattern motive2);
         transposition = detectTransposition (motNotes motive1) (motNotes motive2)
     in if intervalSim > 0.9 \<and> rhythmSim > 0.9 then
          \<lparr>relType = ''repetition'', relConfidence = 0.95, relTransposition = None\<rparr>
        else if intervalSim > 0.8 \<and> rhythmSim > 0.7 \<and> transposition \<noteq> 0 then
          \<lparr>relType = ''sequence'', relConfidence = 0.85, relTransposition = Some transposition\<rparr>
        else if rhythmSim > 0.8 \<and> intervalSim < 0.5 then
          \<lparr>relType = ''variation'', relConfidence = 0.7, relTransposition = None\<rparr>
        else if isFragmentation motive1 motive2 then
          \<lparr>relType = ''fragmentation'', relConfidence = 0.75, relTransposition = None\<rparr>
        else if isInversion (intervalPattern motive1) (intervalPattern motive2) then
          \<lparr>relType = ''inversion'', relConfidence = 0.8, relTransposition = None\<rparr>
        else \<lparr>relType = ''new'', relConfidence = 0.6, relTransposition = None\<rparr>)"

text \<open>
  \<^verbatim>\<open>labelMotiveRelationships\<close>: every motive but the first gets its relationship to
  its predecessor, and the predecessor's id unless the relationship is new.
\<close>

fun labelFrom :: "motive \<Rightarrow> motive list \<Rightarrow> motive list" where
  "labelFrom prev [] = []"
| "labelFrom prev (cur # rest) =
    (let relationship = analyzeMotiveRelationship prev cur
     in cur\<lparr>motRelationship := Some relationship,
            relatedTo := (if relType relationship \<noteq> ''new'' then Some (motId prev) else None)\<rparr>
        # labelFrom cur rest)"

fun labelMotiveRelationships :: "motive list \<Rightarrow> motive list" where
  "labelMotiveRelationships [] = []"
| "labelMotiveRelationships (m # ms) = m # labelFrom m ms"

definition detectMotives :: "idgen \<Rightarrow> nat \<Rightarrow> Note list \<Rightarrow> timeSignature \<Rightarrow> motive list \<times> nat" where
  "detectMotives gen c notes ts =
    (if length notes < 2 then ([], c)
     else
       (case foldl (motiveMeasureStep gen notes (beats ts)) ([], 0, c) (measureNumbersOf notes) of
          (motives, motiveIndex, c') \<Rightarrow> (labelMotiveRelationships motives, c')))"

section \<open>Sub-phrase detection\<close>

definition hasRhythmicBreak :: "Note list \<Rightarrow> bool" where
  "hasRhythmicBreak notes =
    (if length notes < 4 then False
     else list_ex (\<lambda>i. duration (notes ! i) \<ge> 2 \<or> isRest (notes ! i)) [1 ..< length notes - 1])"

definition getMotivesInRange :: "motive list \<Rightarrow> int \<Rightarrow> int \<Rightarrow> int \<Rightarrow> motive list" where
  "getMotivesInRange motives measureNum startBeat endBeat =
    filter (\<lambda>m. motMeasure m = measureNum \<and> motStartBeat m \<ge> startBeat \<and> motStartBeat m < endBeat)
           motives"

definition mkSubPhrase ::
  "uid \<Rightarrow> nat \<Rightarrow> int \<Rightarrow> int \<Rightarrow> int \<Rightarrow> Note list \<Rightarrow> motive list \<Rightarrow> subPhrase" where
  "mkSubPhrase i index measureNum startBeat endBeat notes motives =
    \<lparr>spId = i, spIndex = index, spStart = measureNum, spEnd = measureNum,
     spStartBeat = startBeat, spEndBeat = endBeat, spNotes = notes,
     spMotives = getMotivesInRange motives measureNum startBeat endBeat,
     spMaterial = assignMaterialLabel index, similarTo = None, similarity = None\<rparr>"

text \<open>The body of the loop over the measures, on \<open>(subPhrases, subPhraseIndex, id counter)\<close>.\<close>

definition subPhraseStep ::
  "idgen \<Rightarrow> Note list \<Rightarrow> motive list \<Rightarrow> subPhrase list \<times> nat \<times> nat \<Rightarrow> int
   \<Rightarrow> subPhrase list \<times> nat \<times> nat" where
  "subPhraseStep gen notes motives st measureNum =
    (case st of (sps, subPhraseIndex, c) \<Rightarrow>
      (let measureNotes = measureGroup notes measureNum
       in if hasRhythmicBreak measureNotes \<and> length measureNotes > 4 then
            (let midPoint = length measureNotes div 2
             in (sps @
                 [mkSubPhrase (gen c) subPhraseIndex measureNum 0 2 (take midPoint measureNotes) motives,
                  mkSubPhrase (gen (Suc c)) (subPhraseIndex + 1) measureNum 2 4
                    (drop midPoint measureNotes) motives],
                 subPhraseIndex + 2, Suc (Suc c)))
          else
            (sps @ [mkSubPhrase (gen c) subPhraseIndex measureNum 0 4 measureNotes motives],
             subPhraseIndex + 1, Suc c)))"

definition calculateSubPhraseSimilarity :: "subPhrase \<Rightarrow> subPhrase \<Rightarrow> real" where
  "calculateSubPhraseSimilarity sp1 sp2 =
    (if spNotes sp1 = [] \<or> spNotes sp2 = [] then 0
     else compareArrays (map real_of_int (extractIntervalPattern (spNotes sp1)))
                        (map real_of_int (extractIntervalPattern (spNotes sp2))) * 0.6
          + compareArrays (extractRhythmPattern (spNotes sp1)) (extractRhythmPattern (spNotes sp2)) * 0.4)"

text \<open>
  The inner loop of \<^verbatim>\<open>analyzeSubPhraseMaterials\<close>: the first earlier sub-phrase with
  similarity above 0.5 relabels \<open>sp\<close>, with a prime above 0.8 and with \<open>v\<close> otherwise.
\<close>

fun relabelSubPhrase :: "subPhrase \<Rightarrow> subPhrase list \<Rightarrow> subPhrase option" where
  "relabelSubPhrase sp [] = None"
| "relabelSubPhrase sp (prevSp # rest) =
    (let sim = calculateSubPhraseSimilarity sp prevSp
     in if sim > 0.8 then
          Some (sp\<lparr>spMaterial := spMaterial prevSp @ [CHR 0x27], similarTo := Some (spId prevSp),
                   similarity := Some sim\<rparr>)
        else if sim > 0.5 then
          Some (sp\<lparr>spMaterial := spMaterial prevSp @ ''v'', similarTo := Some (spId prevSp),
                   similarity := Some sim\<rparr>)
        else relabelSubPhrase sp rest)"

text \<open>The outer loop, on \<open>(sub-phrases labelled so far, materialIndex)\<close>.\<close>

definition materialStep :: "subPhrase list \<times> nat \<Rightarrow> subPhrase \<Rightarrow> subPhrase list \<times> nat" where
  "materialStep st sp =
    (case st of (labelled, materialIndex) \<Rightarrow>
      (case relabelSubPhrase sp labelled of
         Some sp' \<Rightarrow> (labelled @ [sp'], materialIndex)
       | None \<Rightarrow> (labelled @ [sp\<lparr>spMaterial := [char_of (97 + materialIndex)]\<rparr>],
                   min (materialIndex + 1) 25)))"

definition analyzeSubPhraseMaterials :: "subPhrase list \<Rightarrow> subPhrase list" where
  "analyzeSubPhraseMaterials sps = fst (foldl materialStep ([], 0) sps)"

definition detectSubPhrases :: "idgen \<Rightarrow> nat \<Rightarrow> Note list \<Rightarrow> motive list \<Rightarrow> subPhrase list \<times> nat" where
  "detectSubPhrases gen c notes motives =
    (case foldl (subPhraseStep gen notes motives) ([], 0, c) (measureNumbersOf notes) of
       (sps, subPhraseIndex, c') \<Rightarrow> (analyzeSubPhraseMaterials sps, c'))"

section \<open>Mode detection\<close>

definition scaleTable :: "(string \<times> int list) list" where
  "scaleTable =
    [(''major'', [0, 2, 4, 5, 7, 9, 11]),
     (''natural_minor'', [0, 2, 3, 5, 7, 8, 10]),
     (''harmonic_minor'', [0, 2, 3, 5, 7, 8, 11]),
     (''ionian'', [0, 2, 4, 5, 7, 9, 11]),
     (''dorian'', [0, 2, 3, 5, 7, 9, 10]),
     (''phrygian'', [0, 1, 3, 5, 7, 8, 10]),
     (''lydian'', [0, 2, 4, 6, 7, 9, 11]),
     (''mixolydian'', [0, 2, 4, 5, 7, 9, 10]),
     (''aeolian'', [0, 2, 3, 5, 7, 8, 10]),
     (''locrian'', [0, 1, 3, 5, 6, 8, 10]),
     (''pentatonic_gong'', [0, 2, 4, 7, 9]),
     (''pentatonic_shang'', [0, 2, 5, 7, 10]),
     (''pentatonic_jue'', [0, 3, 5, 8, 10]),
     (''pentatonic_zhi'', [0, 2, 5, 7, 9]),
     (''pentatonic_yu'', [0, 3, 5, 7, 10])]"

text \<open>The pitch class of a note, when its name without digits is in the table.\<close>

definition pitchClassOf :: "Note \<Rightarrow> int option" where
  "pitchClassOf n =
    (case pitch n of
       None \<Rightarrow> None
     | Some s \<Rightarrow> if s = [] then None else map_of pitchClasses (filter (\<lambda>c. \<not> isDigit c) s))"

text \<open>
  \<^verbatim>\<open>countPitchClasses\<close>: an object whose keys are pitch classes, which JavaScript
  enumerates in ascending order; the weight of a note is \<^verbatim>\<open>duration || 1\<close>.
\<close>

definition countPitchClasses :: "Note list \<Rightarrow> (int \<times> real) list" where
  "countPitchClasses notes =
    map (\<lambda>pc. (pc, sum_list (map (\<lambda>n. if duration n = 0 then 1 else duration n)
                                (filter (\<lambda>n. pitchClassOf n = Some pc) notes))))
        (filter (\<lambda>pc. list_ex (\<lambda>n. pitchClassOf n = Some pc) notes) [0, 1, 2, 3, 4, 5, 6, 7, 8, 9, 10, 11])"

definition calculateModeScore :: "(int \<times> real) list \<Rightarrow> int list \<Rightarrow> real" where
  "calculateModeScore pitchCounts scale =
    (let totalWeight = sum_list (map snd pitchCounts);
         inScaleWeight = sum_list (map snd (filter (\<lambda>kv. fst kv \<in> set scale) pitchCounts))
     in if totalWeight = 0 then 0 else inScaleWeight / totalWeight)"

record modeAnalysis =
  maMode :: string
  maConfidence :: real
  maAlternativeMode :: "string option"
  maAlternativeConfidence :: "real option"
  maPitchClassDistribution :: "(int \<times> real) list option"
  maAllScores :: "(string \<times> real) list option"

definition detectMode :: "Note list \<Rightarrow> keySignature \<Rightarrow> modeAnalysis" where
  "detectMode notes ks =
    (if notes = [] then
       \<lparr>maMode = ''major'', maConfidence = 0.5, maAlternativeMode = None,
        maAlternativeConfidence = None, maPitchClassDistribution = None, maAllScores = None\<rparr>
     else
       (let tonicPc = (case map_of pitchClasses (getTonicFromKey ks) of None \<Rightarrow> 0 | Some pc \<Rightarrow> pc);
            relativeCounts =
              sort_key fst (map (\<lambda>kv. ((fst kv - tonicPc + 12) mod 12, snd kv)) (countPitchClasses notes));
            modeScores = map (\<lambda>ms. (fst ms, calculateModeScore relativeCounts (snd ms))) scaleTable;
            sortedModes = sort_key (\<lambda>ms. - snd ms) modeScores
        in \<lparr>maMode = fst (sortedModes ! 0), maConfidence = snd (sortedModes ! 0),
            maAlternativeMode = Some (fst (sortedModes ! 1)),
            maAlternativeConfidence = Some (snd (sortedModes ! 1)),
            maPitchClassDistribution = Some relativeCounts, maAllScores = Some modeScores\<rparr>))"

section \<open>Themes and auxiliary structures\<close>

record occurrence =
  ocPeriodIndex :: nat
  ocPeriodId :: uid
  ocStart :: int
  ocEnd :: int
  ocSimilarity :: real
  ocIsExact :: bool
  ocIsVariation :: bool

definition findThemeOccurrences :: "period \<Rightarrow> period list \<Rightarrow> occurrence list" where
  "findThemeOccurrences themePeriod allPeriods =
    map (\<lambda>i. \<lparr>ocPeriodIndex = i, ocPeriodId = perId (allPeriods ! i),
               ocStart = perStart (allPeriods ! i), ocEnd = perEnd (allPeriods ! i),
               ocSimilarity = calculatePeriodSimilarity (allPeriods ! i) themePeriod,
               ocIsExact = (calculatePeriodSimilarity (allPeriods ! i) themePeriod > 0.9),
               ocIsVariation = (calculatePeriodSimilarity (allPeriods ! i) themePeriod > 0.6
                                \<and> calculatePeriodSimilarity (allPeriods ! i) themePeriod \<le> 0.9)\<rparr>)
        (filter (\<lambda>i. calculatePeriodSimilarity (allPeriods ! i) themePeriod > 0.6)
                [0 ..< length allPeriods])"

record theme =
  thId :: uid
  thName :: string
  thType :: string
  thPeriods :: "period list"
  thStart :: int
  thEnd :: int
  thOccurrences :: "occurrence list"

text \<open>
  The first strategy of \<^verbatim>\<open>identifyThemes\<close>: a primary theme for every section whose
  function is exposition, main theme or theme.  Each such section of a detected form has
  at least one period.
\<close>

definition isThemeSection :: "formSection \<Rightarrow> bool" where
  "isThemeSection s =
    (secFunction s = ''exposition'' \<or> secFunction s = ''main_theme'' \<or> secFunction s = ''theme'')"

definition primaryThemes ::
  "idgen \<Rightarrow> nat \<Rightarrow> period list \<Rightarrow> formSection list \<Rightarrow> theme list \<times> nat" where
  "primaryThemes gen c periods secs =
    (map (\<lambda>k. let s = filter isThemeSection secs ! k
               in \<lparr>thId = gen (c + k),
                   thName = (if secName s = [] then ''Main Theme'' else secName s),
                   thType = ''primary'', thPeriods = secPeriods s,
                   thStart = perStart (hd (secPeriods s)), thEnd = perEnd (last (secPeriods s)),
                   thOccurrences = findThemeOccurrences (hd (secPeriods s)) periods\<rparr>)
         [0 ..< length (filter isThemeSection secs)],
     c + length (filter isThemeSection secs))"

text \<open>
  The loop for the secondary themes, on \<open>(themes, id counter)\<close>; \<open>mainPeriod\<close> is the
  first period of the first theme.
\<close>

definition secondaryThemeStep ::
  "idgen \<Rightarrow> period list \<Rightarrow> period \<Rightarrow> theme list \<times> nat \<Rightarrow> nat \<Rightarrow> theme list \<times> nat" where
  "secondaryThemeStep gen periods mainPeriod st i =
    (case st of (themes, c) \<Rightarrow>
      (let p = periods ! i
       in if calculatePeriodSimilarity p mainPeriod < 0.4 \<and> perClosure p = ''closed''
             \<and> \<not> list_ex (\<lambda>t. list_ex (\<lambda>q. perId q = perId p) (thPeriods t)) themes
          then
            (themes @
             [\<lparr>thId = gen c, thName = ''Secondary Theme '' @ showNat (length themes),
               thType = ''secondary'', thPeriods = [p], thStart = perStart p, thEnd = perEnd p,
               thOccurrences = findThemeOccurrences p periods\<rparr>],
             Suc c)
          else st))"

definition identifyThemes ::
  "idgen \<Rightarrow> nat \<Rightarrow> period list \<Rightarrow> formAnalysis \<Rightarrow> theme list \<times> nat" where
  "identifyThemes gen c periods fa =
    (if periods = [] then ([], c)
     else
       (let (themes1, c1) =
              (case faSections fa of None \<Rightarrow> ([], c) | Some secs \<Rightarrow> primaryThemes gen c periods secs);
            (themes2, c2) =
              (if themes1 = [] then
                 ([\<lparr>thId = gen c1, thName = ''Main Theme'', thType = ''primary'',
                    thPeriods = [hd periods], thStart = perStart (hd periods),
                    thEnd = perEnd (hd periods),
                    thOccurrences = findThemeOccurrences (hd periods) periods\<rparr>], Suc c1)
               else (themes1, c1))
        in if length periods > 1 then
             foldl (secondaryThemeStep gen periods (hd (thPeriods (hd themes2)))) (themes2, c2)
                   [1 ..< length periods]
           else (themes2, c2)))"

record auxiliary =
  auxId :: uid
  auxType :: string
  auxName :: string
  auxStart :: int
  auxEnd :: int
  auxLength :: int
  auxNotes :: "Note list"
  auxFunction :: string

definition detectIntroduction :: "idgen \<Rightarrow> nat \<Rightarrow> Note list \<Rightarrow> period \<Rightarrow> auxiliary option \<times> nat" where
  "detectIntroduction gen c notes firstPeriod =
    (if notes = [] then (None, c)
     else if perStart firstPeriod \<le> 1 then (None, c)
     else
       (let introNotes = filter (\<lambda>n. measureNumber n < perStart firstPeriod) notes;
            introMeasures = sort (remdups (map measureNumber introNotes))
        in if introNotes = [] then (None, c)
           else (Some \<lparr>auxId = gen c, auxType = ''introduction'', auxName = ''Introduction'',
                       auxStart = hd introMeasures, auxEnd = last introMeasures,
                       auxLength = int (length introMeasures), auxNotes = introNotes,
                       auxFunction = ''preparation''\<rparr>,
                 Suc c)))"

definition detectCoda :: "idgen \<Rightarrow> nat \<Rightarrow> Note list \<Rightarrow> period \<Rightarrow> auxiliary option \<times> nat" where
  "detectCoda gen c notes lastPeriod =
    (if notes = [] then (None, c)
     else if last (measureNumbersOf notes) \<le> perEnd lastPeriod then (None, c)
     else
       (let codaNotes = filter (\<lambda>n. measureNumber n > perEnd lastPeriod) notes;
            codaMeasures = sort (remdups (map measureNumber codaNotes));
            isCoda = (length codaMeasures > 4)
        in if codaNotes = [] then (None, c)
           else (Some \<lparr>auxId = gen c, auxType = (if isCoda then ''coda'' else ''codetta''),
                       auxName = (if isCoda then ''Coda'' else ''Codetta''),
                       auxStart = hd codaMeasures, auxEnd = last codaMeasures,
                       auxLength = int (length codaMeasures), auxNotes = codaNotes,
                       auxFunction = ''conclusion''\<rparr>,
                 Suc c)))"

record transition =
  trId :: uid
  trName :: string
  trStart :: int
  trEnd :: int
  trLength :: int
  trFromSection :: uid
  trToSection :: uid

text \<open>The loop of \<^verbatim>\<open>detectTransitions\<close> over adjacent periods; \<open>i\<close> is the index of the first.\<close>

fun transitionsFrom :: "idgen \<Rightarrow> nat \<Rightarrow> nat \<Rightarrow> period list \<Rightarrow> transition list \<times> nat" where
  "transitionsFrom gen c i (cur # nxt # rest) =
    (if perStart nxt - perEnd cur - 1 > 0 then
       (let (ts, c') = transitionsFrom gen (Suc c) (i + 1) (nxt # rest)
        in (\<lparr>trId = gen c, trName = ''Transition '' @ showNat (i + 1), trStart = perEnd cur + 1,
              trEnd = perStart nxt - 1, trLength = perStart nxt - perEnd cur - 1,
              trFromSection = perId cur, trToSection = perId nxt\<rparr> # ts, c'))
     else transitionsFrom gen c (i + 1) (nxt # rest))"
| "transitionsFrom gen c i _ = ([], c)"

definition detectTransitions :: "idgen \<Rightarrow> nat \<Rightarrow> period list \<Rightarrow> transition list \<times> nat" where
  "detectTransitions gen c periods = transitionsFrom gen c 0 periods"

record extension =
  extId :: uid
  extPhraseId :: uid
  extEstimatedLength :: int

text \<open>\<^verbatim>\<open>detectExtensions\<close>: a phrase longer than 1.5 times the typical length of 4.\<close>

definition detectExtensions :: "idgen \<Rightarrow> nat \<Rightarrow> phrase list \<Rightarrow> extension list \<times> nat" where
  "detectExtensions gen c phrases =
    (map (\<lambda>k. let p = filter (\<lambda>p. real_of_int (phLength p) > 4 * 1.5) phrases ! k
               in \<lparr>extId = gen (c + k), extPhraseId = phId p, extEstimatedLength = phLength p - 4\<rparr>)
         [0 ..< length (filter (\<lambda>p. real_of_int (phLength p) > 4 * 1.5) phrases)],
     c + length (filter (\<lambda>p. real_of_int (phLength p) > 4 * 1.5) phrases))"

section \<open>The complete analysis\<close>

text \<open>
  \<^verbatim>\<open>obj[key] = value\<close> on an object keyed by ids (UUID strings, which JavaScript
  enumerates in insertion order): a key that is present keeps its place.
\<close>

fun objSet :: "'k \<Rightarrow> 'v \<Rightarrow> ('k \<times> 'v) list \<Rightarrow> ('k \<times> 'v) list" where
  "objSet k v [] = [(k, v)]"
| "objSet k v ((k', v') # rest) = (if k' = k then (k, v) # rest else (k', v') # objSet k v rest)"

definition mapMotivesToSubPhrases :: "motive list \<Rightarrow> subPhrase list \<Rightarrow> (uid \<times> uid list) list" where
  "mapMotivesToSubPhrases motives sps =
    foldl (\<lambda>mapping sp.
             objSet (spId sp)
               (map motId (filter (\<lambda>m. motMeasure m \<ge> spStart sp \<and> motMeasure m \<le> spEnd sp) motives))
               mapping)
          [] sps"

definition mapSubPhrasesToPhrases :: "subPhrase list \<Rightarrow> phrase list \<Rightarrow> (uid \<times> uid list) list" where
  "mapSubPhrasesToPhrases sps phrases =
    foldl (\<lambda>mapping p.
             objSet (phId p)
               (map spId (filter (\<lambda>sp. spStart sp \<ge> phStart p \<and> spEnd sp \<le> phEnd p) sps))
               mapping)
          [] phrases"

definition mapPhrasesToPeriods :: "period list \<Rightarrow> (uid \<times> uid list) list" where
  "mapPhrasesToPeriods periods =
    foldl (\<lambda>mapping p. objSet (perId p) (map phId (perPhrases p)) mapping) [] periods"

definition mapPeriodsToSections :: "formSection list \<Rightarrow> (uid \<times> uid list) list" where
  "mapPeriodsToSections secs =
    foldl (\<lambda>mapping s. objSet (secId s) (map perId (secPeriods s)) mapping) [] secs"

record hierarchy =
  level1_motives :: nat
  level2_subPhrases :: nat
  level3_phrases :: nat
  level4_periods :: nat
  level5_sections :: nat
  motiveToSubPhrase :: "(uid \<times> uid list) list"
  subPhraseToPhrase :: "(uid \<times> uid list) list"
  phraseToPeriod :: "(uid \<times> uid list) list"
  periodToSection :: "(uid \<times> uid list) list"

text \<open>\<^verbatim>\<open>RuleEngine.buildHierarchy\<close>: the level counts and the id mappings.\<close>

definition buildLevels ::
  "motive list \<Rightarrow> subPhrase list \<Rightarrow> phrase list \<Rightarrow> period list \<Rightarrow> formAnalysis \<Rightarrow> hierarchy" where
  "buildLevels motives sps phrases periods fa =
    (let secs = (case faSections fa of None \<Rightarrow> [] | Some s \<Rightarrow> s)
     in \<lparr>level1_motives = length motives, level2_subPhrases = length sps,
         level3_phrases = length phrases, level4_periods = length periods,
         level5_sections = length secs,
         motiveToSubPhrase = mapMotivesToSubPhrases motives sps,
         subPhraseToPhrase = mapSubPhrasesToPhrases sps phrases,
         phraseToPeriod = mapPhrasesToPeriods periods,
         periodToSection = mapPeriodsToSections secs\<rparr>)"

record statistics =
  totalNotes :: nat
  totalMeasures :: nat
  totalMotives :: nat
  totalSubPhrases :: nat
  totalPhrases :: nat
  totalPeriods :: nat
  totalCadences :: nat
  averagePhraseLengthMeasures :: real
  averagePeriodLengthMeasures :: real
  cadenceDistribution :: "(string \<times> nat) list"
  materialDiversity :: real

definition calculateMaterialDiversity :: "phrase list \<Rightarrow> real" where
  "calculateMaterialDiversity phrases =
    (if phrases = [] then 0
     else real (length (remdups (map (\<lambda>p. take 1 (phMaterial p)) phrases))) / real (length phrases))"

definition calculateStatistics ::
  "Note list \<Rightarrow> motive list \<Rightarrow> subPhrase list \<Rightarrow> phrase list \<Rightarrow> period list \<Rightarrow> cadence list
   \<Rightarrow> statistics" where
  "calculateStatistics notes motives sps phrases periods cadences =
    \<lparr>totalNotes = length notes, totalMeasures = length (measureNumbersOf notes),
     totalMotives = length motives, totalSubPhrases = length sps, totalPhrases = length phrases,
     totalPeriods = length periods, totalCadences = length cadences,
     averagePhraseLengthMeasures =
       (if phrases = [] then 0
        else real_of_int (sum_list (map phLength phrases)) / real (length phrases)),
     averagePeriodLengthMeasures =
       (if periods = [] then 0
        else real_of_int (sum_list (map perLength periods)) / real (length periods)),
     cadenceDistribution = foldl (\<lambda>d cad. bumpCount (cadType cad) d) [] cadences,
     materialDiversity = calculateMaterialDiversity phrases\<rparr>"

record analysisOptions =
  aoKeySignature :: "keySignature option"
  aoTimeSignature :: "timeSignature option"

definition keyOrDefault :: "analysisOptions \<Rightarrow> keySignature" where
  "keyOrDefault opts =
    (case aoKeySignature opts of None \<Rightarrow> \<lparr>fifths = 0, mode = ''major''\<rparr> | Some ks \<Rightarrow> ks)"

definition timeOrDefault :: "analysisOptions \<Rightarrow> timeSignature" where
  "timeOrDefault opts =
    (case aoTimeSignature opts of None \<Rightarrow> \<lparr>beats = 4, beatType = 4\<rparr> | Some ts \<Rightarrow> ts)"

text \<open>
  The result of \<^verbatim>\<open>analyzeComplete\<close> and \<^verbatim>\<open>analyzeCompleteChunked\<close>.  The chunked
  run adds \<^verbatim>\<open>processingInfo\<close> (the numbers of notes and measures) and a tooltip map,
  which is left out here: it is computed from the other entries, creates no id, and is read
  by no function of the analysis.
\<close>

record fullAnalysis =
  fKeySignature :: keySignature
  fTimeSignature :: timeSignature
  fModeAnalysis :: modeAnalysis
  fHierarchy :: hierarchy
  fMotives :: "motive list"
  fSubPhrases :: "subPhrase list"
  fPhrases :: "phrase list"
  fPeriods :: "period list"
  fCompoundPeriods :: "compoundPeriod list"
  fCadences :: "cadence list"
  fForm :: formAnalysis
  fThemes :: "theme list"
  fIntroduction :: "auxiliary option"
  fCoda :: "auxiliary option"
  fTransitions :: "transition list"
  fExtensions :: "extension list"
  fStatistics :: statistics
  fProcessingInfo :: "(nat \<times> nat) option"

text \<open>\<^verbatim>\<open>Object.assign(formAnalysis, popFormAnalysis)\<close>: the entries the popular form sets.\<close>

definition assignForm :: "formAnalysis \<Rightarrow> formAnalysis \<Rightarrow> formAnalysis" where
  "assignForm fa pop =
    fa\<lparr>faFormType := faFormType pop,
       faSections := (case faSections pop of None \<Rightarrow> faSections fa | Some s \<Rightarrow> Some s),
       faConfidence := faConfidence pop\<rparr>"

text \<open>
  Steps 4 to 12 of \<^verbatim>\<open>analyzeComplete\<close>, which \<^verbatim>\<open>analyzeCompleteChunked\<close> repeats
  word for word: everything after the motives and sub-phrases.
\<close>

definition analyzeFrom ::
  "idgen \<Rightarrow> nat \<Rightarrow> Note list \<Rightarrow> keySignature \<Rightarrow> timeSignature \<Rightarrow> modeAnalysis \<Rightarrow> motive list
   \<Rightarrow> subPhrase list \<Rightarrow> (nat \<times> nat) option \<Rightarrow> fullAnalysis \<times> nat" where
  "analyzeFrom gen c notes ks ts modeAn motives sps info =
    (let (cadences, c1) = detectCadences gen c notes ks;
         (phrases, c2) = detectPhrases gen c1 notes cadences sps;
         (periods, c3) = detectPeriods gen c2 phrases;
         (compoundPeriods, c4) = detectCompoundPeriods gen c3 periods;
         (formAnalysis0, c5) = detectForm gen c4 periods;
         (popFormAnalysis, c6) = detectPopularMusicForm gen c5 periods;
         formAn = (if faConfidence popFormAnalysis > faConfidence formAnalysis0
                   then assignForm formAnalysis0 popFormAnalysis else formAnalysis0);
         (themes, c7) = identifyThemes gen c6 periods formAn;
         (introduction, c8) =
           (if periods \<noteq> [] then detectIntroduction gen c7 notes (hd periods) else (None, c7));
         (coda, c9) =
           (if periods \<noteq> [] then detectCoda gen c8 notes (last periods) else (None, c8));
         (transitions, c10) = detectTransitions gen c9 periods;
         (extensions, c11) = detectExtensions gen c10 phrases
     in (\<lparr>fKeySignature = ks, fTimeSignature = ts, fModeAnalysis = modeAn,
          fHierarchy = buildLevels motives sps phrases periods formAn,
          fMotives = motives, fSubPhrases = sps, fPhrases = phrases, fPeriods = periods,
          fCompoundPeriods = compoundPeriods, fCadences = cadences, fForm = formAn,
          fThemes = themes, fIntroduction = introduction, fCoda = coda,
          fTransitions = transitions, fExtensions = extensions,
          fStatistics = calculateStatistics notes motives sps phrases periods cadences,
          fProcessingInfo = info\<rparr>,
         c11))"

definition analyzeComplete :: "idgen \<Rightarrow> nat \<Rightarrow> Note list \<Rightarrow> analysisOptions \<Rightarrow> fullAnalysis \<times> nat" where
  "analyzeComplete gen c notes opts =
    (let ks = keyOrDefault opts;
         ts = timeOrDefault opts;
         modeAn = detectMode notes ks;
         (motives, c1) = detectMotives gen c notes ts;
         (sps, c2) = detectSubPhrases gen c1 notes motives
     in analyzeFrom gen c2 notes ks ts modeAn motives sps None)"

section \<open>Chunked processing\<close>

text \<open>The chunk configuration the constructor sets.\<close>

definition maxNotesPerChunk :: nat where "maxNotesPerChunk = 500"
definition maxMeasuresPerChunk :: nat where "maxMeasuresPerChunk = 32"
definition overlapMeasures :: nat where "overlapMeasures = 4"

text \<open>
  The values of \<open>i\<close> in \<^verbatim>\<open>for (i = 0; i < n; i += maxMeasures - overlap)\<close>.  Both callers
  leave \<^verbatim>\<open>options\<close> out, so \<^verbatim>\<open>maxMeasures\<close> is the configured 32 and the stride 28.
\<close>

definition chunkStarts :: "nat \<Rightarrow> nat list" where
  "chunkStarts n = filter (\<lambda>i. i mod (maxMeasuresPerChunk - overlapMeasures) = 0) [0 ..< n]"

text \<open>
  The body of the chunk loop on \<open>(results, id counter)\<close>.  \<open>processor\<close> runs a detector
  on the notes of the chunk from a given id counter; \<open>pos\<close> reads
  \<^verbatim>\<open>r.startMeasure || r.measureNumber || 0\<close> from an item.
\<close>

definition chunkStep ::
  "Note list \<Rightarrow> (nat \<Rightarrow> Note list \<Rightarrow> 'a list \<times> nat) \<Rightarrow> ('a \<Rightarrow> int) \<Rightarrow> 'a list \<times> nat \<Rightarrow> nat
   \<Rightarrow> 'a list \<times> nat" where
  "chunkStep notes processor pos st i =
    (case st of (results, c) \<Rightarrow>
      (let measureNumbers = measureNumbersOf notes;
           chunkStart = measureNumbers ! i;
           chunkEndIndex = min (i + maxMeasuresPerChunk) (length measureNumbers) - 1;
           chunkEnd = measureNumbers ! chunkEndIndex;
           chunkNotes = filter (\<lambda>n. measureNumber n \<ge> chunkStart \<and> measureNumber n \<le> chunkEnd) notes;
           (chunkResults, c') = processor c chunkNotes
       in if results = [] then (chunkResults, c')
          else (results @
                filter (\<lambda>r. real_of_int (pos r) \<ge> real_of_int chunkStart + real overlapMeasures / 2)
                       chunkResults,
                c')))"

definition processInChunks ::
  "Note list \<Rightarrow> (nat \<Rightarrow> Note list \<Rightarrow> 'a list \<times> nat) \<Rightarrow> ('a \<Rightarrow> int) \<Rightarrow> nat \<Rightarrow> 'a list \<times> nat" where
  "processInChunks notes processor pos c =
    (if length (measureNumbersOf notes) \<le> maxMeasuresPerChunk then processor c notes
     else foldl (chunkStep notes processor pos) ([], c) (chunkStarts (length (measureNumbersOf notes))))"

definition analyzeCompleteChunked ::
  "idgen \<Rightarrow> nat \<Rightarrow> Note list \<Rightarrow> analysisOptions \<Rightarrow> fullAnalysis \<times> nat" where
  "analyzeCompleteChunked gen c notes opts =
    (if length notes < maxNotesPerChunk * 2
        \<and> length (measureNumbersOf notes) < maxMeasuresPerChunk * 2
     then analyzeComplete gen c notes opts
     else
       (let ks = keyOrDefault opts;
            ts = timeOrDefault opts;
            modeAn = detectMode (take 500 notes) ks;
            (motives, c1) =
              processInChunks notes (\<lambda>c chunkNotes. detectMotives gen c chunkNotes ts) motMeasure c;
            (sps, c2) =
              processInChunks notes
                (\<lambda>c chunkNotes.
                   detectSubPhrases gen c chunkNotes
                     (filter (\<lambda>m. list_ex (\<lambda>n. measureNumber n = motMeasure m) chunkNotes) motives))
                spStart c1
        in analyzeFrom gen c2 notes ks ts modeAn motives sps
             (Some (length notes, length (measureNumbersOf notes)))))"

section \<open>The structure tree (StructureAnalyzer)\<close>

record measure =
  mNumber :: int
  mNotes :: "Note list"
  mStartBeat :: real
  mEndBeat :: real

record parsedScore =
  psMeasures :: "measure list"
  psNotes :: "Note list"
  psKeySignature :: "keySignature option"
  psTimeSignature :: "timeSignature option"
  psTempo :: "real option"

definition getConfidenceVisualStyle :: "real \<Rightarrow> visualStyle" where
  "getConfidenceVisualStyle conf =
    (if conf \<ge> 0.8 then \<lparr>lineStyle = ''solid'', opacity = 1.0, borderWidth = 2, uncertaintyLevel = ''low''\<rparr>
     else if conf \<ge> 0.6 then
       \<lparr>lineStyle = ''solid'', opacity = 0.85, borderWidth = 2, uncertaintyLevel = ''medium''\<rparr>
     else if conf \<ge> 0.4 then
       \<lparr>lineStyle = ''dashed'', opacity = 0.7, borderWidth = 1, uncertaintyLevel = ''high''\<rparr>
     else \<lparr>lineStyle = ''dotted'', opacity = 0.5, borderWidth = 1, uncertaintyLevel = ''very_high''\<rparr>)"

text \<open>
  \<^verbatim>\<open>addMotives\<close>: the loop \<^verbatim>\<open>for (m = startMeasure; m <= endMeasure; m += motiveSize)\<close>;
  \<open>wide\<close> says that the motive size is 2 rather than 1.
\<close>

function motiveNodes :: "idgen \<Rightarrow> nat \<Rightarrow> int \<Rightarrow> int \<Rightarrow> bool \<Rightarrow> nat \<Rightarrow> structNode list" where
  "motiveNodes gen c m endM wide motiveIndex =
    (if m \<le> endM then
       StructNode (gen c) ''motive'' m (min (m + (if wide then 2 else 1) - 1) endM) []
         (''m'' @ showNat (motiveIndex + 1)) 0.6 noFeatures None
       # motiveNodes gen (Suc c) (m + (if wide then 2 else 1)) endM wide (motiveIndex + 1)
     else [])"
  by pat_completeness auto
termination
  by (relation "measure (\<lambda>(gen, c, m, endM, wide, motiveIndex). nat (endM - m + 1))") auto

declare motiveNodes.simps [simp del]

definition addMotives :: "idgen \<Rightarrow> nat \<Rightarrow> int \<Rightarrow> int \<Rightarrow> structNode list" where
  "addMotives gen c startM endM = motiveNodes gen c startM endM (\<not> endM - startM + 1 \<le> 2) 0"

text \<open>The subscript digits of the sub-phrase labels, U+2081 and U+2082, as UTF-8 bytes.\<close>

definition subscriptOne :: string where
  "subscriptOne = [CHR 0xE2, CHR 0x82, CHR 0x81]"

definition subscriptTwo :: string where
  "subscriptTwo = [CHR 0xE2, CHR 0x82, CHR 0x82]"

text \<open>
  The node of a phrase with its sub-phrase and motive nodes, and the id counter after it.
  The two sub-phrase nodes take their ids before the motives of the first.
\<close>

definition phraseNode :: "idgen \<Rightarrow> nat \<Rightarrow> phrase \<Rightarrow> structNode \<times> nat" where
  "phraseNode gen c p =
    (let phraseMeasures = phEnd p - phStart p + 1;
         ft = noFeatures\<lparr>nfCadence := phCadence p\<rparr>;
         conf = (if phCadence p \<noteq> None then 0.8 else 0.6)
     in if phraseMeasures \<ge> 4 then
          (let midPoint = phStart p + phraseMeasures div 2 - 1;
               motives1 = addMotives gen (c + 2) (phStart p) midPoint;
               motives2 = addMotives gen (c + 2 + length motives1) (midPoint + 1) (phEnd p);
               subphrase1 = StructNode (gen c) ''subphrase'' (phStart p) midPoint motives1
                              (phMaterial p @ subscriptOne) 0.65 noFeatures None;
               subphrase2 = StructNode (gen (Suc c)) ''subphrase'' (midPoint + 1) (phEnd p) motives2
                              (phMaterial p @ subscriptTwo) 0.65 noFeatures None
           in (StructNode (phId p) ''phrase'' (phStart p) (phEnd p) [subphrase1, subphrase2]
                 (phMaterial p) conf ft None,
               c + 2 + length motives1 + length motives2))
        else
          (let motives = addMotives gen c (phStart p) (phEnd p)
           in (StructNode (phId p) ''phrase'' (phStart p) (phEnd p) motives (phMaterial p) conf ft None,
               c + length motives)))"

text \<open>The nodes of the phrases of a period, left to right.\<close>

fun phraseNodes :: "idgen \<Rightarrow> nat \<Rightarrow> phrase list \<Rightarrow> structNode list \<times> nat" where
  "phraseNodes gen c [] = ([], c)"
| "phraseNodes gen c (p # ps) =
    (let (n, c1) = phraseNode gen c p;
         (ns, c2) = phraseNodes gen c1 ps
     in (n # ns, c2))"

definition periodNode :: "idgen \<Rightarrow> nat \<Rightarrow> period \<Rightarrow> structNode \<times> nat" where
  "periodNode gen c p =
    (let (phraseNs, c') = phraseNodes gen c (perPhrases p)
     in (StructNode (perId p) ''period''
           (case perPhrases p of [] \<Rightarrow> 0 | ph # _ \<Rightarrow> phStart ph)
           (case perPhrases p of [] \<Rightarrow> 0 | _ # _ \<Rightarrow> phEnd (last (perPhrases p)))
           phraseNs
           (if perType p = ''parallel'' then ''a+a'' @ [CHR 0x27] else ''a+b'') 0.75
           (noFeatures\<lparr>nfPeriodType := Some (perType p), nfProportion := Some (proportion p),
                       nfClosure := Some (perClosure p)\<rparr>)
           None,
         c'))"

definition sectionNode :: "real \<Rightarrow> formSection \<Rightarrow> structNode" where
  "sectionNode conf s =
    StructNode (secId s) ''theme'' (secStart s) (secEnd s) [] (secName s) conf
      (noFeatures\<lparr>nfFunction := Some (secFunction s)\<rparr>) None"

definition addChild :: "structNode \<Rightarrow> structNode \<Rightarrow> structNode" where
  "addChild parent child =
    StructNode (nodeId parent) (nodeType parent) (startMeasure parent) (endMeasure parent)
      (children parent @ [child]) (material parent) (confidence parent) (features parent)
      (nodeStyle parent)"

text \<open>
  \<^verbatim>\<open>root.children.find(s => start >= s.startMeasure && end <= s.endMeasure) || root\<close>
  and the \<^verbatim>\<open>push\<close> into the parent found: the new list of children of the root.
\<close>

fun attach :: "structNode \<Rightarrow> structNode list \<Rightarrow> structNode list" where
  "attach n [] = [n]"
| "attach n (s # rest) =
    (if startMeasure n \<ge> startMeasure s \<and> endMeasure n \<le> endMeasure s then addChild s n # rest
     else s # attach n rest)"

text \<open>The body of \<^verbatim>\<open>periods.forEach\<close> on \<open>(children of the root, id counter)\<close>.\<close>

definition treeStep :: "idgen \<Rightarrow> structNode list \<times> nat \<Rightarrow> period \<Rightarrow> structNode list \<times> nat" where
  "treeStep gen st p =
    (case st of (rootChildren, c) \<Rightarrow>
      (let (n, c') = periodNode gen c p in (attach n rootChildren, c')))"

text \<open>
  \<^verbatim>\<open>buildTree\<close>.  The result is \<open>None\<close> where the source throws: a form analysis
  without \<^verbatim>\<open>sections\<close>.  The \<^verbatim>\<open>nodes\<close> map of the source indexes the same nodes by id.
\<close>

definition buildTree ::
  "idgen \<Rightarrow> nat \<Rightarrow> parsedScore \<Rightarrow> period list \<Rightarrow> formAnalysis \<Rightarrow> (structNode \<times> nat) option" where
  "buildTree gen c ps periods fa =
    (case faSections fa of
       None \<Rightarrow> None
     | Some secs \<Rightarrow>
        (case foldl (treeStep gen) (map (sectionNode (faConfidence fa)) secs, Suc c) periods of
           (rootChildren, c') \<Rightarrow>
             Some (StructNode (gen c) ''section'' 1 (int (length (psMeasures ps))) rootChildren ''A'' 0.8
                     (noFeatures\<lparr>nfFormType := Some (faFormType fa), nfTempo := psTempo ps,
                                 nfKeySignature := psKeySignature ps\<rparr>)
                     None,
                   c')))"

text \<open>
  \<^verbatim>\<open>assignConfidence\<close>: a node is rescored from its own confidence and the confidences
  its children have before they are rescored themselves.
\<close>

definition orHalf :: "real \<Rightarrow> real" where
  "orHalf x = (if x = 0 then 0.5 else x)"

fun assignConfidence :: "structNode \<Rightarrow> structNode" where
  "assignConfidence (StructNode i ty s e cs mat conf ft st) =
    (let base = (if cs = [] then orHalf conf
                 else (orHalf conf + sum_list (map (\<lambda>n. orHalf (confidence n)) cs) / real (length cs)) / 2);
         conf' = min 1 (max 0 (if nfCadence ft \<noteq> None then base + 0.1 else base))
     in StructNode i ty s e (map assignConfidence cs) mat conf' ft
          (Some (getConfidenceVisualStyle conf')))"

text \<open>
  The pitch table and pitch pattern \<^verbatim>\<open>([A-G][#b]?)(\d+)\<close> of the structure analyzer's own
  \<^verbatim>\<open>pitchToMidi\<close>.
\<close>

definition pitchClassesSA :: "(string \<times> int) list" where
  "pitchClassesSA =
    [(''C'', 0), (''C#'', 1), (''Db'', 1), (''D'', 2), (''D#'', 3), (''Eb'', 3),
     (''E'', 4), (''F'', 5), (''F#'', 6), (''Gb'', 6), (''G'', 7), (''G#'', 8),
     (''Ab'', 8), (''A'', 9), (''A#'', 10), (''Bb'', 10), (''B'', 11)]"

definition matchDigits :: "string \<Rightarrow> string option" where
  "matchDigits s = (if takeWhile isDigit s = [] then None else Some (takeWhile isDigit s))"

definition matchPitchHereSA :: "string \<Rightarrow> (string \<times> string) option" where
  "matchPitchHereSA s =
    (case s of
       [] \<Rightarrow> None
     | c # r \<Rightarrow>
        if c \<in> set ''ABCDEFG'' then
          (case r of
             [] \<Rightarrow> None
           | a # r' \<Rightarrow>
              (if a = CHR ''#'' \<or> a = CHR ''b'' then
                 (case matchDigits r' of
                    Some oct \<Rightarrow> Some ([c, a], oct)
                  | None \<Rightarrow> map_option (\<lambda>oct. ([c], oct)) (matchDigits r))
               else map_option (\<lambda>oct. ([c], oct)) (matchDigits r)))
        else None)"

fun matchPitchSA :: "string \<Rightarrow> (string \<times> string) option" where
  "matchPitchSA [] = None"
| "matchPitchSA (c # r) =
    (case matchPitchHereSA (c # r) of
       Some m \<Rightarrow> Some m
     | None \<Rightarrow> matchPitchSA r)"

definition pitchToMidiSA :: "string option \<Rightarrow> int" where
  "pitchToMidiSA p =
    (case p of
       None \<Rightarrow> 60
     | Some s \<Rightarrow>
        if s = [] then 60
        else (case matchPitchSA s of
                None \<Rightarrow> 60
              | Some (noteName, octave) \<Rightarrow>
                  (case map_of pitchClassesSA noteName of None \<Rightarrow> 0 | Some pc \<Rightarrow> pc)
                  + (parseInt octave + 1) * 12))"

text \<open>
  \<^verbatim>\<open>calculateMaterialHash\<close>: the first intervals, at most four.  The source joins them
  into a string and \<^verbatim>\<open>isSimilarHash\<close> parses it back; \<open>None\<close> stands for both falsy
  hashes, \<^verbatim>\<open>null\<close> (no note) and the empty string (one note).
\<close>

definition calculateMaterialHash :: "Note list \<Rightarrow> int list option" where
  "calculateMaterialHash notes =
    (if length notes < 2 then None
     else Some (map (\<lambda>i. pitchToMidiSA (pitch (notes ! i)) - pitchToMidiSA (pitch (notes ! (i - 1))))
                    [1 ..< min (length notes) 5]))"

definition isSimilarHash :: "int list \<Rightarrow> int list \<Rightarrow> bool" where
  "isSimilarHash h1 h2 =
    (if length h1 \<noteq> length h2 then False
     else real (length (filter (\<lambda>i. \<bar>h1 ! i - h2 ! i\<bar> \<le> 2) [0 ..< length h1])) / real (length h1) > 0.7)"

text \<open>The first registered hash similar to the hash of the node, in insertion order.\<close>

fun findSimilar :: "int list \<Rightarrow> (int list \<times> string) list \<Rightarrow> string option" where
  "findSimilar h [] = None"
| "findSimilar h ((h', label) # rest) = (if isSimilarHash h h' then Some label else findSimilar h rest)"

text \<open>
  \<^verbatim>\<open>labelMaterials\<close>: the traversal carries the map from hashes to labels through the
  node and then through its children from left to right.
\<close>

fun labelNode :: "Note list \<Rightarrow> (int list \<times> string) list \<Rightarrow> structNode
                  \<Rightarrow> structNode \<times> (int list \<times> string) list"
  and labelNodes :: "Note list \<Rightarrow> (int list \<times> string) list \<Rightarrow> structNode list
                  \<Rightarrow> structNode list \<times> (int list \<times> string) list" where
  "labelNode notes groups (StructNode i ty s e cs mat conf ft st) =
    (let h = calculateMaterialHash (filter (\<lambda>n. measureNumber n \<ge> s \<and> measureNumber n \<le> e) notes);
         found = (case h of None \<Rightarrow> None | Some hv \<Rightarrow> findSimilar hv groups);
         mat' = (case found of Some label \<Rightarrow> label @ [CHR 0x27] | None \<Rightarrow> mat);
         groups' = (case (found, h) of (None, Some hv) \<Rightarrow> objSet hv mat groups | _ \<Rightarrow> groups);
         (cs', groups'') = labelNodes notes groups' cs
     in (StructNode i ty s e cs' mat' conf ft st, groups''))"
| "labelNodes notes groups [] = ([], groups)"
| "labelNodes notes groups (n # ns) =
    (let (n', groups1) = labelNode notes groups n;
         (ns', groups2) = labelNodes notes groups1 ns
     in (n' # ns', groups2))"

text \<open>
  \<^verbatim>\<open>StructureAnalyzer.buildHierarchy\<close>: the analysis (chunked for a large score), the
  tree, the confidence pass and the material pass.  The last pass of the source stores a
  tooltip in every node and changes nothing else; it is left out.
\<close>

definition buildHierarchy :: "idgen \<Rightarrow> nat \<Rightarrow> parsedScore \<Rightarrow> (structNode \<times> nat) option" where
  "buildHierarchy gen c ps =
    (let opts = \<lparr>aoKeySignature = psKeySignature ps,
                 aoTimeSignature = Some (case psTimeSignature ps of
                                           None \<Rightarrow> \<lparr>beats = 4, beatType = 4\<rparr> | Some ts \<Rightarrow> ts)\<rparr>;
         (analysisResult, c1) =
           (if length (psNotes ps) > 1000 \<or> length (psMeasures ps) > 64
            then analyzeCompleteChunked gen c (psNotes ps) opts
            else analyzeComplete gen c (psNotes ps) opts)
     in case buildTree gen c1 ps (fPeriods analysisResult) (fForm analysisResult) of
          None \<Rightarrow> None
        | Some (tree, c2) \<Rightarrow>
            Some (fst (labelNode (psNotes ps) [] (assignConfidence tree)), c2))"

section \<open>Rounding margins for the variation probe\<close>





section \<open>Consistency of the structure tree\<close>

text \<open>
  The measure range of a node, and the three relations on ranges the consistency of a tree
  is stated with: a range lies inside another, the ranges of a list are pairwise
  non-overlapping, each range of a list begins one measure after the one before it ends.
\<close>

type_synonym range = "int \<times> int"

definition rangeOf :: "structNode \<Rightarrow> range" where
  "rangeOf n = (startMeasure n, endMeasure n)"

definition inside :: "range \<Rightarrow> range \<Rightarrow> bool" where
  "inside q r = (fst q \<le> fst r \<and> snd r \<le> snd q)"

definition nonOverlapping :: "range list \<Rightarrow> bool" where
  "nonOverlapping rs =
    (\<forall>i < length rs. \<forall>j < length rs. i < j \<longrightarrow> snd (rs ! i) < fst (rs ! j) \<or> snd (rs ! j) < fst (rs ! i))"

definition contiguous :: "range list \<Rightarrow> bool" where
  "contiguous rs = (\<forall>i < length rs - 1. fst (rs ! Suc i) = snd (rs ! i) + 1)"

text \<open>
  A consistent tree: in every node the start measure is at most the end measure, every
  child lies inside the node, the children are pairwise non-overlapping, and the children
  of a theme, a period, a phrase or a sub-phrase follow each other without a gap, in order.
  The children of the root are the theme nodes followed by the periods that no theme
  contains; they are not required to be in order.
\<close>

fun wellFormedNode :: "structNode \<Rightarrow> bool" where
  "wellFormedNode (StructNode i ty s e cs mat conf ft st) =
    (s \<le> e
     \<and> (\<forall>c \<in> set cs. inside (s, e) (rangeOf c) \<and> wellFormedNode c)
     \<and> nonOverlapping (map rangeOf cs)
     \<and> (ty \<in> {''theme'', ''period'', ''phrase'', ''subphrase''} \<longrightarrow> contiguous (map rangeOf cs)))"

text \<open>Two scores for the concrete runs: four measures with one note each, and no measure at all.\<close>

definition sampleScore :: parsedScore where
  "sampleScore =
    \<lparr>psMeasures = map (\<lambda>m. \<lparr>mNumber = m, mNotes = [sampleNote ''C4'' m], mStartBeat = 0, mEndBeat = 4\<rparr>)
                      [1, 2, 3, 4],
     psNotes = map (sampleNote ''C4'') [1, 2, 3, 4],
     psKeySignature = None, psTimeSignature = None, psTempo = None\<rparr>"

definition emptyScore :: parsedScore where
  "emptyScore =
    \<lparr>psMeasures = [], psNotes = [], psKeySignature = None, psTimeSignature = None, psTempo = None\<rparr>"

section \<open>Auxiliary notions for the proofs about the tree\<close>

text \<open>
  \<open>chainFrom a rs b\<close>: the ranges \<open>rs\<close> are non-empty, the first one starts at \<open>a\<close>, each
  starts one measure after the one before it ends, and the last one ends at \<open>b - 1\<close>.
\<close>

fun chainFrom :: "int \<Rightarrow> range list \<Rightarrow> int \<Rightarrow> bool" where
  "chainFrom a [] b = (a = b)"
| "chainFrom a (r # rs) b = (fst r = a \<and> fst r \<le> snd r \<and> chainFrom (snd r + 1) rs b)"

text \<open>The ranges of phrases, periods and sections, and the invariant of the phrase loop.\<close>

definition phraseRanges :: "phrase list \<Rightarrow> range list" where
  "phraseRanges ps = map (\<lambda>p. (phStart p, phEnd p)) ps"

definition chainInv :: "int \<Rightarrow> int \<Rightarrow> phraseState \<Rightarrow> bool" where
  "chainInv m0 M st = (case st of (phraseStart, phraseIndex, phrases, c) \<Rightarrow>
     chainFrom m0 (phraseRanges phrases) phraseStart \<and> phraseStart \<le> M + 1)"

definition periodRanges :: "period list \<Rightarrow> range list" where
  "periodRanges ps = map (\<lambda>p. (perStart p, perEnd p)) ps"

definition secRanges :: "formSection list \<Rightarrow> range list" where
  "secRanges secs = map (\<lambda>s. (secStart s, secEnd s)) secs"

text \<open>
  A period spans its phrases, which form a chain; the invariant of the period loop says that
  the periods made so far hold the phrases before \<open>periodStart\<close>, in order.
\<close>

definition periodOk :: "period \<Rightarrow> bool" where
  "periodOk p = (perPhrases p \<noteq> [] \<and> perStart p = phStart (hd (perPhrases p))
      \<and> perEnd p = phEnd (last (perPhrases p)))"

definition periodChain :: "period \<Rightarrow> bool" where
  "periodChain p = chainFrom (perStart p) (phraseRanges (perPhrases p)) (perEnd p + 1)"

definition periodInv :: "phrase list \<Rightarrow> nat \<Rightarrow> periodState \<Rightarrow> bool" where
  "periodInv phrases k st = (case st of (periodStart, periodIndex, periods, c) \<Rightarrow>
     periodStart \<le> k \<and> (k = length phrases \<longrightarrow> periodStart = k)
     \<and> concat (map perPhrases periods) = take periodStart phrases
     \<and> (\<forall>p \<in> set periods. periodOk p))"

text \<open>
  A span \<open>(i, j)\<close> stands for the periods \<open>i\<close> to \<open>j\<close> of the period list.  The sections of
  every form are spans, pairwise disjoint.
\<close>

definition spanRange :: "range list \<Rightarrow> nat \<times> nat \<Rightarrow> range" where
  "spanRange prs sp = (fst (prs ! fst sp), snd (prs ! snd sp))"

definition spansOk :: "nat \<Rightarrow> (nat \<times> nat) list \<Rightarrow> bool" where
  "spansOk n sp =
    ((\<forall>k < length sp. fst (sp ! k) \<le> snd (sp ! k) \<and> snd (sp ! k) < n)
     \<and> (\<forall>k < length sp. \<forall>l < length sp. k \<noteq> l \<longrightarrow>
           snd (sp ! k) < fst (sp ! l) \<or> snd (sp ! l) < fst (sp ! k)))"

definition sectionsSpan :: "period list \<Rightarrow> formSection list \<Rightarrow> bool" where
  "sectionsSpan periods secs =
    (\<exists>sp. spansOk (length periods) sp \<and> secRanges secs = map (spanRange (periodRanges periods)) sp)"

definition inSpan :: "nat \<times> nat \<Rightarrow> nat \<Rightarrow> bool" where
  "inSpan s m = (fst s \<le> m \<and> m \<le> snd s)"

definition spanDisjoint :: "nat \<times> nat \<Rightarrow> nat \<times> nat \<Rightarrow> bool" where
  "spanDisjoint s q = (snd s < fst q \<or> snd q < fst s)"

definition rangeDisjoint :: "range \<Rightarrow> range \<Rightarrow> bool" where
  "rangeDisjoint r q = (snd r < fst q \<or> snd q < fst r)"

text \<open>
  The invariant of \<^verbatim>\<open>periods.forEach\<close> in \<^verbatim>\<open>buildTree\<close> after \<open>k\<close> periods: the
  first children of the root are the theme nodes, each holding the periods of its span
  seen so far, and the other children are the periods seen so far that lie in no span.
\<close>

definition leftover :: "(nat \<times> nat) list \<Rightarrow> nat \<Rightarrow> nat list" where
  "leftover sp k = filter (\<lambda>m. \<forall>s \<in> set sp. \<not> inSpan s m) [0 ..< k]"

definition encloses :: "structNode \<Rightarrow> structNode \<Rightarrow> bool" where
  "encloses s n = (startMeasure n \<ge> startMeasure s \<and> endMeasure n \<le> endMeasure s)"

definition treeInv :: "range list \<Rightarrow> (nat \<times> nat) list \<Rightarrow> nat \<Rightarrow> structNode list \<Rightarrow> bool" where
  "treeInv prs sp k rc =
    (length sp \<le> length rc
     \<and> (\<forall>t < length sp.
           rangeOf (rc ! t) = spanRange prs (sp ! t) \<and> nodeType (rc ! t) = ''theme''
           \<and> (\<forall>c \<in> set (children (rc ! t)). wellFormedNode c)
           \<and> map rangeOf (children (rc ! t)) = map (nth prs) [fst (sp ! t) ..< min (snd (sp ! t) + 1) k])
     \<and> map rangeOf (drop (length sp) rc) = map (nth prs) (leftover sp k)
     \<and> (\<forall>x \<in> set (drop (length sp) rc). wellFormedNode x))"

text \<open>What the tree builder needs from the analysis of a score of \<open>L\<close> measures.\<close>

definition analysisOk :: "int \<Rightarrow> period list \<Rightarrow> formAnalysis \<Rightarrow> bool" where
  "analysisOk L periods fa =
    ((\<exists>a b. chainFrom a (periodRanges periods) b \<and> 1 \<le> a \<and> b \<le> L + 1)
     \<and> (\<forall>p \<in> set periods. periodOk p \<and> periodChain p)
     \<and> (\<exists>secs. faSections fa = Some secs \<and> sectionsSpan periods secs))"

section \<open>Verified properties\<close>

lemmas CadenceTypes_defs =
  PERFECT_AUTHENTIC_def IMPERFECT_AUTHENTIC_def HALF_def DECEPTIVE_def PLAGAL_def PHRYGIAN_def

subsection \<open>Cadence classification\<close>

lemma classifyCadence_iv_V:
  "classifyCadence i 3 4 melodyDegree m md = Some (mkCadence i m HALF ''weak'' 0.8)"
  by (simp add: classifyCadence_def)

text \<open>
  C5.  In A minor (no accidentals, mode minor), a bass on D (degree 3, iv) in measure 1
  followed by a bass on E (degree 4, V) in measure 2 is the progression the claim calls a
  Phrygian cadence with confidence 0.7.  The detector returns one cadence at measure 2 of
  type half with confidence 0.8: the test \<open>currDegree = 4\<close> of the half cadence comes
  before the Phrygian test, which no input reaches.
\<close>

theorem C5_iv_V_in_minor_is_classified_half:
  "getScaleDegree (Some ''D4'') (getTonicFromKey \<lparr>fifths = 0, mode = ''minor''\<rparr>) = 3
   \<and> getScaleDegree (Some ''E4'') (getTonicFromKey \<lparr>fifths = 0, mode = ''minor''\<rparr>) = 4
   \<and> fst (detectCadences gen 0
        [\<lparr>pitch = Some ''D4'', duration = 4, measureNumber = 1, beat = 0, isRest = False\<rparr>,
         \<lparr>pitch = Some ''E4'', duration = 4, measureNumber = 2, beat = 0, isRest = False\<rparr>]
        \<lparr>fifths = 0, mode = ''minor''\<rparr>)
      = [\<lparr>cadenceId = gen 0, cadMeasure = 2, cadBeat = 0, cadType = ''half'',
          strength = ''weak'', cadConfidence = 0.8\<rparr>]"
  by (simp add: detectCadences_def measureNumbersOf_def measureKey_def cadenceAt_def
      measureGroup_def getLowestNote_def getHighestNote_def getTonicFromKey_def modeOrMajor_def
      majorKeys_def pitchClasses_def getScaleDegree_def isDigit_def degreeMap_def
      classifyCadence_def mkCadence_def HALF_def)

subsection \<open>Phrase detection\<close>

lemma phraseCore_relabelPhrase: "phraseCore (relabelPhrase prev cur) = phraseCore cur"
  by (simp add: relabelPhrase_def phraseCore_def Let_def)

lemma phraseCore_relabelFrom: "map phraseCore (relabelFrom prev ps) = map phraseCore ps"
  by (induction ps arbitrary: prev) (simp_all add: phraseCore_relabelPhrase)

lemma phraseCore_analyzePhraseMaterials:
  "map phraseCore (analyzePhraseMaterials ps) = map phraseCore ps"
  by (cases ps) (simp_all add: phraseCore_relabelFrom)

lemma phrasesOk_cong:
  assumes "map phraseCore ps = map phraseCore qs" and "phrasesOk qs"
  shows "phrasesOk ps"
proof -
  have len: "length ps = length qs" using assms(1) by (metis length_map)
  have core: "phraseCore (ps ! i) = phraseCore (qs ! i)" if "i < length qs" for i
    using assms(1) that len by (metis nth_map)
  show ?thesis
    unfolding phrasesOk_def
  proof (intro allI impI)
    fix i assume i: "i < length ps"
    then have iq: "i < length qs" and i1: "i - 1 < length qs" using len by auto
    from core[OF iq] core[OF i1] assms(2) iq
    show "phraseOk (ps ! i) \<and>
         (phCadence (ps ! i) \<noteq> None \<and> (i = 0 \<or> phCadence (ps ! (i - 1)) \<noteq> None) \<longrightarrow>
          phLength (ps ! i) \<le> 12)"
      unfolding phrasesOk_def phraseOk_def phraseCore_def by (auto simp: )
  qed
qed

lemma phrasesOk_snoc:
  assumes "phrasesOk ps" and "phraseOk p"
    and "phCadence p \<noteq> None \<Longrightarrow> ps = [] \<or> phCadence (last ps) \<noteq> None \<Longrightarrow> phLength p \<le> 12"
  shows "phrasesOk (ps @ [p])"
  unfolding phrasesOk_def
proof (intro allI impI)
  fix i assume i: "i < length (ps @ [p])"
  show "phraseOk ((ps @ [p]) ! i) \<and>
         (phCadence ((ps @ [p]) ! i) \<noteq> None \<and> (i = 0 \<or> phCadence ((ps @ [p]) ! (i - 1)) \<noteq> None) \<longrightarrow>
          phLength ((ps @ [p]) ! i) \<le> 12)"
  proof (cases "i < length ps")
    case True
    then have "(ps @ [p]) ! i = ps ! i" "(ps @ [p]) ! (i - 1) = ps ! (i - 1)"
      by (simp_all add: nth_append)
    with assms(1) True show ?thesis unfolding phrasesOk_def by simp
  next
    case False
    with i have eq: "i = length ps" by simp
    then have pi: "(ps @ [p]) ! i = p" by simp
    have prev: "(ps @ [p]) ! (i - 1) = last ps" if "ps \<noteq> []"
      using that eq by (simp add: nth_append last_conv_nth)
    show ?thesis
    proof (cases "ps = []")
      case True
      with eq pi assms(2,3) show ?thesis by auto
    next
      case False
      with eq have "i \<noteq> 0" by simp
      with pi prev[OF False] assms(2,3) False show ?thesis by auto
    qed
  qed
qed

lemma closureOf_iff: "closureOf co = ''closed'' \<longleftrightarrow> getCadenceStrength co > 0.7"
  by (simp add: closureOf_def)

lemma phraseInv_step:
  assumes "phraseInv st"
  shows "phraseInv (phraseStep gen notes sps st cad)"
proof -
  obtain phraseStart phraseIndex phrases c where st: "st = (phraseStart, phraseIndex, phrases, c)"
    by (cases st) auto
  from assms st have ok: "phrasesOk phrases" and lastc: "phrases = [] \<or> phCadence (last phrases) \<noteq> None"
    by (simp_all add: phraseInv_def)
  define L where "L = cadMeasure cad - phraseStart + 1"
  consider (one) "2 \<le> L \<and> L \<le> 12" | (two) "L > 12" | (skip) "L < 2" by linarith
  then show ?thesis
  proof cases
    case one
    let ?p = "mkPhrase (gen c) phraseIndex phraseStart (cadMeasure cad) L (Some cad)
                (getNotesInRange notes phraseStart (cadMeasure cad))
                (filter (\<lambda>sp. spStart sp \<ge> phraseStart \<and> spEnd sp \<le> cadMeasure cad) sps)
                (closureOf (Some cad))"
    have pok: "phraseOk ?p" using one
      by (simp add: phraseOk_def mkPhrase_def closureOf_iff L_def)
    have "phrasesOk (phrases @ [?p])"
      by (rule phrasesOk_snoc[OF ok pok]) (use one in \<open>simp add: mkPhrase_def\<close>)
    then show ?thesis using one st
      by (simp add: phraseStep_def phraseInv_def Let_def L_def mkPhrase_def)
  next
    case two
    define mid where "mid = phraseStart + L div 2"
    let ?h1 = "mkPhrase (gen c) phraseIndex phraseStart mid (mid - phraseStart + 1) None
                    (getNotesInRange notes phraseStart mid)
                    (filter (\<lambda>sp. spStart sp \<ge> phraseStart \<and> spEnd sp \<le> mid) sps)
                    ''open''"
    let ?h2 = "mkPhrase (gen (Suc c)) (phraseIndex + 1) (mid + 1) (cadMeasure cad)
                    (cadMeasure cad - mid) (Some cad)
                    (getNotesInRange notes (mid + 1) (cadMeasure cad))
                    (filter (\<lambda>sp. spStart sp > mid \<and> spEnd sp \<le> cadMeasure cad) sps)
                    (closureOf (Some cad))"
    have h1ok: "phraseOk ?h1" using two
      by (simp add: phraseOk_def mkPhrase_def mid_def getCadenceStrength_def)
    have h2ok: "phraseOk ?h2" using two
      by (simp add: phraseOk_def mkPhrase_def closureOf_iff mid_def L_def)
    have 1: "phrasesOk (phrases @ [?h1])"
      by (rule phrasesOk_snoc[OF ok h1ok]) (simp add: mkPhrase_def)
    have 2: "phrasesOk ((phrases @ [?h1]) @ [?h2])"
      by (rule phrasesOk_snoc[OF 1 h2ok]) (simp add: mkPhrase_def)
    then show ?thesis using two st
      by (simp add: phraseStep_def phraseInv_def Let_def L_def mid_def mkPhrase_def)
  next
    case skip
    then show ?thesis using assms st by (simp add: phraseStep_def Let_def L_def)
  qed
qed

lemma phraseInv_foldl:
  "phraseInv st \<Longrightarrow> phraseInv (foldl (phraseStep gen notes sps) st cads)"
  by (induction cads arbitrary: st) (simp_all add: phraseInv_step)

lemma phrasesOk_remaining:
  assumes "phraseInv st"
  shows "phrasesOk (fst (remainingPhrase gen notes sps lastMeasure st))"
proof -
  obtain phraseStart phraseIndex phrases c where st: "st = (phraseStart, phraseIndex, phrases, c)"
    by (cases st) auto
  from assms st have ok: "phrasesOk phrases" by (simp add: phraseInv_def)
  show ?thesis
  proof (cases "phraseStart \<le> lastMeasure \<and> lastMeasure - phraseStart + 1 \<ge> 2")
    case True
    let ?p = "mkPhrase (gen c) phraseIndex phraseStart lastMeasure (lastMeasure - phraseStart + 1) None
            (getNotesInRange notes phraseStart lastMeasure)
            (filter (\<lambda>sp. spStart sp \<ge> phraseStart) sps) ''open''"
    have pok: "phraseOk ?p" using True
      by (simp add: phraseOk_def mkPhrase_def getCadenceStrength_def)
    have "phrasesOk (phrases @ [?p])"
      by (rule phrasesOk_snoc[OF ok pok]) (simp add: mkPhrase_def)
    then show ?thesis using True st by (simp add: remainingPhrase_def)
  next
    case False
    then show ?thesis using ok st by (auto simp add: remainingPhrase_def)
  qed
qed

lemma phrasesOk_detectPhrases: "phrasesOk (fst (detectPhrases gen c notes cadences sps))"
proof (cases "measureNumbersOf notes = []")
  case True
  then show ?thesis by (simp add: detectPhrases_def phrasesOk_def)
next
  case False
  let ?st = "foldl (phraseStep gen notes sps) (hd (measureNumbersOf notes), 0, [], c)
               (sort_key cadMeasure cadences)"
  have "phraseInv (hd (measureNumbersOf notes), 0, [], c)"
    by (simp add: phraseInv_def phrasesOk_def)
  then have "phraseInv ?st" by (rule phraseInv_foldl)
  then have ok: "phrasesOk (fst (remainingPhrase gen notes sps (last (measureNumbersOf notes)) ?st))"
    by (rule phrasesOk_remaining)
  have "fst (detectPhrases gen c notes cadences sps) =
        analyzePhraseMaterials (fst (remainingPhrase gen notes sps (last (measureNumbersOf notes)) ?st))"
    using False by (simp add: detectPhrases_def Let_def split: prod.splits)
  then show ?thesis
    using phrasesOk_cong[OF phraseCore_analyzePhraseMaterials ok] by simp
qed

text \<open>
  C2 (as amended).  For every note stream, cadence list and sub-phrase list, every phrase
  that \<^verbatim>\<open>detectPhrases\<close> emits has \<open>length = endMeasure - startMeasure + 1\<close>, has
  at least 2 measures, and is closed exactly when the strength of its cadence exceeds 0.7
  (a missing cadence has strength 0).  The upper bound 12 holds for a phrase emitted whole
  at a cadence, that is a cadence-bearing phrase that is first or follows a cadence-bearing
  phrase; the halves of a span longer than 12 measures (the first has no cadence, the
  second follows it) and the trailing phrase without cadence are bounded below only.
\<close>

theorem C2_phrase_lengths_and_closure:
  "let out = fst (detectPhrases gen c notes cadences sps)
   in \<forall>i < length out.
        phLength (out ! i) = phEnd (out ! i) - phStart (out ! i) + 1
      \<and> 2 \<le> phLength (out ! i)
      \<and> (phClosure (out ! i) = ''closed'' \<longleftrightarrow> getCadenceStrength (phCadence (out ! i)) > 0.7)
      \<and> (phCadence (out ! i) \<noteq> None \<and> (i = 0 \<or> phCadence (out ! (i - 1)) \<noteq> None)
           \<longrightarrow> phLength (out ! i) \<le> 12)"
proof -
  have "phrasesOk (fst (detectPhrases gen c notes cadences sps))"
    by (rule phrasesOk_detectPhrases)
  then show ?thesis
    unfolding phrasesOk_def phraseOk_def Let_def by blast
qed

text \<open>
  Witness for C2: notes in measures 1 and 4 and a perfect authentic cadence at measure 4
  give one closed phrase of 4 measures.
\<close>

theorem C2_phrase_lengths_and_closure_witness:
  "0 < length (fst (detectPhrases sampleIds 0
       [\<lparr>pitch = Some ''C4'', duration = 4, measureNumber = 1, beat = 0, isRest = False\<rparr>,
        \<lparr>pitch = Some ''C4'', duration = 4, measureNumber = 4, beat = 0, isRest = False\<rparr>]
       [\<lparr>cadenceId = ''c'', cadMeasure = 4, cadBeat = 0, cadType = ''perfect_authentic'',
         strength = ''strong'', cadConfidence = 0.95\<rparr>] []))
   \<and> phCadence (fst (detectPhrases sampleIds 0
       [\<lparr>pitch = Some ''C4'', duration = 4, measureNumber = 1, beat = 0, isRest = False\<rparr>,
        \<lparr>pitch = Some ''C4'', duration = 4, measureNumber = 4, beat = 0, isRest = False\<rparr>]
       [\<lparr>cadenceId = ''c'', cadMeasure = 4, cadBeat = 0, cadType = ''perfect_authentic'',
         strength = ''strong'', cadConfidence = 0.95\<rparr>] []) ! 0) \<noteq> None
   \<and> phLength (fst (detectPhrases sampleIds 0
       [\<lparr>pitch = Some ''C4'', duration = 4, measureNumber = 1, beat = 0, isRest = False\<rparr>,
        \<lparr>pitch = Some ''C4'', duration = 4, measureNumber = 4, beat = 0, isRest = False\<rparr>]
       [\<lparr>cadenceId = ''c'', cadMeasure = 4, cadBeat = 0, cadType = ''perfect_authentic'',
         strength = ''strong'', cadConfidence = 0.95\<rparr>] []) ! 0) \<le> 12
   \<and> 2 \<le> phLength (fst (detectPhrases sampleIds 0
       [\<lparr>pitch = Some ''C4'', duration = 4, measureNumber = 1, beat = 0, isRest = False\<rparr>,
        \<lparr>pitch = Some ''C4'', duration = 4, measureNumber = 4, beat = 0, isRest = False\<rparr>]
       [\<lparr>cadenceId = ''c'', cadMeasure = 4, cadBeat = 0, cadType = ''perfect_authentic'',
         strength = ''strong'', cadConfidence = 0.95\<rparr>] []) ! 0)"
  (is "0 < length ?out \<and> _")
proof -
  have len: "0 < length ?out"
    by (simp add: detectPhrases_def measureNumbersOf_def measureKey_def phraseStep_def
        remainingPhrase_def mkPhrase_def Let_def)
  have cad: "phCadence (?out ! 0) \<noteq> None"
    by (simp add: detectPhrases_def measureNumbersOf_def measureKey_def phraseStep_def
        remainingPhrase_def mkPhrase_def Let_def)
  from C2_phrase_lengths_and_closure[of sampleIds 0
       "[\<lparr>pitch = Some ''C4'', duration = 4, measureNumber = 1, beat = 0, isRest = False\<rparr>,
        \<lparr>pitch = Some ''C4'', duration = 4, measureNumber = 4, beat = 0, isRest = False\<rparr>]"
       "[\<lparr>cadenceId = ''c'', cadMeasure = 4, cadBeat = 0, cadType = ''perfect_authentic'',
         strength = ''strong'', cadConfidence = 0.95\<rparr>]" "[]"] len cad
  have "phLength (?out ! 0) \<le> 12 \<and> 2 \<le> phLength (?out ! 0)"
    unfolding Let_def by blast
  with len cad show ?thesis by blast
qed

text \<open>
  Counterexample to C2 as stated: notes in measures 1 and 30 and a perfect authentic
  cadence at measure 30.  The span of 30 measures is split once at the midpoint, into
  phrases of 16 and 14 measures, both longer than 12.
\<close>

theorem C2_counterexample:
  "map phLength (fst (detectPhrases sampleIds 0
       [\<lparr>pitch = Some ''C4'', duration = 4, measureNumber = 1, beat = 0, isRest = False\<rparr>,
        \<lparr>pitch = Some ''C4'', duration = 4, measureNumber = 30, beat = 0, isRest = False\<rparr>]
       [\<lparr>cadenceId = ''c'', cadMeasure = 30, cadBeat = 0, cadType = ''perfect_authentic'',
         strength = ''strong'', cadConfidence = 0.95\<rparr>] [])) = [16, 14]"
  by (simp add: detectPhrases_def measureNumbersOf_def measureKey_def phraseStep_def
      remainingPhrase_def mkPhrase_def relabelPhrase_def Let_def)

subsection \<open>Preference learner\<close>

lemma length_indicators: "length (indicators x names) = length names"
  by (simp add: indicators_def)

lemma levelOf_values: "levelOf hi mid lo x \<in> {0, 0.5, 1}"
  by (simp add: levelOf_def)

text \<open>
  C6 (as amended).  For every feature record, \<^verbatim>\<open>extractFeatureVector\<close> returns a
  vector of dimension 22 = 6 + 1 + 1 + 2 + 5 + 4 + 3: six indicators of the node type, the
  confidence (0.5 when missing or zero), \<open>min 1 (length / 16)\<close>, the two material
  indicators, five indicators of the cadence type (the fifth for no cadence; none is set for
  a plagal or Phrygian cadence), four indicators of the period type, and the three emotion
  encodings in \<open>{0, 0.5, 1}\<close>; the example that \<^verbatim>\<open>recordSelection\<close> stores carries
  exactly this vector.
\<close>

theorem C6_feature_vector_layout:
  "length (extractFeatureVector f) = 22
   \<and> take 6 (extractFeatureVector f) = indicators (fType f) structureTypes
   \<and> extractFeatureVector f ! 6 = (case fConfidence f of None \<Rightarrow> 0.5 | Some c \<Rightarrow> if c = 0 then 0.5 else c)
   \<and> extractFeatureVector f ! 7 = min 1 (real_of_int (fEndMeasure f - fStartMeasure f + 1) / 16)
   \<and> extractFeatureVector f ! 8 = (case fMaterial f of None \<Rightarrow> 0 | Some m \<Rightarrow> if CHR 0x27 \<in> set m then 1 else 0)
   \<and> extractFeatureVector f ! 9 = (case fMaterial f of None \<Rightarrow> 0 | Some m \<Rightarrow> if length m > 1 then 1 else 0)
   \<and> take 5 (drop 10 (extractFeatureVector f))
        = indicators (orNone (map_option cadType (fCadence f))) cadenceTypeNames
   \<and> take 4 (drop 15 (extractFeatureVector f)) = indicators (orNone (fPeriodType f)) periodTypeNames
   \<and> extractFeatureVector f ! 19 \<in> {0, 0.5, 1}
   \<and> extractFeatureVector f ! 20 \<in> {0, 0.5, 1}
   \<and> extractFeatureVector f ! 21 \<in> {0, 0.5, 1}
   \<and> exFeatures (last (examples (recordSelection pm f scheme reward now))) = extractFeatureVector f"
  by (simp add: extractFeatureVector_def indicators_def structureTypes_def cadenceTypeNames_def
      periodTypeNames_def levelOf_def recordSelection_def)

text \<open>
  Counterexample to C6 as stated: the vector of a phrase node over measures 1 to 4 does not
  have 23 entries.
\<close>

theorem C6_counterexample:
  "length (extractFeatureVector
     \<lparr>fType = Some ''phrase'', fStartMeasure = 1, fEndMeasure = 4, fMaterial = Some ''a'',
      fConfidence = Some 0.8, fCadence = None, fPeriodType = None, fClosure = None,
      fEmotionTempo = None, fEmotionDynamics = None, fEmotionTension = None\<rparr>) \<noteq> 23"
  by (simp add: extractFeatureVector_def indicators_def structureTypes_def cadenceTypeNames_def
      periodTypeNames_def)

lemma recordSelection_weights: "weights (recordSelection pm f scheme reward now) = weights pm"
  by (simp add: recordSelection_def)

text \<open>
  C7.  A fresh preference manager records an accepted selection (reward 1) for a phrase node
  with a cadence.  The claim asks for the structure-type and cadence-type weights to move to
  1.05 and 0.95; the weight vector after the call is the initial one.  Neither
  \<^verbatim>\<open>recordSelection\<close> calls \<^verbatim>\<open>updateFeatureWeights\<close>: for every manager and every
  call the weights are unchanged.
\<close>

theorem C7_recordSelection_leaves_weights:
  "weights (recordSelection pm f scheme reward now) = weights pm
   \<and> getWeightVector (recommenderRecordSelection pm node scheme action now) = getWeightVector pm
   \<and> getWeightVector (recordSelection (newPreferenceManager :: string preferenceManager)
        \<lparr>fType = Some ''phrase'', fStartMeasure = 1, fEndMeasure = 4, fMaterial = Some ''a'',
         fConfidence = Some 0.8,
         fCadence = Some \<lparr>cadenceId = ''c'', cadMeasure = 4, cadBeat = 0,
                           cadType = ''perfect_authentic'', strength = ''strong'',
                           cadConfidence = 0.95\<rparr>,
         fPeriodType = None, fClosure = None,
         fEmotionTempo = None, fEmotionDynamics = None, fEmotionTension = None\<rparr>
        ''scheme'' 1 0)
     = [1, 1, 1, 1, 1, 1, 0.5, 0.8, 0.7, 0.7, 0.9, 0.9, 0.9, 0.9, 0.9, 0.8, 0.8, 0.8, 0.8,
        0.6, 0.6, 0.7]
   \<and> wStructureType (weights (updateFeatureWeights (newPreferenceManager :: string preferenceManager)
        \<lparr>fType = Some ''phrase'', fStartMeasure = 1, fEndMeasure = 4, fMaterial = Some ''a'',
         fConfidence = Some 0.8, fCadence = None, fPeriodType = None, fClosure = None,
         fEmotionTempo = None, fEmotionDynamics = None, fEmotionTension = None\<rparr> True)) = 1.05"
  by (simp add: recordSelection_def recommenderRecordSelection_def getWeightVector_def
      newPreferenceManager_def updateFeatureWeights_def truthy_def clampWeight_def Let_def
      numeral_eq_Suc)

subsection \<open>DTW aligner\<close>

lemma foldl_zero: "foldl (\<lambda>s i. s) (a::real) xs = a"
  by (induction xs) simp_all

lemma euclideanDistance_self: "euclideanDistance v v = Fin 0"
  by (simp add: euclideanDistance_def foldl_zero)

lemma foldl_squares_nonneg:
  "0 \<le> s \<Longrightarrow> 0 \<le> foldl (\<lambda>s i. s + (v ! i - w ! i) * (v ! i - w ! i)) (s::real) xs"
  by (induction xs arbitrary: s) simp_all

lemma euclideanDistance_nonneg: "jsLe (Fin 0) (euclideanDistance v w)"
  by (simp add: euclideanDistance_def foldl_squares_nonneg)

lemma jsLe_refl: "jsLe a a"
  by (cases a) simp_all

lemma jsMin_nonneg: "jsLe (Fin 0) a \<Longrightarrow> jsLe (Fin 0) b \<Longrightarrow> jsLe (Fin 0) (jsMin a b)"
  by (simp add: jsMin_def)

lemma jsAdd_nonneg: "jsLe (Fin 0) a \<Longrightarrow> jsLe (Fin 0) b \<Longrightarrow> jsLe (Fin 0) (jsAdd a b)"
  by (cases a; cases b) simp_all

lemma jsMin_zero_right: "jsLe (Fin 0) a \<Longrightarrow> jsMin a (Fin 0) = Fin 0"
  by (cases a) (auto simp: jsMin_def)

lemma dtwCell_nth:
  assumes "dims n m D" "i \<le> n" "j \<le> m" "a \<le> n"
  shows "dtwCell s1 s2 D i j ! a ! b =
    (if a = i \<and> b = j then
       jsAdd (euclideanDistance (s1 ! (i - 1)) (s2 ! (j - 1)))
            (jsMin (jsMin (D ! (i - 1) ! j) (D ! i ! (j - 1))) (D ! (i - 1) ! (j - 1)))
     else D ! a ! b)"
  using assms by (auto simp add: dtwCell_def dims_def nth_list_update)

lemma dtwCell_dims:
  assumes "dims n m D"
  shows "dims n m (dtwCell s1 s2 D i j)"
proof (cases "i < length D")
  case True
  then show ?thesis using assms by (auto simp add: dtwCell_def dims_def nth_list_update)
next
  case False
  then show ?thesis using assms by (simp add: dtwCell_def dims_def)
qed

lemma dtwCell_nonneg:
  assumes "dims n m D" "nonneg n m D" "i \<le> n" "j \<le> m"
  shows "nonneg n m (dtwCell s1 s2 D i j)"
  unfolding nonneg_def
proof (intro allI impI)
  fix a b assume ab: "a \<le> n" "b \<le> m"
  have 1: "jsLe (Fin 0) (D ! (i - 1) ! j)" "jsLe (Fin 0) (D ! i ! (j - 1))"
       "jsLe (Fin 0) (D ! (i - 1) ! (j - 1))" "jsLe (Fin 0) (D ! a ! b)"
    using assms ab by (auto simp: nonneg_def)
  show "jsLe (Fin 0) (dtwCell s1 s2 D i j ! a ! b)"
    using 1
    by (simp add: dtwCell_nth[OF assms(1,3,4) ab(1)] jsAdd_nonneg jsMin_nonneg
        euclideanDistance_nonneg)
qed

lemma rowInv_cell:
  assumes "rowInv n i k D" "1 \<le> i" "i \<le> n" "Suc k \<le> n"
  shows "rowInv n i (Suc k) (dtwCell S S D i (Suc k))"
proof -
  from assms have d: "dims n n D" and nn: "nonneg n n D"
    and dg: "\<forall>a < i. D ! a ! a = Fin 0" and cur: "i \<le> k \<longrightarrow> D ! i ! i = Fin 0"
    by (simp_all add: rowInv_def)
  have kn: "Suc k \<le> n" by fact
  have older: "\<forall>a < i. dtwCell S S D i (Suc k) ! a ! a = Fin 0"
    using dg assms(3) by (simp add: dtwCell_nth[OF d assms(3) kn])
  have new: "dtwCell S S D i (Suc k) ! i ! i = Fin 0" if "i \<le> Suc k"
  proof (cases "i = Suc k")
    case True
    have z: "D ! (i - 1) ! (i - 1) = Fin 0" using dg assms(2) by simp
    have "jsLe (Fin 0) (D ! (i - 1) ! i)" "jsLe (Fin 0) (D ! i ! (i - 1))"
      using nn assms(3) by (auto simp: nonneg_def)
    then have m: "jsMin (jsMin (D ! (i - 1) ! i) (D ! i ! (i - 1))) (Fin 0) = Fin 0"
      by (simp add: jsMin_zero_right jsMin_nonneg)
    have "dtwCell S S D i i ! i ! i =
          jsAdd (euclideanDistance (S ! (i - 1)) (S ! (i - 1)))
            (jsMin (jsMin (D ! (i - 1) ! i) (D ! i ! (i - 1))) (D ! (i - 1) ! (i - 1)))"
      using dtwCell_nth[OF d assms(3) assms(3) assms(3), of S S i] by simp
    also have "\<dots> = Fin 0"
      by (simp only: z m euclideanDistance_self jsAdd.simps) simp
    finally show ?thesis using True by simp
  next
    case False
    with that have "i \<le> k" by simp
    with cur False show ?thesis using assms(3) by (simp add: dtwCell_nth[OF d assms(3) kn])
  qed
  show ?thesis
    unfolding rowInv_def
    using dtwCell_dims[OF d] dtwCell_nonneg[OF d nn assms(3) kn] older new by blast
qed

lemma rowInv_foldl:
  assumes "rowInv n i 0 D" "1 \<le> i" "i \<le> n" "k \<le> n"
  shows "rowInv n i k (foldl (\<lambda>d j. dtwCell S S d i j) D [1 ..< Suc k])"
  using assms(4)
proof (induction k)
  case 0
  then show ?case using assms(1) by simp
next
  case (Suc k)
  then have "rowInv n i k (foldl (\<lambda>d j. dtwCell S S d i j) D [1 ..< Suc k])" by simp
  from rowInv_cell[OF this assms(2,3)] Suc.prems show ?case by simp
qed

lemma fillInv_row:
  assumes "fillInv n i D" "Suc i \<le> n" "length S = n"
  shows "fillInv n (Suc i) (dtwRow S S D (Suc i))"
proof -
  from assms(1) have "rowInv n (Suc i) 0 D"
    by (auto simp add: fillInv_def rowInv_def)
  from rowInv_foldl[OF this _ assms(2) order_refl, of S]
  have "rowInv n (Suc i) n (dtwRow S S D (Suc i))"
    by (simp add: dtwRow_def assms(3))
  then show ?thesis using assms(2)
    by (auto simp add: fillInv_def rowInv_def less_Suc_eq_le le_Suc_eq)
qed

lemma fillInv_init: "fillInv n 0 (dtwInit n n)"
  by (auto simp add: fillInv_def dims_def nonneg_def dtwInit_def nth_list_update nth_Cons'
      split: nat.splits)

lemma fillInv_foldl:
  assumes "length S = n" "i \<le> n"
  shows "fillInv n i (foldl (\<lambda>d r. dtwRow S S d r) (dtwInit n n) [1 ..< Suc i])"
  using assms(2)
proof (induction i)
  case 0
  then show ?case by (simp add: fillInv_init)
next
  case (Suc i)
  then have "fillInv n i (foldl (\<lambda>d r. dtwRow S S d r) (dtwInit n n) [1 ..< Suc i])" by simp
  from fillInv_row[OF this _ assms(1)] Suc.prems show ?case by simp
qed

lemma fillInv_dtwFill: "fillInv (length S) (length S) (dtwFill S S)"
  using fillInv_foldl[of S "length S" "length S"] by (simp add: dtwFill_def)

lemma backtrack_diagonal:
  assumes "fillInv n n D" "i \<le> n"
  shows "backtrack D i i path = map (\<lambda>k. (k, k)) [0 ..< i] @ path"
  using assms(2)
proof (induction i arbitrary: path)
  case 0
  then show ?case by (subst backtrack.simps) simp
next
  case (Suc i)
  from assms(1) Suc.prems have z: "D ! i ! i = Fin 0"
    and l: "jsLe (Fin 0) (D ! Suc i ! i)" and u: "jsLe (Fin 0) (D ! i ! Suc i)"
    by (auto simp add: fillInv_def nonneg_def)
  have "backtrack D (Suc i) (Suc i) path = backtrack D i i ((i, i) # path)"
    by (subst backtrack.simps) (simp add: z l u)
  also have "\<dots> = map (\<lambda>k. (k, k)) [0 ..< i] @ (i, i) # path"
    using Suc by simp
  finally show ?case by simp
qed

lemma computeDTW_self:
  assumes "S \<noteq> []"
  shows "computeDTW S S = (map (\<lambda>k. (k, k)) [0 ..< length S], Fin 0)"
proof -
  have inv: "fillInv (length S) (length S) (dtwFill S S)" by (rule fillInv_dtwFill)
  then have "dtwFill S S ! length S ! length S = Fin 0" by (simp add: fillInv_def)
  moreover have "backtrack (dtwFill S S) (length S) (length S) [] = map (\<lambda>k. (k, k)) [0 ..< length S]"
    using backtrack_diagonal[OF inv order_refl, of "[]"] by simp
  ultimately show ?thesis using assms by (simp add: computeDTW_def Let_def)
qed

text \<open>
  C9.  For every non-empty chroma sequence \<open>S\<close> of length \<open>n\<close>, aligning \<open>S\<close> with
  itself yields the diagonal path \<open>[(0,0), (1,1), \<dots>, (n-1,n-1)]\<close>, accumulated distance
  0 and confidence exactly 1, whatever the options and the earlier state of the aligner.
\<close>

theorem C9_self_alignment_is_diagonal:
  assumes "S \<noteq> []"
  shows "alignmentResult (align a S S opts)
         = Some \<lparr>arPath = map (\<lambda>k. (k, k)) [0 ..< length S], arConfidence = 1, arDistance = Fin 0\<rparr>"
  using assms by (simp add: align_def computeDTW_self alignConfidence_def Let_def)

text \<open>Witness for C9: a sequence of two chroma frames.\<close>

theorem C9_self_alignment_is_diagonal_witness:
  "[[1, 0, 0, 0, 0, 0, 0, 0, 0, 0, 0, 0], [0, 0, 0, 0, 0, 0, 0, 1, 0, 0, 0, 0]] \<noteq> ([] :: real list list)
   \<and> alignmentResult (align \<lparr>alignmentResult = None, measureToTime = [], timeToMeasure = []\<rparr>
        [[1, 0, 0, 0, 0, 0, 0, 0, 0, 0, 0, 0], [0, 0, 0, 0, 0, 0, 0, 1, 0, 0, 0, 0]]
        [[1, 0, 0, 0, 0, 0, 0, 0, 0, 0, 0, 0], [0, 0, 0, 0, 0, 0, 0, 1, 0, 0, 0, 0]]
        defaultAlignOptions)
     = Some \<lparr>arPath = [(0, 0), (1, 1)], arConfidence = 1, arDistance = Fin 0\<rparr>"
  using C9_self_alignment_is_diagonal[of
      "[[1, 0, 0, 0, 0, 0, 0, 0, 0, 0, 0, 0], [0, 0, 0, 0, 0, 0, 0, 1, 0, 0, 0, 0]]"
      "\<lparr>alignmentResult = None, measureToTime = [], timeToMeasure = []\<rparr>" defaultAlignOptions]
  by (simp add: upt_rec)

text \<open>
  C10.  When at least one of the two chroma sequences is empty, \<^verbatim>\<open>computeDTW\<close> returns
  the empty path with distance \<^verbatim>\<open>Infinity\<close> (the model has no failing branch: the
  early return is taken), and after the alignment \<^verbatim>\<open>getTimestamp(m)\<close> is 0 for every
  measure number \<open>m\<close>, whatever the maps of the aligner held before.
\<close>

theorem C10_empty_sequence_alignment:
  assumes "seq1 = [] \<or> seq2 = []"
  shows "computeDTW seq1 seq2 = ([], Infinity)
       \<and> getTimestamp (align a seq1 seq2 opts) m = 0"
  using assms by (auto simp add: computeDTW_def align_def getTimestamp_def Let_def)

text \<open>Witness for C10: an empty symbolic sequence, and an aligner whose maps were not empty.\<close>

theorem C10_empty_sequence_alignment_witness:
  "(([] :: real list list) = [] \<or> [[1, 0, 0, 0, 0, 0, 0, 0, 0, 0, 0, 0]] = ([] :: real list list))
   \<and> computeDTW [] [[1, 0, 0, 0, 0, 0, 0, 0, 0, 0, 0, 0]] = ([], Infinity)
   \<and> getTimestamp (align \<lparr>alignmentResult = None, measureToTime = [(1, 0.5)], timeToMeasure = [(0.5, 1)]\<rparr>
        [] [[1, 0, 0, 0, 0, 0, 0, 0, 0, 0, 0, 0]] defaultAlignOptions) 7 = 0"
  using C10_empty_sequence_alignment[of "[]" "[[1, 0, 0, 0, 0, 0, 0, 0, 0, 0, 0, 0]]"
      "\<lparr>alignmentResult = None, measureToTime = [(1, 0.5)], timeToMeasure = [(0.5, 1)]\<rparr>"
      defaultAlignOptions 7]
  by simp

subsection \<open>The variation probe of the form cascade\<close>















subsection \<open>Consistency of the structure tree\<close>

lemma chainFrom_append:
  "chainFrom a (xs @ ys) b \<longleftrightarrow> (\<exists>m. chainFrom a xs m \<and> chainFrom m ys b)"
  by (induction xs arbitrary: a) auto

lemma chainFrom_snoc:
  "chainFrom a xs s \<Longrightarrow> s \<le> e \<Longrightarrow> chainFrom a (xs @ [(s, e)]) (e + 1)"
  by (auto simp: chainFrom_append)

lemma chainFrom_le: "chainFrom a rs b \<Longrightarrow> a \<le> b"
  by (induction rs arbitrary: a) force+

lemma chainFrom_bounds:
  "chainFrom a rs b \<Longrightarrow> r \<in> set rs \<Longrightarrow> a \<le> fst r \<and> fst r \<le> snd r \<and> snd r < b"
proof (induction rs arbitrary: a)
  case Nil then show ?case by simp
next
  case (Cons x rs)
  show ?case
  proof (cases "r = x")
    case True
    with Cons.prems chainFrom_le[of "snd x + 1" rs b] show ?thesis by auto
  next
    case False
    with Cons.prems have "r \<in> set rs" "chainFrom (snd x + 1) rs b" by auto
    from Cons.IH[OF this(2,1)] Cons.prems show ?thesis by auto
  qed
qed

lemma chainFrom_nth:
  "chainFrom a rs b \<Longrightarrow> i < j \<Longrightarrow> j < length rs \<Longrightarrow> snd (rs ! i) < fst (rs ! j)"
proof (induction rs arbitrary: a i j)
  case Nil then show ?case by simp
next
  case (Cons x rs)
  from Cons.prems obtain j' where j: "j = Suc j'" by (cases j) auto
  have tl: "chainFrom (snd x + 1) rs b" using Cons.prems by simp
  show ?case
  proof (cases i)
    case 0
    have "rs ! j' \<in> set rs" using Cons.prems j by simp
    from chainFrom_bounds[OF tl this] 0 j show ?thesis by simp
  next
    case (Suc i')
    with Cons.IH[OF tl, of i' j'] Cons.prems j show ?thesis by simp
  qed
qed

lemma chainFrom_nonOverlapping: "chainFrom a rs b \<Longrightarrow> nonOverlapping rs"
  unfolding nonOverlapping_def by (blast dest: chainFrom_nth)

lemma chainFrom_contiguous: "chainFrom a rs b \<Longrightarrow> contiguous rs"
proof (induction rs arbitrary: a)
  case Nil then show ?case by (simp add: contiguous_def)
next
  case (Cons x rs)
  then have tl: "chainFrom (snd x + 1) rs b" by simp
  from Cons.IH[OF tl] have c: "contiguous rs" .
  show ?case unfolding contiguous_def
  proof (intro allI impI)
    fix i assume "i < length (x # rs) - 1"
    then have i: "Suc i < length (x # rs)" by simp
    show "fst ((x # rs) ! Suc i) = snd ((x # rs) ! i) + 1"
    proof (cases i)
      case 0
      with i tl show ?thesis by (cases rs) auto
    next
      case (Suc i')
      with i c show ?thesis by (simp add: contiguous_def)
    qed
  qed
qed

lemma phraseRanges_core:
  "map phraseCore ps = map phraseCore qs \<Longrightarrow> phraseRanges ps = phraseRanges qs"
proof -
  assume a: "map phraseCore ps = map phraseCore qs"
  have "phraseRanges ps = map (\<lambda>c. (fst c, fst (snd c))) (map phraseCore ps)"
    by (simp add: phraseRanges_def phraseCore_def)
  also have "\<dots> = map (\<lambda>c. (fst c, fst (snd c))) (map phraseCore qs)" by (simp only: a)
  also have "\<dots> = phraseRanges qs" by (simp add: phraseRanges_def phraseCore_def)
  finally show ?thesis .
qed

lemma chainInv_step:
  assumes "chainInv m0 M st" "cadMeasure cad \<le> M"
  shows "chainInv m0 M (phraseStep gen notes sps st cad)"
proof -
  obtain phraseStart phraseIndex phrases c where st: "st = (phraseStart, phraseIndex, phrases, c)"
    by (cases st) auto
  from assms st have ch: "chainFrom m0 (phraseRanges phrases) phraseStart"
    by (simp add: chainInv_def)
  define L where "L = cadMeasure cad - phraseStart + 1"
  consider (one) "2 \<le> L \<and> L \<le> 12" | (two) "L > 12" | (skip) "L < 2" by linarith
  then show ?thesis
  proof cases
    case one
    then have le: "phraseStart \<le> cadMeasure cad" by (simp add: L_def)
    from chainFrom_snoc[OF ch le] one assms(2) st show ?thesis
      by (simp add: phraseStep_def chainInv_def Let_def L_def phraseRanges_def mkPhrase_def)
  next
    case two
    define mid where "mid = phraseStart + L div 2"
    have le1: "phraseStart \<le> mid" using two by (simp add: mid_def)
    have le2: "mid + 1 \<le> cadMeasure cad" using two by (simp add: mid_def L_def)
    from chainFrom_snoc[OF chainFrom_snoc[OF ch le1] le2] two assms(2) st show ?thesis
      by (simp add: phraseStep_def chainInv_def Let_def L_def phraseRanges_def mkPhrase_def mid_def)
  next
    case skip
    then show ?thesis using assms st by (simp add: phraseStep_def Let_def L_def)
  qed
qed

lemma chainInv_foldl:
  "chainInv m0 M st \<Longrightarrow> \<forall>cad \<in> set cads. cadMeasure cad \<le> M
   \<Longrightarrow> chainInv m0 M (foldl (phraseStep gen notes sps) st cads)"
  by (induction cads arbitrary: st) (simp_all add: chainInv_step)

lemma chain_remaining:
  assumes "chainInv m0 M st"
  shows "\<exists>b. chainFrom m0 (phraseRanges (fst (remainingPhrase gen notes sps M st))) b \<and> b \<le> M + 1"
proof -
  obtain phraseStart phraseIndex phrases c where st: "st = (phraseStart, phraseIndex, phrases, c)"
    by (cases st) auto
  from assms st have ch: "chainFrom m0 (phraseRanges phrases) phraseStart" and le: "phraseStart \<le> M + 1"
    by (simp_all add: chainInv_def)
  show ?thesis
  proof (cases "phraseStart \<le> M \<and> M - phraseStart + 1 \<ge> 2")
    case True
    then have "phraseStart \<le> M" by simp
    from chainFrom_snoc[OF ch this] True st show ?thesis
      by (auto simp add: remainingPhrase_def phraseRanges_def mkPhrase_def)
  next
    case False
    then show ?thesis using ch le st by (auto simp add: remainingPhrase_def)
  qed
qed

lemma sorted_hd_le_last: "sorted xs \<Longrightarrow> xs \<noteq> [] \<Longrightarrow> hd xs \<le> (last xs :: int)"
  by (cases xs) (auto simp: )

lemma sorted_le_last: "sorted xs \<Longrightarrow> x \<in> set xs \<Longrightarrow> x \<le> (last xs :: int)"
  by (induction xs) auto

lemma sorted_hd_le: "sorted xs \<Longrightarrow> x \<in> set xs \<Longrightarrow> (hd xs :: int) \<le> x"
  by (cases xs) auto

lemma detectPhrases_chain:
  assumes "\<forall>cad \<in> set cadences. cadMeasure cad \<le> last (measureNumbersOf notes)"
    and "measureNumbersOf notes \<noteq> []"
  shows "\<exists>b. chainFrom (hd (measureNumbersOf notes))
               (phraseRanges (fst (detectPhrases gen c notes cadences sps))) b
             \<and> b \<le> last (measureNumbersOf notes) + 1"
proof -
  let ?mns = "measureNumbersOf notes"
  let ?st = "foldl (phraseStep gen notes sps) (hd ?mns, 0, [], c) (sort_key cadMeasure cadences)"
  have srt: "sorted ?mns" by (simp add: measureNumbersOf_def)
  have "chainInv (hd ?mns) (last ?mns) (hd ?mns, 0, [], c)"
    using sorted_hd_le_last[OF srt assms(2)] by (simp add: chainInv_def phraseRanges_def)
  moreover have "\<forall>cad \<in> set (sort_key cadMeasure cadences). cadMeasure cad \<le> last ?mns"
    using assms(1) by simp
  ultimately have "chainInv (hd ?mns) (last ?mns) ?st" by (rule chainInv_foldl)
  from chain_remaining[OF this]
  obtain b where b: "chainFrom (hd ?mns) (phraseRanges (fst (remainingPhrase gen notes sps (last ?mns) ?st))) b"
    "b \<le> last ?mns + 1" by blast
  have "fst (detectPhrases gen c notes cadences sps) =
        analyzePhraseMaterials (fst (remainingPhrase gen notes sps (last ?mns) ?st))"
    using assms(2) by (simp add: detectPhrases_def Let_def split: prod.splits)
  then have "phraseRanges (fst (detectPhrases gen c notes cadences sps)) =
        phraseRanges (fst (remainingPhrase gen notes sps (last ?mns) ?st))"
    using phraseRanges_core[OF phraseCore_analyzePhraseMaterials] by simp
  with b show ?thesis by auto
qed

lemma classifyCadence_measure: "classifyCadence i p cu me m md = Some cad \<Longrightarrow> cadMeasure cad = m"
  by (auto simp add: classifyCadence_def mkCadence_def split: if_splits)

lemma cadenceAt_measure: "cadenceAt gen c notes ks prevM curM = Some cad \<Longrightarrow> cadMeasure cad = curM"
  by (auto simp add: cadenceAt_def Let_def classifyCadence_measure split: option.splits prod.splits)

lemma cadenceLoop_measures:
  "cad \<in> set (fst (cadenceLoop gen c ns ks ms)) \<Longrightarrow> cadMeasure cad \<in> set ms"
proof (induction gen c ns ks ms rule: cadenceLoop.induct)
  case (1 gen c ns ks prevM curM rest)
  show ?case
  proof (cases "cadenceAt gen c ns ks prevM curM")
    case None
    with 1 show ?thesis by auto
  next
    case (Some a)
    with 1 cadenceAt_measure[OF Some] show ?thesis
      by (auto split: prod.splits)
  qed
qed simp_all

lemma detectCadences_measures:
  "cad \<in> set (fst (detectCadences gen c notes ks)) \<Longrightarrow> cadMeasure cad \<in> set (measureNumbersOf notes)"
  by (simp add: detectCadences_def cadenceLoop_measures)

lemma take_take_drop: "take a xs @ take b (drop a xs) = take (a + b) xs"
  by (simp add: take_add)

lemma periodOk_createPeriod: "phs \<noteq> [] \<Longrightarrow> periodOk (createPeriod i phs idx)"
  by (simp add: periodOk_def createPeriod_def)

lemma perPhrases_createPeriod: "perPhrases (createPeriod i phs idx) = phs"
  by (simp add: createPeriod_def)

lemma periodInv_step:
  assumes "periodInv phrases i st" "i < length phrases"
  shows "periodInv phrases (Suc i) (periodStep gen phrases st i)"
proof -
  obtain periodStart periodIndex periods c where st: "st = (periodStart, periodIndex, periods, c)"
    by (cases st) auto
  from assms st have le: "periodStart \<le> i"
    and cc: "concat (map perPhrases periods) = take periodStart phrases"
    and ok: "\<forall>p \<in> set periods. periodOk p"
    by (simp_all add: periodInv_def)
  let ?slice = "take (i + 1 - periodStart) (drop periodStart phrases)"
  have ne: "?slice \<noteq> []" using le assms(2) by simp
  have cat: "take periodStart phrases @ ?slice = take (Suc i) phrases"
    using le by (simp add: take_take_drop)
  show ?thesis
  proof (cases "fst (periodStep gen phrases st i) = Suc i")
    case True
    then have push: "periodStep gen phrases st i =
        (i + 1, periodIndex + 1, periods @ [createPeriod (gen c) ?slice periodIndex], Suc c)"
      using st le by (auto simp add: periodStep_def Let_def split: if_splits)
    show ?thesis
      using cc ok cat periodOk_createPeriod[OF ne]
      by (simp add: push periodInv_def perPhrases_createPeriod)
  next
    case False
    then have same: "periodStep gen phrases st i = st" and notlast: "Suc i \<noteq> length phrases"
      using st by (auto simp add: periodStep_def Let_def split: if_splits)
    from same st have same': "periodStep gen phrases (periodStart, periodIndex, periods, c) i
        = (periodStart, periodIndex, periods, c)" by simp
    show ?thesis using le cc ok notlast by (simp add: st same' periodInv_def)
  qed
qed

lemma periodInv_foldl:
  assumes "k \<le> length phrases"
  shows "periodInv phrases k (foldl (periodStep gen phrases) (0, 0, [], c) [0 ..< k])"
  using assms
proof (induction k)
  case 0
  then show ?case by (simp add: periodInv_def)
next
  case (Suc k)
  then have "periodInv phrases k (foldl (periodStep gen phrases) (0, 0, [], c) [0 ..< k])" by simp
  from periodInv_step[OF this] Suc.prems show ?case by simp
qed

lemma detectPeriods_partition:
  "concat (map perPhrases (fst (detectPeriods gen c phrases))) = phrases
   \<and> (\<forall>p \<in> set (fst (detectPeriods gen c phrases)). periodOk p)"
proof -
  have "periodInv phrases (length phrases)
          (foldl (periodStep gen phrases) (0, 0, [], c) [0 ..< length phrases])"
    by (rule periodInv_foldl) simp
  then show ?thesis
    by (auto simp add: detectPeriods_def periodInv_def split: prod.splits)
qed

lemma chainFrom_ends:
  "chainFrom a rs m \<Longrightarrow> rs \<noteq> [] \<Longrightarrow> fst (hd rs) = a \<and> snd (last rs) + 1 = m \<and> a \<le> snd (last rs)"
proof (induction rs arbitrary: a)
  case Nil then show ?case by simp
next
  case (Cons x rs)
  show ?case
  proof (cases "rs = []")
    case True
    with Cons.prems show ?thesis by simp
  next
    case False
    from Cons.prems have tl: "chainFrom (snd x + 1) rs m" by simp
    from Cons.IH[OF tl False] Cons.prems False show ?thesis by auto
  qed
qed

lemma periods_chain:
  assumes "chainFrom a (phraseRanges (concat (map perPhrases periods))) b"
    and "\<forall>p \<in> set periods. periodOk p"
  shows "chainFrom a (periodRanges periods) b \<and> (\<forall>p \<in> set periods. periodChain p)"
  using assms
proof (induction periods arbitrary: a)
  case Nil
  then show ?case by (simp add: periodRanges_def phraseRanges_def)
next
  case (Cons p periods)
  from Cons.prems(1) obtain m where
    m1: "chainFrom a (phraseRanges (perPhrases p)) m"
    and m2: "chainFrom m (phraseRanges (concat (map perPhrases periods))) b"
    by (auto simp add: phraseRanges_def chainFrom_append)
  from Cons.prems(2) have ok: "periodOk p" and oks: "\<forall>p \<in> set periods. periodOk p" by simp_all
  then have ne: "phraseRanges (perPhrases p) \<noteq> []" by (simp add: periodOk_def phraseRanges_def)
  from chainFrom_ends[OF m1 ne] ok
  have e: "perStart p = a" "perEnd p + 1 = m" "a \<le> perEnd p"
    by (simp_all add: periodOk_def phraseRanges_def hd_map last_map)
  from Cons.IH[OF m2 oks] have rest: "chainFrom m (periodRanges periods) b"
    and restc: "\<forall>p \<in> set periods. periodChain p" by simp_all
  show ?case
    using e rest restc m1 by (simp add: periodRanges_def periodChain_def)
qed

lemma mkSection_sel [simp]:
  "secStart (mkSection i name ty s e fn ps) = s"
  "secEnd (mkSection i name ty s e fn ps) = e"
  by (simp_all add: mkSection_def)

lemma spansOk_singles:
  assumes "distinct idxs" "\<forall>i \<in> set idxs. i < n"
  shows "spansOk n (map (\<lambda>i. (i, i)) idxs)"
  using assms
  by (auto simp add: spansOk_def nth_eq_iff_index_eq intro: linorder_neqE_nat)

lemma spanRange_single:
  "i < length periods \<Longrightarrow> spanRange (periodRanges periods) (i, i) = (perStart (periods ! i), perEnd (periods ! i))"
  by (simp add: spanRange_def periodRanges_def)

lemma sectionsSpan_singles:
  assumes "distinct idxs" "\<forall>i \<in> set idxs. i < length periods"
    and "secRanges secs = map (\<lambda>i. (perStart (periods ! i), perEnd (periods ! i))) idxs"
  shows "sectionsSpan periods secs"
proof -
  have "map (spanRange (periodRanges periods)) (map (\<lambda>i. (i, i)) idxs)
        = map (\<lambda>i. (perStart (periods ! i), perEnd (periods ! i))) idxs"
    using assms(2) by (simp add: spanRange_single)
  with assms(3) spansOk_singles[OF assms(1,2)] show ?thesis
    unfolding sectionsSpan_def by metis
qed

lemma sectionsSpan_nil: "sectionsSpan periods []"
  unfolding sectionsSpan_def spansOk_def secRanges_def by (rule exI[of _ "[]"]) simp

lemma createSections_span: "sectionsSpan periods (fst (createSections gen c periods))"
  by (rule sectionsSpan_singles[of "[0 ..< length periods]"])
     (simp_all add: createSections_def secRanges_def comp_def)

lemma createAABASections_span: "sectionsSpan periods (fst (createAABASections gen c periods))"
  by (rule sectionsSpan_singles[of "[0 ..< length periods]"])
     (simp_all add: createAABASections_def secRanges_def comp_def)

lemma rondo_fold:
  "k \<le> length periods \<Longrightarrow>
   secRanges (fst (foldl (rondoStep gen periods materials mainMaterial) ([], 0, 0, c) [0 ..< k]))
   = map (\<lambda>i. (perStart (periods ! i), perEnd (periods ! i))) [0 ..< k]"
proof (induction k)
  case 0 then show ?case by (simp add: secRanges_def)
next
  case (Suc k)
  then have IH: "secRanges (fst (foldl (rondoStep gen periods materials mainMaterial) ([], 0, 0, c) [0 ..< k]))
      = map (\<lambda>i. (perStart (periods ! i), perEnd (periods ! i))) [0 ..< k]" by simp
  obtain secs a b c' where st: "foldl (rondoStep gen periods materials mainMaterial) ([], 0, 0, c) [0 ..< k]
      = (secs, a, b, c')" by (metis prod_cases4)
  have step: "foldl (rondoStep gen periods materials mainMaterial) ([], 0, 0, c) [0 ..< Suc k]
      = rondoStep gen periods materials mainMaterial (secs, a, b, c') k" by (simp add: st)
  from IH st have r: "secRanges secs = map (\<lambda>i. (perStart (periods ! i), perEnd (periods ! i))) [0 ..< k]"
    by simp
  show ?case unfolding step using r by (simp add: rondoStep_def secRanges_def)
qed

lemma verseChorus_fold:
  "k \<le> length periods \<Longrightarrow>
   secRanges (fst (foldl (verseChorusStep gen periods materials) ([], 0, 0, c) [0 ..< k]))
   = map (\<lambda>i. (perStart (periods ! i), perEnd (periods ! i))) [0 ..< k]"
proof (induction k)
  case 0 then show ?case by (simp add: secRanges_def)
next
  case (Suc k)
  then have IH: "secRanges (fst (foldl (verseChorusStep gen periods materials) ([], 0, 0, c) [0 ..< k]))
      = map (\<lambda>i. (perStart (periods ! i), perEnd (periods ! i))) [0 ..< k]" by simp
  obtain secs a b c' where st: "foldl (verseChorusStep gen periods materials) ([], 0, 0, c) [0 ..< k]
      = (secs, a, b, c')" by (metis prod_cases4)
  have step: "foldl (verseChorusStep gen periods materials) ([], 0, 0, c) [0 ..< Suc k]
      = verseChorusStep gen periods materials (secs, a, b, c') k" by (simp add: st)
  from IH st have r: "secRanges secs = map (\<lambda>i. (perStart (periods ! i), perEnd (periods ! i))) [0 ..< k]"
    by simp
  show ?case unfolding step using r by (simp add: verseChorusStep_def secRanges_def)
qed

lemma createVerseChorusSections_span:
  "sectionsSpan periods (fst (createVerseChorusSections gen c periods materials))"
proof -
  have "secRanges (fst (createVerseChorusSections gen c periods materials))
        = map (\<lambda>i. (perStart (periods ! i), perEnd (periods ! i))) [0 ..< length periods]"
    using verseChorus_fold[of "length periods" periods gen materials c]
    by (cases "foldl (verseChorusStep gen periods materials) ([], 0, 0, c) [0 ..< length periods]")
       (simp add: createVerseChorusSections_def)
  then show ?thesis
    by (intro sectionsSpan_singles[of "[0 ..< length periods]"]) simp_all
qed

lemma detectRondoForm_span:
  "faSections (fst (detectRondoForm gen c periods mp)) = Some secs \<Longrightarrow> sectionsSpan periods secs"
proof -
  assume a: "faSections (fst (detectRondoForm gen c periods mp)) = Some secs"
  have "secRanges secs = map (\<lambda>i. (perStart (periods ! i), perEnd (periods ! i))) [0 ..< length periods]"
    using a rondo_fold[of "length periods" periods gen "mpMaterials mp" "mpMainMaterial mp" c]
    by (cases "foldl (rondoStep gen periods (mpMaterials mp) (mpMainMaterial mp)) ([], 0, 0, c)
                 [0 ..< length periods]")
       (auto simp add: detectRondoForm_def Let_def mkForm_def split: if_splits)
  then show ?thesis
    by (intro sectionsSpan_singles[of "[0 ..< length periods]"]) simp_all
qed

lemma detectRondoForm_conf:
  "faConfidence (fst (detectRondoForm gen c periods mp)) > 0.6
   \<Longrightarrow> \<exists>secs. faSections (fst (detectRondoForm gen c periods mp)) = Some secs"
  by (auto simp add: detectRondoForm_def Let_def mkForm_def split: if_splits prod.splits)

lemma detectPopularMusicForm_span:
  "faSections (fst (detectPopularMusicForm gen c periods)) = Some secs \<Longrightarrow> sectionsSpan periods secs"
  using createVerseChorusSections_span[of periods gen c "mpMaterials (analyzeMaterialPattern periods)"]
    createAABASections_span[of periods gen c]
  by (auto simp add: detectPopularMusicForm_def Let_def mkForm_def split: if_splits prod.splits)

lemma analyzeOnePartForm_span:
  "periods \<noteq> [] \<Longrightarrow> \<exists>secs. faSections (fst (analyzeOnePartForm gen c periods)) = Some secs
      \<and> sectionsSpan periods secs"
  by (auto simp add: analyzeOnePartForm_def Let_def mkForm_def secRanges_def hd_conv_nth
      intro!: sectionsSpan_singles[of "[0]"])

lemma analyzeBinaryForm_span:
  "length periods = 2 \<Longrightarrow> \<exists>secs. faSections (fst (analyzeBinaryForm gen c periods)) = Some secs
      \<and> sectionsSpan periods secs"
  by (auto simp add: analyzeBinaryForm_def Let_def mkForm_def secRanges_def
      intro!: sectionsSpan_singles[of "[0, 1]"])

lemma analyzeTernaryForm_span:
  "length periods = 3 \<Longrightarrow> \<exists>secs. faSections (fst (analyzeTernaryForm gen c periods mp)) = Some secs
      \<and> sectionsSpan periods secs"
  by (auto simp add: analyzeTernaryForm_def Let_def mkForm_def secRanges_def
      intro!: sectionsSpan_singles[of "[0, 1, 2]"])

lemma map_index: "map (\<lambda>i. g (xs ! i)) [0 ..< length xs] = map g xs"
  by (rule nth_equalityI) simp_all

lemma createVariationSections_ranges:
  "secRanges (fst (createVariationSections gen c theme variations))
   = (perStart theme, perEnd theme)
     # map (\<lambda>v. (perStart (varPeriod v), perEnd (varPeriod v))) variations"
  using map_index[of "\<lambda>v. (perStart (varPeriod v), perEnd (varPeriod v))" variations]
  by (simp add: createVariationSections_def secRanges_def comp_def)

lemma findVariations_ranges:
  "map (\<lambda>v. (perStart (varPeriod v), perEnd (varPeriod v))) (findVariations periods)
   = map (\<lambda>i. (perStart (periods ! i), perEnd (periods ! i)))
       (filter (\<lambda>i. calculatePeriodSimilarity (periods ! i) (hd periods) > 0.3
                     \<and> calculatePeriodSimilarity (periods ! i) (hd periods) < 0.9)
               [1 ..< length periods])"
  by (simp add: findVariations_def comp_def)

lemma detectVariationForm_span:
  assumes "faSections (fst (detectVariationForm gen c periods)) = Some secs"
  shows "sectionsSpan periods secs"
proof -
  let ?idx = "filter (\<lambda>i. calculatePeriodSimilarity (periods ! i) (hd periods) > 0.3
                     \<and> calculatePeriodSimilarity (periods ! i) (hd periods) < 0.9)
               [1 ..< length periods]"
  from assms have len: "3 \<le> length periods"
    and secs: "secs = fst (createVariationSections gen c (hd periods) (findVariations periods))"
    by (auto simp add: detectVariationForm_def Let_def mkForm_def split: if_splits prod.splits)
  have hd0: "hd periods = periods ! 0" using len by (cases periods) auto
  have "secRanges secs = map (\<lambda>i. (perStart (periods ! i), perEnd (periods ! i))) (0 # ?idx)"
    by (simp add: secs createVariationSections_ranges findVariations_ranges hd0)
  moreover have "distinct (0 # ?idx)" by auto
  moreover have "\<forall>i \<in> set (0 # ?idx). i < length periods" using len by auto
  ultimately show ?thesis by (intro sectionsSpan_singles[of "0 # ?idx"])
qed

lemma detectVariationForm_conf:
  "faConfidence (fst (detectVariationForm gen c periods)) > 0.7
   \<Longrightarrow> \<exists>secs. faSections (fst (detectVariationForm gen c periods)) = Some secs"
  by (auto simp add: detectVariationForm_def Let_def mkForm_def split: if_splits prod.splits)

text \<open>Slices of the period list.\<close>

lemma slice_ends:
  assumes "take l (drop k xs) \<noteq> []"
  shows "hd (take l (drop k xs)) = xs ! k"
    and "last (take l (drop k xs)) = xs ! (k + length (take l (drop k xs)) - 1)"
    and "k + length (take l (drop k xs)) \<le> length xs"
    and "length (take l (drop k xs)) \<le> l"
    and "0 < length (take l (drop k xs))"
proof -
  let ?s = "take l (drop k xs)"
  from assms show pos: "0 < length ?s" by simp
  then have kl: "k < length xs" "0 < l" by auto
  show lenl: "length ?s \<le> l" by simp
  show "hd ?s = xs ! k" using assms kl by (simp add: hd_conv_nth)
  have "last ?s = ?s ! (length ?s - 1)" using assms by (rule last_conv_nth)
  also have "\<dots> = drop k xs ! (length ?s - 1)" using pos lenl by (intro nth_take) linarith
  also have "\<dots> = xs ! (k + (length ?s - 1))" using kl by (intro nth_drop) linarith
  finally show "last ?s = xs ! (k + length ?s - 1)" using pos by (simp del: length_take length_drop)
  show "k + length ?s \<le> length xs" using kl by simp
qed

lemma drop_ends:
  assumes "drop k xs \<noteq> []"
  shows "hd (drop k xs) = xs ! k" and "last (drop k xs) = xs ! (length xs - 1)" and "k < length xs"
  using assms by (simp_all add: hd_drop_conv_nth last_conv_nth)

lemma spanRange_idx:
  "i < length periods \<Longrightarrow> j < length periods \<Longrightarrow>
   spanRange (periodRanges periods) (i, j) = (perStart (periods ! i), perEnd (periods ! j))"
  by (simp add: spanRange_def periodRanges_def)

text \<open>Three consecutive blocks: a prefix, a middle slice (possibly empty), a suffix (possibly empty).\<close>

lemma three_blocks:
  fixes periods :: "period list"
  assumes A: "A = take a periods" "A \<noteq> []"
    and B: "B = take l (drop a periods)"
    and C: "C = drop e periods" and ae: "a \<le> e" "a + l \<le> e"
    and ranges: "secRanges secs =
        (perStart (hd A), perEnd (last A))
        # (if B = [] then [] else [(perStart (hd B), perEnd (last B))])
        @ (if C = [] then [] else [(perStart (hd C), perEnd (last C))])"
  shows "sectionsSpan periods secs"
proof -
  let ?n = "length periods"
  let ?prs = "periodRanges periods"
  let ?sa = "(0, length A - 1)"
  let ?sb = "(a, a + length B - 1)"
  let ?sc = "(e, ?n - 1)"
  let ?sp = "?sa # (if B = [] then [] else [?sb]) @ (if C = [] then [] else [?sc])"
  have A0: "A = take a (drop 0 periods)" using A by simp
  note sa = slice_ends[of a 0 periods, folded A0, OF A(2)]
  have lenA: "0 < length A" "length A \<le> ?n" "length A \<le> a" using sa by simp_all
  have la: "length A - 1 < ?n" "0 < ?n" "length A - 1 < a" "length A - 1 < e"
    using lenA ae by linarith+
  have ra: "spanRange ?prs ?sa = (perStart (hd A), perEnd (last A))"
    using sa(1,2) la(1,2) by (simp add: spanRange_idx)
  have rb: "spanRange ?prs ?sb = (perStart (hd B), perEnd (last B))
            \<and> a \<le> a + length B - 1 \<and> a + length B - 1 < ?n \<and> a + length B - 1 < e"
    if "B \<noteq> []"
  proof -
    note sb = slice_ends[of l a periods, folded B, OF that]
    have lb: "a < ?n" "a + length B - 1 < ?n" "a \<le> a + length B - 1" "a + length B - 1 < e"
      using sb(3,4,5) ae by linarith+
    show ?thesis using sb(1,2) lb by (simp add: spanRange_idx)
  qed
  have rc: "spanRange ?prs ?sc = (perStart (hd C), perEnd (last C)) \<and> e < ?n" if "C \<noteq> []"
  proof -
    note sc = drop_ends[of e periods, folded C, OF that]
    have lc: "?n - 1 < ?n" using sc(3) by linarith
    show ?thesis using sc lc by (simp add: spanRange_idx)
  qed
  have eq: "secRanges secs = map (spanRange ?prs) ?sp"
    using ra rb rc by (simp add: ranges)
  have ok: "spansOk ?n ?sp"
  proof (cases "B = []")
    case True
    show ?thesis
    proof (cases "C = []")
      case True
      with \<open>B = []\<close> lenA la show ?thesis by (simp add: spansOk_def)
    next
      case False
      with \<open>B = []\<close> lenA la rc[OF False] ae show ?thesis
        by (auto simp add: spansOk_def nth_Cons split: nat.splits)
    qed
  next
    case False
    note nb = rb[OF False]
    show ?thesis
    proof (cases "C = []")
      case True
      with False lenA la nb ae show ?thesis
        by (auto simp add: spansOk_def nth_Cons split: nat.splits)
    next
      case c: False
      with False lenA la nb rc[OF c] ae show ?thesis
        by (auto simp add: spansOk_def nth_Cons split: nat.splits)
    qed
  qed
  from eq ok show ?thesis unfolding sectionsSpan_def by blast
qed

lemma detectSonataForm_span:
  assumes "faSections (fst (detectSonataForm gen c periods)) = Some secs"
  shows "sectionsSpan periods secs"
proof -
  let ?x = "length periods div 3"
  let ?d = "(2 * length periods) div 3"
  let ?A = "take (?x + 1) periods"
  let ?B = "take (?d - ?x) (drop (?x + 1) periods)"
  let ?C = "drop (?d + 1) periods"
  from assms have len: "3 \<le> length periods"
    by (auto simp add: detectSonataForm_def mkForm_def split: if_splits)
  have ne: "?A \<noteq> []" using len by auto
  have r: "secRanges secs =
        (perStart (hd ?A), perEnd (last ?A))
        # (if ?B = [] then [] else [(perStart (hd ?B), perEnd (last ?B))])
        @ (if ?C = [] then [] else [(perStart (hd ?C), perEnd (last ?C))])"
    using assms len
    by (auto simp add: detectSonataForm_def Let_def mkForm_def secRanges_def
        simp del: take_eq_Nil drop_eq_Nil split: if_splits)
  show ?thesis
    by (rule three_blocks[OF refl ne refl refl _ _ r]) simp_all
qed

lemma detectSonataForm_conf:
  "faConfidence (fst (detectSonataForm gen c periods)) > 0.6
   \<Longrightarrow> \<exists>secs. faSections (fst (detectSonataForm gen c periods)) = Some secs"
  by (auto simp add: detectSonataForm_def Let_def mkForm_def split: if_splits)

lemma findMiddle_bounds:
  assumes "findMiddle ms mainM i st = (a, b)" "\<forall>s. st = Some s \<longrightarrow> s < i"
  shows "(\<forall>j. a = Some j \<longrightarrow> j < i + length ms) \<and> (\<forall>e. b = Some e \<longrightarrow> (\<exists>j. a = Some j \<and> j \<le> e))"
  using assms
proof (induction ms arbitrary: i st)
  case Nil
  then show ?case by auto
next
  case (Cons m rest)
  let ?st' = "if m \<noteq> mainM \<and> st = None then Some i else st"
  show ?case
  proof (cases "m = mainM \<and> ?st' \<noteq> None")
    case True
    with Cons.prems show ?thesis by (auto simp add: Let_def split: if_splits)
  next
    case False
    have unf: "findMiddle (m # rest) mainM i st =
        (if m = mainM \<and> ?st' \<noteq> None then (?st', Some (i - 1))
         else findMiddle rest mainM (i + 1) ?st')" by (simp add: Let_def)
    from Cons.prems(1) have rec: "findMiddle rest mainM (i + 1) ?st' = (a, b)"
      unfolding unf if_not_P[OF False] .
    have "\<forall>s. ?st' = Some s \<longrightarrow> s < i + 1" using Cons.prems(2) by (auto simp add: less_Suc_eq)
    from Cons.IH[OF rec this] show ?thesis by simp
  qed
qed

lemma analyzeCompoundTernaryForm_span:
  assumes "4 \<le> length periods" "length (mpMaterials mp) = length periods"
  shows "\<exists>secs. faSections (fst (analyzeCompoundTernaryForm gen c periods mp)) = Some secs
           \<and> sectionsSpan periods secs"
proof (cases "mpHasRecapitulation mp")
  case False
  then show ?thesis
    using createSections_span[of periods gen c]
    by (cases "createSections gen c periods") (simp add: analyzeCompoundTernaryForm_def mkForm_def)
next
  case True
  obtain a b where fm: "findMiddle (tl (mpMaterials mp)) (hd (mpMaterials mp)) (Suc 0) None = (a, b)"
    by (cases "findMiddle (tl (mpMaterials mp)) (hd (mpMaterials mp)) (Suc 0) None") auto
  from findMiddle_bounds[OF fm] have
    fa: "\<forall>j. a = Some j \<longrightarrow> j < 1 + length (tl (mpMaterials mp))"
    and fb: "\<forall>e. b = Some e \<longrightarrow> (\<exists>j. a = Some j \<and> j \<le> e)" by simp_all
  let ?ms = "case a of None \<Rightarrow> 1 | Some i \<Rightarrow> i"
  let ?me = "case b of None \<Rightarrow> length periods - 2 | Some i \<Rightarrow> i"
  let ?A = "take ?ms periods"
  let ?B = "take (?me + 1 - ?ms) (drop ?ms periods)"
  let ?C = "drop (?me + 1) periods"
  let ?secs = "the (faSections (fst (analyzeCompoundTernaryForm gen c periods mp)))"
  have ms1: "1 \<le> ?ms"
  proof (cases a)
    case None then show ?thesis by simp
  next
    case (Some j)
    have "\<forall>j. fst (findMiddle ms mainM i None) = Some j \<longrightarrow> i \<le> j" for ms mainM i
    proof (induction ms arbitrary: i)
      case Nil then show ?case by simp
    next
      case (Cons m rest)
      show ?case
      proof (cases "m = mainM")
        case True
        with Cons.IH[of "i + 1"] show ?thesis by (auto simp add: Let_def)
      next
        case False
        have "fst (findMiddle rest mainM k (Some i)) = Some i" for k
          by (induction rest arbitrary: k) (auto simp add: Let_def)
        with False show ?thesis by (auto simp add: Let_def)
      qed
    qed
    from this[of "tl (mpMaterials mp)" "hd (mpMaterials mp)" "Suc 0"] fm Some show ?thesis by simp
  qed
  have msn: "?ms \<le> length periods - 1" using fa assms by (cases a) auto
  have mse: "?ms \<le> ?me + 1" using fb msn assms by (cases b; cases a) auto
  have ne: "?A \<noteq> []" using ms1 assms by auto
  have sec: "faSections (fst (analyzeCompoundTernaryForm gen c periods mp)) = Some ?secs"
    using True by (simp add: analyzeCompoundTernaryForm_def Let_def mkForm_def fm)
  have r: "secRanges ?secs =
        (perStart (hd ?A), perEnd (last ?A))
        # (if ?B = [] then [] else [(perStart (hd ?B), perEnd (last ?B))])
        @ (if ?C = [] then [] else [(perStart (hd ?C), perEnd (last ?C))])"
    using True
    by (simp add: analyzeCompoundTernaryForm_def Let_def mkForm_def secRanges_def fm
        del: take_eq_Nil drop_eq_Nil)
  have "sectionsSpan periods ?secs"
    using mse by (intro three_blocks[OF refl ne refl refl _ _ r]) simp_all
  with sec show ?thesis by blast
qed

lemma length_mpMaterials: "length (mpMaterials (analyzeMaterialPattern periods)) = length periods"
  by (simp add: analyzeMaterialPattern_def Let_def)

lemma formAfterSonata_span:
  assumes "periods \<noteq> []" "mp = analyzeMaterialPattern periods"
  shows "\<exists>secs. faSections (fst (formAfterSonata gen c periods mp)) = Some secs
           \<and> sectionsSpan periods secs"
proof (cases "4 \<le> length periods")
  case True
  then show ?thesis
    using analyzeCompoundTernaryForm_span[OF True, of mp gen c] assms(2)
    by (simp add: formAfterSonata_def length_mpMaterials)
next
  case False
  then show ?thesis
    using createSections_span[of periods gen c]
    by (cases "createSections gen c periods") (simp add: formAfterSonata_def mkForm_def)
qed

lemma formAfterRondo_span:
  assumes "periods \<noteq> []" "mp = analyzeMaterialPattern periods"
  shows "\<exists>secs. faSections (fst (formAfterRondo gen c periods mp)) = Some secs
           \<and> sectionsSpan periods secs"
proof -
  obtain sa c1 where s: "detectSonataForm gen c periods = (sa, c1)"
    by (cases "detectSonataForm gen c periods") auto
  show ?thesis
  proof (cases "3 \<le> length periods \<and> faConfidence sa > 0.6")
    case True
    with detectSonataForm_conf[of gen c periods] s obtain secs where
      "faSections sa = Some secs" by auto
    with detectSonataForm_span[of gen c periods secs] s True show ?thesis
      by (simp add: formAfterRondo_def)
  next
    case False
    then show ?thesis
      using formAfterSonata_span[OF assms, of gen c] formAfterSonata_span[OF assms, of gen c1] s
      by (auto simp add: formAfterRondo_def)
  qed
qed

lemma formAfterVariation_span:
  assumes "periods \<noteq> []" "mp = analyzeMaterialPattern periods"
  shows "\<exists>secs. faSections (fst (formAfterVariation gen c periods mp)) = Some secs
           \<and> sectionsSpan periods secs"
proof -
  obtain ra c1 where s: "detectRondoForm gen c periods mp = (ra, c1)"
    by (cases "detectRondoForm gen c periods mp") auto
  show ?thesis
  proof (cases "5 \<le> length periods \<and> faConfidence ra > 0.6")
    case True
    with detectRondoForm_conf[of gen c periods mp] s obtain secs where
      "faSections ra = Some secs" by auto
    with detectRondoForm_span[of gen c periods mp secs] s True show ?thesis
      by (simp add: formAfterVariation_def)
  next
    case False
    then show ?thesis
      using formAfterRondo_span[OF assms, of gen c] formAfterRondo_span[OF assms, of gen c1] s
      by (auto simp add: formAfterVariation_def)
  qed
qed

lemma detectForm_span:
  "\<exists>secs. faSections (fst (detectForm gen c periods)) = Some secs \<and> sectionsSpan periods secs"
proof -
  obtain va c1 where s: "detectVariationForm gen c periods = (va, c1)"
    by (cases "detectVariationForm gen c periods") auto
  consider "length periods = 0" | "length periods = 1" | "length periods = 2" | "length periods = 3"
    | "4 \<le> length periods" "faConfidence va > 0.7" | "4 \<le> length periods" "\<not> faConfidence va > 0.7"
    by linarith
  then show ?thesis
  proof cases
    case 1
    then show ?thesis by (simp add: detectForm_def mkForm_def sectionsSpan_nil)
  next
    case 2
    then have "periods \<noteq> []" by auto
    from analyzeOnePartForm_span[OF this, of gen c] 2 show ?thesis by (simp add: detectForm_def)
  next
    case 3
    from analyzeBinaryForm_span[OF this, of gen c] 3 show ?thesis by (simp add: detectForm_def)
  next
    case 4
    from analyzeTernaryForm_span[OF this, of gen c] 4 show ?thesis by (simp add: detectForm_def)
  next
    case 5
    then have ne: "periods \<noteq> []" by auto
    from 5 detectVariationForm_conf[of gen c periods] s obtain secs where
      "faSections va = Some secs" by auto
    with detectVariationForm_span[of gen c periods secs] s 5 ne show ?thesis
      by (simp add: detectForm_def)
  next
    case 6
    then have ne: "periods \<noteq> []" by auto
    from formAfterVariation_span[OF ne refl, of gen c1] 6 s ne show ?thesis
      by (simp add: detectForm_def)
  qed
qed

lemma assignForm_span:
  assumes "faSections fa = Some secs" "sectionsSpan periods secs"
    and "\<And>s. faSections pop = Some s \<Longrightarrow> sectionsSpan periods s"
  shows "\<exists>secs'. faSections (assignForm fa pop) = Some secs' \<and> sectionsSpan periods secs'"
  using assms by (cases "faSections pop") (simp_all add: assignForm_def)

lemma wf_chain:
  assumes "s \<le> e" "chainFrom s (map rangeOf cs) (e + 1)" "\<forall>c \<in> set cs. wellFormedNode c"
  shows "wellFormedNode (StructNode i ty s e cs mat conf ft st)"
proof -
  have "inside (s, e) (rangeOf c)" if "c \<in> set cs" for c
  proof -
    from that have "rangeOf c \<in> set (map rangeOf cs)" by simp
    from chainFrom_bounds[OF assms(2) this] show ?thesis by (simp add: inside_def)
  qed
  with assms(1,3) chainFrom_nonOverlapping[OF assms(2)] chainFrom_contiguous[OF assms(2)]
  show ?thesis by simp
qed

lemma motiveNodes_chain:
  "m \<le> endM \<Longrightarrow>
   chainFrom m (map rangeOf (motiveNodes gen c m endM wide idx)) (endM + 1)
   \<and> (\<forall>x \<in> set (motiveNodes gen c m endM wide idx). wellFormedNode x)"
proof (induction gen c m endM wide idx rule: motiveNodes.induct)
  case (1 gen c m endM wide idx)
  let ?size = "if wide then 2 else 1 :: int"
  let ?rest = "motiveNodes gen (Suc c) (m + ?size) endM wide (idx + 1)"
  have unf: "motiveNodes gen c m endM wide idx =
      StructNode (gen c) ''motive'' m (min (m + ?size - 1) endM) []
         (''m'' @ showNat (idx + 1)) 0.6 noFeatures None # ?rest"
    using "1.prems" by (subst motiveNodes.simps) simp
  have wf0: "wellFormedNode (StructNode (gen c) ''motive'' m (min (m + ?size - 1) endM) []
         (''m'' @ showNat (idx + 1)) 0.6 noFeatures None)"
    using "1.prems" by (simp add: nonOverlapping_def contiguous_def)
  show ?case
  proof (cases "m + ?size \<le> endM")
    case True
    from "1.IH"[OF "1.prems" True] True wf0 show ?thesis
      unfolding unf by (simp add: rangeOf_def min_def)
  next
    case False
    then have "?rest = []" by (subst motiveNodes.simps) simp
    with False wf0 "1.prems" show ?thesis
      unfolding unf by (simp add: rangeOf_def min_def)
  qed
qed

lemma addMotives_chain:
  "s \<le> e \<Longrightarrow> chainFrom s (map rangeOf (addMotives gen c s e)) (e + 1)
   \<and> (\<forall>x \<in> set (addMotives gen c s e). wellFormedNode x)"
  unfolding addMotives_def by (rule motiveNodes_chain)

lemma phraseNode_wf:
  assumes "phStart p \<le> phEnd p"
  shows "wellFormedNode (fst (phraseNode gen c p)) \<and> rangeOf (fst (phraseNode gen c p)) = (phStart p, phEnd p)"
proof (cases "phEnd p - phStart p + 1 \<ge> 4")
  case True
  let ?mid = "phStart p + (phEnd p - phStart p + 1) div 2 - 1"
  have m1: "phStart p \<le> ?mid" and m2: "?mid + 1 \<le> phEnd p" using True by linarith+
  let ?mo1 = "addMotives gen (c + 2) (phStart p) ?mid"
  let ?mo2 = "addMotives gen (c + 2 + length ?mo1) (?mid + 1) (phEnd p)"
  let ?s1 = "StructNode (gen c) ''subphrase'' (phStart p) ?mid ?mo1
                              (phMaterial p @ subscriptOne) 0.65 noFeatures None"
  let ?s2 = "StructNode (gen (Suc c)) ''subphrase'' (?mid + 1) (phEnd p) ?mo2
                              (phMaterial p @ subscriptTwo) 0.65 noFeatures None"
  have w1: "wellFormedNode ?s1" using addMotives_chain[OF m1] m1 by (intro wf_chain) simp_all
  have w2: "wellFormedNode ?s2" using addMotives_chain[OF m2] m2 by (intro wf_chain) simp_all
  have ch: "chainFrom (phStart p) (map rangeOf [?s1, ?s2]) (phEnd p + 1)"
    using m1 m2 by (simp add: rangeOf_def)
  have "wellFormedNode (StructNode (phId p) ''phrase'' (phStart p) (phEnd p) [?s1, ?s2]
                 (phMaterial p) conf ft None)" for conf ft
    using assms ch w1 w2 by (intro wf_chain) simp_all
  then show ?thesis using True by (simp add: phraseNode_def Let_def rangeOf_def)
next
  case False
  have "wellFormedNode (StructNode (phId p) ''phrase'' (phStart p) (phEnd p)
          (addMotives gen c (phStart p) (phEnd p)) (phMaterial p) conf ft None)" for conf ft
    using addMotives_chain[OF assms] assms by (intro wf_chain) simp_all
  then show ?thesis using False by (simp add: phraseNode_def Let_def rangeOf_def)
qed

lemma phraseNodes_wf:
  "\<forall>p \<in> set ps. phStart p \<le> phEnd p \<Longrightarrow>
   map rangeOf (fst (phraseNodes gen c ps)) = phraseRanges ps
   \<and> (\<forall>x \<in> set (fst (phraseNodes gen c ps)). wellFormedNode x)"
proof (induction ps arbitrary: c)
  case Nil
  then show ?case by (simp add: phraseRanges_def)
next
  case (Cons p ps)
  obtain n c1 where n: "phraseNode gen c p = (n, c1)" by (cases "phraseNode gen c p") auto
  obtain ns c2 where ns: "phraseNodes gen c1 ps = (ns, c2)" by (cases "phraseNodes gen c1 ps") auto
  from Cons.prems have p: "phStart p \<le> phEnd p" and ps: "\<forall>p \<in> set ps. phStart p \<le> phEnd p"
    by simp_all
  from phraseNode_wf[OF p, of gen c] n have "wellFormedNode n" "rangeOf n = (phStart p, phEnd p)"
    by simp_all
  moreover from Cons.IH[OF ps, of c1] ns have "map rangeOf ns = phraseRanges ps"
    "\<forall>x \<in> set ns. wellFormedNode x" by simp_all
  ultimately show ?case by (simp add: n ns phraseRanges_def)
qed

lemma periodNode_wf:
  assumes "periodOk p" "periodChain p"
  shows "wellFormedNode (fst (periodNode gen c p))
         \<and> rangeOf (fst (periodNode gen c p)) = (perStart p, perEnd p)"
proof -
  obtain ns c' where ns: "phraseNodes gen c (perPhrases p) = (ns, c')"
    by (cases "phraseNodes gen c (perPhrases p)") auto
  from assms(1) obtain ph rest where phs: "perPhrases p = ph # rest"
    by (cases "perPhrases p") (auto simp add: periodOk_def)
  from assms(1) phs have s: "perStart p = phStart ph" and e: "perEnd p = phEnd (last (ph # rest))"
    by (simp_all add: periodOk_def)
  from assms(2) have ch: "chainFrom (perStart p) (phraseRanges (perPhrases p)) (perEnd p + 1)"
    by (simp add: periodChain_def)
  have "\<forall>q \<in> set (perPhrases p). phStart q \<le> phEnd q"
  proof
    fix q assume "q \<in> set (perPhrases p)"
    then have "(phStart q, phEnd q) \<in> set (phraseRanges (perPhrases p))"
      by (auto simp add: phraseRanges_def)
    from chainFrom_bounds[OF ch this] show "phStart q \<le> phEnd q" by simp
  qed
  from phraseNodes_wf[OF this, of gen c] ns
  have r: "map rangeOf ns = phraseRanges (perPhrases p)" and w: "\<forall>x \<in> set ns. wellFormedNode x"
    by simp_all
  have le: "perStart p \<le> perEnd p"
    using chainFrom_ends[OF ch] phs by (simp add: phraseRanges_def)
  have "wellFormedNode (StructNode (perId p) ''period'' (perStart p) (perEnd p) ns mat conf ft None)"
    for mat conf ft
    using le ch r w by (intro wf_chain) simp_all
  moreover have "(case perPhrases p of [] \<Rightarrow> 0 | ph # _ \<Rightarrow> phStart ph) = perStart p"
    "(case perPhrases p of [] \<Rightarrow> 0 | _ # _ \<Rightarrow> phEnd (last (perPhrases p))) = perEnd p"
    using s e by (simp_all add: phs del: last.simps)
  ultimately show ?thesis
    by (simp add: periodNode_def ns rangeOf_def)
qed

lemma attach_hit:
  "t < length rc \<Longrightarrow> encloses (rc ! t) n \<Longrightarrow> \<forall>u < t. \<not> encloses (rc ! u) n
   \<Longrightarrow> attach n rc = rc[t := addChild (rc ! t) n]"
proof (induction rc arbitrary: t)
  case Nil then show ?case by simp
next
  case (Cons s rest)
  show ?case
  proof (cases t)
    case 0
    with Cons.prems show ?thesis by (simp add: encloses_def)
  next
    case (Suc t')
    from Cons.prems(3) Suc have n0: "\<not> encloses s n" by auto
    from Cons.prems Suc have "t' < length rest" "encloses (rest ! t') n"
      "\<forall>u < t'. \<not> encloses (rest ! u) n" by auto
    from Cons.IH[OF this] n0 Suc show ?thesis by (auto simp add: encloses_def)
  qed
qed

lemma attach_miss:
  "\<forall>u < length rc. \<not> encloses (rc ! u) n \<Longrightarrow> attach n rc = rc @ [n]"
proof (induction rc)
  case Nil then show ?case by simp
next
  case (Cons s rest)
  from Cons.prems have n0: "\<not> encloses s n" by auto
  from Cons.prems have "\<forall>u < length rest. \<not> encloses (rest ! u) n" by auto
  from Cons.IH[OF this] n0 show ?case by (simp add: encloses_def)
qed

lemma chain_fst_le_snd: "chainFrom a rs b \<Longrightarrow> i < length rs \<Longrightarrow> fst (rs ! i) \<le> snd (rs ! i)"
  using chainFrom_bounds[of a rs b "rs ! i"] by simp

lemma chain_fst_mono:
  assumes "chainFrom a rs b" "i < length rs" "k < length rs"
  shows "(fst (rs ! i) \<le> fst (rs ! k)) = (i \<le> k)"
proof (cases "i \<le> k")
  case True
  show ?thesis
  proof (cases "i = k")
    case True then show ?thesis by simp
  next
    case False
    with True have "i < k" by simp
    from chainFrom_nth[OF assms(1) this assms(3)] chain_fst_le_snd[OF assms(1,2)] True
    show ?thesis by simp
  qed
next
  case False
  then have "k < i" by simp
  from chainFrom_nth[OF assms(1) this assms(2)] chain_fst_le_snd[OF assms(1,3)] False
  show ?thesis by simp
qed

lemma chain_snd_mono:
  assumes "chainFrom a rs b" "k < length rs" "j < length rs"
  shows "(snd (rs ! k) \<le> snd (rs ! j)) = (k \<le> j)"
proof (cases "k \<le> j")
  case True
  show ?thesis
  proof (cases "k = j")
    case True then show ?thesis by simp
  next
    case False
    with True have "k < j" by simp
    from chainFrom_nth[OF assms(1) this assms(3)] chain_fst_le_snd[OF assms(1,3)] True
    show ?thesis by simp
  qed
next
  case False
  then have "j < k" by simp
  from chainFrom_nth[OF assms(1) this assms(2)] chain_fst_le_snd[OF assms(1,2)] False
  show ?thesis by simp
qed

lemma encloses_span:
  assumes "chainFrom a prs b" "fst s \<le> snd s" "snd s < length prs" "k < length prs"
    and "rangeOf x = spanRange prs s" "rangeOf n = prs ! k"
  shows "encloses x n = inSpan s k"
proof -
  have i: "fst s < length prs" using assms(2,3) by simp
  from assms(5,6) have "startMeasure x = fst (prs ! fst s)" "endMeasure x = snd (prs ! snd s)"
    "startMeasure n = fst (prs ! k)" "endMeasure n = snd (prs ! k)"
    by (auto simp add: rangeOf_def spanRange_def dest: arg_cong[of _ _ fst] arg_cong[of _ _ snd])
  then show ?thesis
    using chain_fst_mono[OF assms(1) i assms(4)] chain_snd_mono[OF assms(1) assms(4) assms(3)]
    by (simp add: encloses_def inSpan_def)
qed

lemma addChild_sel [simp]:
  "rangeOf (addChild x n) = rangeOf x" "nodeType (addChild x n) = nodeType x"
  "children (addChild x n) = children x @ [n]"
  by (simp_all add: addChild_def rangeOf_def)

lemma upt_span_same:
  "\<not> inSpan s k \<Longrightarrow> [fst s ..< min (snd s + 1) (Suc k)] = [fst s ..< min (snd s + 1) k]"
  by (auto simp add: inSpan_def min_def)

lemma upt_span_hit:
  "inSpan s k \<Longrightarrow> [fst s ..< min (snd s + 1) (Suc k)] = [fst s ..< min (snd s + 1) k] @ [k]"
  by (auto simp add: inSpan_def min_def)

lemma leftover_Suc:
  "leftover sp (Suc k) = leftover sp k @ (if \<forall>s \<in> set sp. \<not> inSpan s k then [k] else [])"
  by (simp add: leftover_def)

lemma leftover_less: "m \<in> set (leftover sp k) \<Longrightarrow> m < k \<and> (\<forall>s \<in> set sp. \<not> inSpan s m)"
  by (simp add: leftover_def)

lemma spansOk_unique:
  assumes "spansOk n sp" "t < length sp" "u < length sp" "inSpan (sp ! t) k" "inSpan (sp ! u) k"
  shows "u = t"
proof (rule ccontr)
  assume "u \<noteq> t"
  with assms(1,2,3) have "snd (sp ! u) < fst (sp ! t) \<or> snd (sp ! t) < fst (sp ! u)"
    unfolding spansOk_def by blast
  with assms(4,5) show False by (auto simp add: inSpan_def)
qed

lemma treeInv_step:
  assumes inv: "treeInv prs sp k rc" and ch: "chainFrom a prs b"
    and ok: "spansOk (length prs) sp" and k: "k < length prs"
    and wf: "wellFormedNode n" and rn: "rangeOf n = prs ! k"
  shows "treeInv prs sp (Suc k) (attach n rc)"
proof -
  from inv have len: "length sp \<le> length rc"
    and th: "\<And>t. t < length sp \<Longrightarrow>
           rangeOf (rc ! t) = spanRange prs (sp ! t) \<and> nodeType (rc ! t) = ''theme''
           \<and> (\<forall>c \<in> set (children (rc ! t)). wellFormedNode c)
           \<and> map rangeOf (children (rc ! t)) = map (nth prs) [fst (sp ! t) ..< min (snd (sp ! t) + 1) k]"
    and lo: "map rangeOf (drop (length sp) rc) = map (nth prs) (leftover sp k)"
    and lw: "\<forall>x \<in> set (drop (length sp) rc). wellFormedNode x"
    unfolding treeInv_def by blast+
  have valid: "fst (sp ! t) \<le> snd (sp ! t) \<and> snd (sp ! t) < length prs" if "t < length sp" for t
    using ok that unfolding spansOk_def by blast
  have enc: "encloses (rc ! t) n = inSpan (sp ! t) k" if "t < length sp" for t
    using encloses_span[OF ch _ _ k _ rn, of "sp ! t" "rc ! t"] valid[OF that] th[OF that] by simp
  show ?thesis
  proof (cases "\<exists>t < length sp. inSpan (sp ! t) k")
    case True
    then obtain t where t: "t < length sp" "inSpan (sp ! t) k" by blast
    have others: "\<not> inSpan (sp ! u) k" if "u < length sp" "u \<noteq> t" for u
      using spansOk_unique[OF ok t(1) that(1) t(2)] that(2) by blast
    have tl: "t < length rc" using t(1) len by simp
    have "\<forall>u < t. \<not> encloses (rc ! u) n"
    proof (intro allI impI)
      fix u assume "u < t"
      then have "u < length sp" "u \<noteq> t" using t(1) by simp_all
      with enc[of u] others[of u] show "\<not> encloses (rc ! u) n" by simp
    qed
    from attach_hit[OF tl _ this] enc[OF t(1)] t(2)
    have att: "attach n rc = rc[t := addChild (rc ! t) n]" by simp
    have notall: "\<not> (\<forall>s \<in> set sp. \<not> inSpan s k)" using t by auto
    have "\<forall>u < length sp.
           rangeOf (rc[t := addChild (rc ! t) n] ! u) = spanRange prs (sp ! u)
           \<and> nodeType (rc[t := addChild (rc ! t) n] ! u) = ''theme''
           \<and> (\<forall>c \<in> set (children (rc[t := addChild (rc ! t) n] ! u)). wellFormedNode c)
           \<and> map rangeOf (children (rc[t := addChild (rc ! t) n] ! u))
               = map (nth prs) [fst (sp ! u) ..< min (snd (sp ! u) + 1) (Suc k)]"
    proof (intro allI impI)
      fix u assume u: "u < length sp"
      show "rangeOf (rc[t := addChild (rc ! t) n] ! u) = spanRange prs (sp ! u)
           \<and> nodeType (rc[t := addChild (rc ! t) n] ! u) = ''theme''
           \<and> (\<forall>c \<in> set (children (rc[t := addChild (rc ! t) n] ! u)). wellFormedNode c)
           \<and> map rangeOf (children (rc[t := addChild (rc ! t) n] ! u))
               = map (nth prs) [fst (sp ! u) ..< min (snd (sp ! u) + 1) (Suc k)]"
      proof (cases "u = t")
        case True
        then show ?thesis
          using th[OF t(1)] tl wf rn upt_span_hit[OF t(2)] by auto
      next
        case False
        then show ?thesis
          using th[OF u] upt_span_same[OF others[OF u False]] by simp
      qed
    qed
    moreover have "drop (length sp) (rc[t := addChild (rc ! t) n]) = drop (length sp) rc"
      using t(1) by simp
    moreover have "leftover sp (Suc k) = leftover sp k" using notall by (simp add: leftover_Suc)
    ultimately show ?thesis
      unfolding treeInv_def att using len lo lw by simp
  next
    case False
    then have none: "\<forall>s \<in> set sp. \<not> inSpan s k" by (metis in_set_conv_nth)
    have "\<forall>u < length rc. \<not> encloses (rc ! u) n"
    proof (intro allI impI)
      fix u assume u: "u < length rc"
      show "\<not> encloses (rc ! u) n"
      proof (cases "u < length sp")
        case True
        with enc[of u] False show ?thesis by blast
      next
        case nt: False
        let ?v = "u - length sp"
        have v: "?v < length (drop (length sp) rc)" using u nt by simp
        have ru: "rc ! u = drop (length sp) rc ! ?v" using u nt len by simp
        from lo v have vl: "?v < length (leftover sp k)"
          by (metis length_map)
        have "rangeOf (rc ! u) = map rangeOf (drop (length sp) rc) ! ?v"
          using v ru by (simp del: length_drop)
        also have "\<dots> = prs ! (leftover sp k ! ?v)" using lo vl by simp
        finally have r: "rangeOf (rc ! u) = prs ! (leftover sp k ! ?v)" .
        let ?m = "leftover sp k ! ?v"
        have mk: "?m < k" using leftover_less[of ?m sp k] vl by simp
        then have ml: "?m < length prs" using k by simp
        have "rangeOf (rc ! u) = spanRange prs (?m, ?m)" using r by (simp add: spanRange_def)
        from encloses_span[OF ch _ _ k this rn] ml mk show ?thesis by (simp add: inSpan_def)
      qed
    qed
    from attach_miss[OF this] have att: "attach n rc = rc @ [n]" .
    have "\<forall>u < length sp.
           rangeOf ((rc @ [n]) ! u) = spanRange prs (sp ! u)
           \<and> nodeType ((rc @ [n]) ! u) = ''theme''
           \<and> (\<forall>c \<in> set (children ((rc @ [n]) ! u)). wellFormedNode c)
           \<and> map rangeOf (children ((rc @ [n]) ! u))
               = map (nth prs) [fst (sp ! u) ..< min (snd (sp ! u) + 1) (Suc k)]"
    proof (intro allI impI)
      fix u assume u: "u < length sp"
      then have "\<not> inSpan (sp ! u) k" using none by simp
      from upt_span_same[OF this] th[OF u] u len
      show "rangeOf ((rc @ [n]) ! u) = spanRange prs (sp ! u)
           \<and> nodeType ((rc @ [n]) ! u) = ''theme''
           \<and> (\<forall>c \<in> set (children ((rc @ [n]) ! u)). wellFormedNode c)
           \<and> map rangeOf (children ((rc @ [n]) ! u))
               = map (nth prs) [fst (sp ! u) ..< min (snd (sp ! u) + 1) (Suc k)]"
        by (simp add: nth_append)
    qed
    moreover have "leftover sp (Suc k) = leftover sp k @ [k]" using none by (simp add: leftover_Suc)
    ultimately show ?thesis
      unfolding treeInv_def att using len lo lw wf rn by simp
  qed
qed

lemma sectionNode_sel [simp]:
  "rangeOf (sectionNode conf s) = (secStart s, secEnd s)"
  "nodeType (sectionNode conf s) = ''theme''"
  "children (sectionNode conf s) = []"
  by (simp_all add: sectionNode_def rangeOf_def)

lemma treeInv_init:
  assumes "secRanges secs = map (spanRange prs) sp"
  shows "treeInv prs sp 0 (map (sectionNode conf) secs)"
proof -
  from assms have len: "length secs = length sp" by (metis length_map secRanges_def)
  have "(secStart (secs ! t), secEnd (secs ! t)) = spanRange prs (sp ! t)" if "t < length sp" for t
  proof -
    have "secRanges secs ! t = (secStart (secs ! t), secEnd (secs ! t))"
      using that len by (simp add: secRanges_def)
    moreover have "map (spanRange prs) sp ! t = spanRange prs (sp ! t)" using that by simp
    ultimately show ?thesis using assms by simp
  qed
  then show ?thesis using len by (simp add: treeInv_def leftover_def)
qed

lemma treeInv_foldl:
  assumes ch: "chainFrom a (periodRanges periods) b"
    and ok: "spansOk (length periods) sp"
    and pw: "\<forall>p \<in> set periods. periodOk p \<and> periodChain p"
    and init: "treeInv (periodRanges periods) sp 0 rc0"
    and k: "k \<le> length periods"
  shows "treeInv (periodRanges periods) sp k (fst (foldl (treeStep gen) (rc0, c) (take k periods)))"
  using k
proof (induction k)
  case 0
  then show ?case using init by simp
next
  case (Suc k)
  then have k: "k < length periods" by simp
  obtain rc c1 where st: "foldl (treeStep gen) (rc0, c) (take k periods) = (rc, c1)"
    by (cases "foldl (treeStep gen) (rc0, c) (take k periods)") auto
  from Suc.IH k st have inv: "treeInv (periodRanges periods) sp k rc" by simp
  let ?p = "periods ! k"
  obtain n c2 where n: "periodNode gen c1 ?p = (n, c2)" by (cases "periodNode gen c1 ?p") auto
  have "?p \<in> set periods" using k by simp
  with pw have "periodOk ?p" "periodChain ?p" by simp_all
  from periodNode_wf[OF this, of gen c1] n
  have wf: "wellFormedNode n" and rn: "rangeOf n = periodRanges periods ! k"
    using k by (simp_all add: periodRanges_def)
  have lenp: "k < length (periodRanges periods)" "spansOk (length (periodRanges periods)) sp"
    using k ok by (simp_all add: periodRanges_def)
  from treeInv_step[OF inv ch lenp(2) lenp(1) wf rn]
  have "treeInv (periodRanges periods) sp (Suc k) (attach n rc)" .
  moreover have "foldl (treeStep gen) (rc0, c) (take (Suc k) periods) = (attach n rc, c2)"
    using k by (simp add: take_Suc_conv_app_nth st treeStep_def n)
  ultimately show ?case by simp
qed

lemma sub_chain:
  assumes "chainFrom a prs b" "j < length prs" "i \<le> j"
  shows "chainFrom (fst (prs ! i)) (map (nth prs) [i ..< Suc j]) (snd (prs ! j) + 1)"
  using assms(2,3)
proof (induction j)
  case 0
  then show ?case using chain_fst_le_snd[OF assms(1), of 0] by simp
next
  case (Suc j)
  show ?case
  proof (cases "i = Suc j")
    case True
    then show ?thesis using chain_fst_le_snd[OF assms(1) Suc.prems(1)] by simp
  next
    case False
    with Suc.prems have ij: "i \<le> j" "j < length prs" by simp_all
    from Suc.IH[OF ij(2) ij(1)]
    have c: "chainFrom (fst (prs ! i)) (map (nth prs) [i ..< Suc j]) (snd (prs ! j) + 1)" .
    from chainFrom_contiguous[OF assms(1)] Suc.prems(1)
    have adj: "fst (prs ! Suc j) = snd (prs ! j) + 1" by (simp add: contiguous_def)
    have le: "fst (prs ! Suc j) \<le> snd (prs ! Suc j)" by (rule chain_fst_le_snd[OF assms(1) Suc.prems(1)])
    have "[i ..< Suc (Suc j)] = [i ..< Suc j] @ [Suc j]" using ij by simp
    then show ?thesis using c adj le by (simp add: chainFrom_append del: upt_Suc)
  qed
qed

lemma nonOverlapping_sorted_wrt: "nonOverlapping rs = sorted_wrt rangeDisjoint rs"
proof
  assume a: "nonOverlapping rs"
  show "sorted_wrt rangeDisjoint rs"
    unfolding sorted_wrt_iff_nth_less
  proof (intro allI impI)
    fix i j assume ij: "i < j" "j < length rs"
    then have "i < length rs" by simp
    with a ij show "rangeDisjoint (rs ! i) (rs ! j)"
      unfolding nonOverlapping_def rangeDisjoint_def by blast
  qed
next
  assume "sorted_wrt rangeDisjoint rs"
  then show "nonOverlapping rs"
    unfolding sorted_wrt_iff_nth_less nonOverlapping_def rangeDisjoint_def by blast
qed

lemma spansOk_sorted_wrt:
  assumes "spansOk n sp"
  shows "sorted_wrt spanDisjoint sp \<and> (\<forall>s \<in> set sp. fst s \<le> snd s \<and> snd s < n)"
proof
  show "sorted_wrt spanDisjoint sp"
    unfolding sorted_wrt_iff_nth_less
  proof (intro allI impI)
    fix i j assume ij: "i < j" "j < length sp"
    then have "i < length sp" "i \<noteq> j" by simp_all
    with assms ij show "spanDisjoint (sp ! i) (sp ! j)"
      unfolding spansOk_def spanDisjoint_def by blast
  qed
  show "\<forall>s \<in> set sp. fst s \<le> snd s \<and> snd s < n"
  proof
    fix s assume "s \<in> set sp"
    then obtain k where "k < length sp" "s = sp ! k" by (auto simp add: in_set_conv_nth)
    with assms show "fst s \<le> snd s \<and> snd s < n" unfolding spansOk_def by blast
  qed
qed

lemma span_ranges_disjoint:
  assumes "chainFrom a prs b" "spanDisjoint s q"
    and "fst s \<le> snd s" "snd s < length prs" "fst q \<le> snd q" "snd q < length prs"
  shows "rangeDisjoint (spanRange prs s) (spanRange prs q)"
proof -
  from assms(2) consider "snd s < fst q" | "snd q < fst s" unfolding spanDisjoint_def by blast
  then show ?thesis
  proof cases
    case 1
    have "fst q < length prs" using assms(5,6) by simp
    from chainFrom_nth[OF assms(1) 1 this] show ?thesis by (simp add: rangeDisjoint_def spanRange_def)
  next
    case 2
    have "fst s < length prs" using assms(3,4) by simp
    from chainFrom_nth[OF assms(1) 2 this] show ?thesis by (simp add: rangeDisjoint_def spanRange_def)
  qed
qed

lemma root_wf:
  assumes inv: "treeInv prs sp (length prs) rc" and ch: "chainFrom a prs b"
    and ok: "spansOk (length prs) sp" and lo: "lo \<le> a" and hi: "b \<le> hi + 1" and lh: "lo \<le> hi"
  shows "wellFormedNode (StructNode i ''section'' lo hi rc mat conf ft st)"
proof -
  let ?n = "length prs"
  from inv have len: "length sp \<le> length rc"
    and th: "\<And>t. t < length sp \<Longrightarrow>
           rangeOf (rc ! t) = spanRange prs (sp ! t) \<and> nodeType (rc ! t) = ''theme''
           \<and> (\<forall>c \<in> set (children (rc ! t)). wellFormedNode c)
           \<and> map rangeOf (children (rc ! t)) = map (nth prs) [fst (sp ! t) ..< min (snd (sp ! t) + 1) ?n]"
    and lov: "map rangeOf (drop (length sp) rc) = map (nth prs) (leftover sp ?n)"
    and lw: "\<forall>x \<in> set (drop (length sp) rc). wellFormedNode x"
    unfolding treeInv_def by blast+
  from spansOk_sorted_wrt[OF ok] have dis: "sorted_wrt spanDisjoint sp"
    and valid: "\<forall>s \<in> set sp. fst s \<le> snd s \<and> snd s < ?n" by simp_all
  let ?S = "sp @ map (\<lambda>m. (m, m)) (leftover sp ?n)"
  have rcsplit: "rc = take (length sp) rc @ drop (length sp) rc" by simp
  have tk: "map rangeOf (take (length sp) rc) = map (spanRange prs) sp"
    using len th by (intro nth_equalityI) simp_all
  have dr: "map rangeOf (drop (length sp) rc) = map (spanRange prs) (map (\<lambda>m. (m, m)) (leftover sp ?n))"
    using lov by (simp add: spanRange_def comp_def)
  have ranges: "map rangeOf rc = map (spanRange prs) ?S"
    using tk dr by (metis rcsplit map_append)
  have validS: "\<forall>s \<in> set ?S. fst s \<le> snd s \<and> snd s < ?n"
    using valid leftover_less[of _ sp ?n] by auto
  have "sorted_wrt (<) (leftover sp ?n)"
    unfolding leftover_def by (intro sorted_wrt_filter) simp
  then have "sorted_wrt (\<lambda>m m'. spanDisjoint (m, m) (m', m')) (leftover sp ?n)"
    by (rule sorted_wrt_mono_rel[rotated]) (simp add: spanDisjoint_def)
  then have d2: "sorted_wrt spanDisjoint (map (\<lambda>m. (m, m)) (leftover sp ?n))"
    by (simp add: sorted_wrt_map)
  have cross: "\<forall>s \<in> set sp. \<forall>q \<in> set (map (\<lambda>m. (m, m)) (leftover sp ?n)). spanDisjoint s q"
    using leftover_less[of _ sp ?n] by (fastforce simp add: spanDisjoint_def inSpan_def)
  have disS: "sorted_wrt spanDisjoint ?S"
    using dis d2 cross by (simp add: sorted_wrt_append)
  have "sorted_wrt (\<lambda>s q. rangeDisjoint (spanRange prs s) (spanRange prs q)) ?S"
    using disS
  proof (rule sorted_wrt_mono_rel[rotated])
    fix s q assume "s \<in> set ?S" "q \<in> set ?S" "spanDisjoint s q"
    with validS span_ranges_disjoint[OF ch, of s q]
    show "rangeDisjoint (spanRange prs s) (spanRange prs q)" by blast
  qed
  then have no: "nonOverlapping (map rangeOf rc)"
    unfolding ranges nonOverlapping_sorted_wrt sorted_wrt_map .
  have spanb: "lo \<le> fst (spanRange prs s) \<and> snd (spanRange prs s) \<le> hi
               \<and> fst (spanRange prs s) \<le> snd (spanRange prs s)"
    if "fst s \<le> snd s" "snd s < ?n" for s
  proof -
    have i: "fst s < ?n" using that by simp
    from chainFrom_bounds[OF ch, of "prs ! fst s"] i have 1: "a \<le> fst (prs ! fst s)" by simp
    from chainFrom_bounds[OF ch, of "prs ! snd s"] that(2) have 2: "snd (prs ! snd s) < b" by simp
    from sub_chain[OF ch that(2) that(1)]
    have sc: "chainFrom (fst (prs ! fst s)) (map (nth prs) [fst s ..< Suc (snd s)]) (snd (prs ! snd s) + 1)" .
    have "map (nth prs) [fst s ..< Suc (snd s)] \<noteq> []" using that(1) by simp
    from chainFrom_ends[OF sc this] have 3: "fst (prs ! fst s) \<le> snd (prs ! snd s)"
      using that(1) by (simp add: last_map del: upt_Suc)
    from 1 2 3 lo hi show ?thesis by (simp add: spanRange_def)
  qed
  have inside_all: "\<forall>x \<in> set rc. inside (lo, hi) (rangeOf x)"
  proof
    fix x assume "x \<in> set rc"
    then have "rangeOf x \<in> set (map rangeOf rc)" by simp
    then obtain s where s: "s \<in> set ?S" "rangeOf x = spanRange prs s" unfolding ranges by auto
    with validS spanb[of s] show "inside (lo, hi) (rangeOf x)" by (simp add: inside_def)
  qed
  have wf_theme: "wellFormedNode (rc ! t)" if t: "t < length sp" for t
  proof -
    let ?s = "sp ! t"
    from valid t have v: "fst ?s \<le> snd ?s" "snd ?s < ?n" by simp_all
    from th[OF t] have r: "rangeOf (rc ! t) = spanRange prs ?s"
      and w: "\<forall>c \<in> set (children (rc ! t)). wellFormedNode c"
      and cr: "map rangeOf (children (rc ! t)) = map (nth prs) [fst ?s ..< min (snd ?s + 1) ?n]"
      by simp_all
    have "min (snd ?s + 1) ?n = Suc (snd ?s)" using v by simp
    with cr have cr': "map rangeOf (children (rc ! t)) = map (nth prs) [fst ?s ..< Suc (snd ?s)]"
      by simp
    from sub_chain[OF ch v(2) v(1)]
    have sc: "chainFrom (fst (spanRange prs ?s)) (map rangeOf (children (rc ! t)))
                (snd (spanRange prs ?s) + 1)"
      unfolding cr' by (simp add: spanRange_def)
    obtain i' ty s e cs mat' conf' ft' st' where x: "rc ! t = StructNode i' ty s e cs mat' conf' ft' st'"
      by (cases "rc ! t") auto
    from r x have "(s, e) = spanRange prs ?s" by (simp add: rangeOf_def)
    then have se: "s = fst (spanRange prs ?s)" "e = snd (spanRange prs ?s)"
      by (metis fst_conv, metis snd_conv)
    have "wellFormedNode (StructNode i' ty s e cs mat' conf' ft' st')"
      using spanb[OF v] sc w x se by (intro wf_chain) simp_all
    with x show ?thesis by simp
  qed
  have wf_all: "\<forall>x \<in> set rc. wellFormedNode x"
  proof
    fix x assume "x \<in> set rc"
    then have "x \<in> set (take (length sp) rc) \<or> x \<in> set (drop (length sp) rc)"
      by (metis rcsplit set_append Un_iff)
    then show "wellFormedNode x"
    proof
      assume "x \<in> set (take (length sp) rc)"
      then obtain t where "t < length sp" "x = rc ! t"
        using len by (auto simp add: in_set_conv_nth)
      with wf_theme show ?thesis by simp
    next
      assume "x \<in> set (drop (length sp) rc)"
      with lw show ?thesis by simp
    qed
  qed
  show ?thesis using lh inside_all wf_all no by simp
qed

lemma rangeOf_assignConfidence: "rangeOf (assignConfidence n) = rangeOf n"
  by (cases n) (simp add: rangeOf_def Let_def)

lemma wf_assignConfidence: "wellFormedNode n \<Longrightarrow> wellFormedNode (assignConfidence n)"
proof (induction n)
  case (StructNode i ty s e cs mat conf ft st)
  have "map rangeOf (map assignConfidence cs) = map rangeOf cs"
    by (simp add: rangeOf_assignConfidence)
  then have m: "map (rangeOf \<circ> assignConfidence) cs = map rangeOf cs" by simp
  from StructNode.prems StructNode.IH show ?case
    by (auto simp add: Let_def m rangeOf_assignConfidence)
qed

lemma labelNode_wf:
  "rangeOf (fst (labelNode stream g n)) = rangeOf n
   \<and> (wellFormedNode n \<longrightarrow> wellFormedNode (fst (labelNode stream g n)))"
  and labelNodes_wf:
  "map rangeOf (fst (labelNodes stream g ns)) = map rangeOf ns
   \<and> ((\<forall>x \<in> set ns. wellFormedNode x) \<longrightarrow> (\<forall>x \<in> set (fst (labelNodes stream g ns)). wellFormedNode x))"
proof (induction stream g n and stream g ns rule: labelNode_labelNodes.induct)
  case (1 stream groups i ty s e cs mat conf ft st)
  let ?h = "calculateMaterialHash (filter (\<lambda>n. measureNumber n \<ge> s \<and> measureNumber n \<le> e) stream)"
  let ?found = "case ?h of None \<Rightarrow> None | Some hv \<Rightarrow> findSimilar hv groups"
  let ?mat = "case ?found of Some label \<Rightarrow> label @ [CHR 0x27] | None \<Rightarrow> mat"
  let ?groups = "case (?found, ?h) of (None, Some hv) \<Rightarrow> objSet hv mat groups | _ \<Rightarrow> groups"
  let ?cs = "fst (labelNodes stream ?groups cs)"
  have eq: "fst (labelNode stream groups (StructNode i ty s e cs mat conf ft st))
        = StructNode i ty s e ?cs ?mat conf ft st"
    by (simp add: Let_def split_beta)
  from "1.IH"[OF refl refl refl refl]
  have ih: "map rangeOf ?cs = map rangeOf cs"
    "(\<forall>x \<in> set cs. wellFormedNode x) \<longrightarrow> (\<forall>x \<in> set ?cs. wellFormedNode x)" by simp_all
  have ins: "(\<forall>c \<in> set ?cs. inside (s, e) (rangeOf c)) = (\<forall>c \<in> set cs. inside (s, e) (rangeOf c))"
  proof -
    have "(\<forall>c \<in> set ?cs. inside (s, e) (rangeOf c)) = (\<forall>r \<in> set (map rangeOf ?cs). inside (s, e) r)"
      by simp
    also have "\<dots> = (\<forall>r \<in> set (map rangeOf cs). inside (s, e) r)" by (simp only: ih(1))
    also have "\<dots> = (\<forall>c \<in> set cs. inside (s, e) (rangeOf c))" by simp
    finally show ?thesis .
  qed
  have "wellFormedNode (StructNode i ty s e cs mat conf ft st)
        \<longrightarrow> wellFormedNode (StructNode i ty s e ?cs ?mat conf ft st)"
    using ih ins by (simp del: labelNode.simps labelNodes.simps)
  then show ?case
    unfolding eq by (simp add: rangeOf_def del: labelNode.simps labelNodes.simps wellFormedNode.simps)
next
  case (2 stream groups)
  then show ?case by simp
next
  case (3 stream groups n ns)
  obtain n' g1 where a: "labelNode stream groups n = (n', g1)" by (cases "labelNode stream groups n") auto
  obtain ns' g2 where b: "labelNodes stream g1 ns = (ns', g2)" by (cases "labelNodes stream g1 ns") auto
  from "3.IH"(1) a have 1: "rangeOf n' = rangeOf n" "wellFormedNode n \<longrightarrow> wellFormedNode n'"
    by simp_all
  from "3.IH"(2)[OF a[symmetric] refl] b have 2: "map rangeOf ns' = map rangeOf ns"
    "(\<forall>x \<in> set ns. wellFormedNode x) \<longrightarrow> (\<forall>x \<in> set ns'. wellFormedNode x)" by simp_all
  show ?case using 1 2 by (simp add: a b)
qed

lemma buildTree_wf:
  assumes "analysisOk (int (length (psMeasures ps))) periods fa" "psMeasures ps \<noteq> []"
  shows "\<exists>tree c'. buildTree gen c ps periods fa = Some (tree, c') \<and> wellFormedNode tree"
proof -
  let ?L = "int (length (psMeasures ps))"
  let ?prs = "periodRanges periods"
  from assms(1) obtain a b secs where ch: "chainFrom a ?prs b" and a: "1 \<le> a" and b: "b \<le> ?L + 1"
    and pw: "\<forall>p \<in> set periods. periodOk p \<and> periodChain p"
    and secs: "faSections fa = Some secs" and span: "sectionsSpan periods secs"
    unfolding analysisOk_def by blast
  from span obtain sp where ok: "spansOk (length periods) sp"
    and sr: "secRanges secs = map (spanRange ?prs) sp"
    unfolding sectionsSpan_def by blast
  let ?rc0 = "map (sectionNode (faConfidence fa)) secs"
  obtain rc c' where f: "foldl (treeStep gen) (?rc0, Suc c) periods = (rc, c')"
    by (cases "foldl (treeStep gen) (?rc0, Suc c) periods") auto
  have "treeInv ?prs sp (length periods)
          (fst (foldl (treeStep gen) (?rc0, Suc c) (take (length periods) periods)))"
    by (rule treeInv_foldl[OF ch ok pw treeInv_init[OF sr] le_refl])
  with f have inv: "treeInv ?prs sp (length ?prs) rc" by (simp add: periodRanges_def)
  have ok': "spansOk (length ?prs) sp" using ok by (simp add: periodRanges_def)
  have L: "1 \<le> ?L" using assms(2) by (cases "psMeasures ps") simp_all
  have "wellFormedNode (StructNode i ''section'' 1 ?L rc mat conf ft st)" for i mat conf ft st
    by (rule root_wf[OF inv ch ok' a b L])
  then show ?thesis by (simp add: buildTree_def secs f)
qed

lemma set_measureNumbersOf:
  "\<forall>n \<in> set notes. 1 \<le> measureNumber n \<and> measureNumber n \<le> L
   \<Longrightarrow> \<forall>m \<in> set (measureNumbersOf notes). 1 \<le> m \<and> m \<le> L"
  by (auto simp add: measureNumbersOf_def measureKey_def)

lemma detectPeriods_nil: "detectPeriods gen c [] = ([], c)"
  by (simp add: detectPeriods_def)

lemma periods_ok:
  assumes "\<forall>n \<in> set notes. 1 \<le> measureNumber n \<and> measureNumber n \<le> L"
    and "0 \<le> L"
    and "cadences = fst (detectCadences gen c0 notes ks)"
    and "periods = fst (detectPeriods gen c2 (fst (detectPhrases gen c1 notes cadences sps)))"
  shows "(\<exists>a b. chainFrom a (periodRanges periods) b \<and> 1 \<le> a \<and> b \<le> L + 1)
         \<and> (\<forall>p \<in> set periods. periodOk p \<and> periodChain p)"
proof (cases "measureNumbersOf notes = []")
  case True
  then have "periods = []"
    by (simp add: assms(4) detectPhrases_def detectPeriods_nil)
  then show ?thesis using assms(2) by (auto simp add: periodRanges_def intro: exI[of _ 1])
next
  case False
  let ?mns = "measureNumbersOf notes"
  let ?phrases = "fst (detectPhrases gen c1 notes cadences sps)"
  have cad: "\<forall>cad \<in> set cadences. cadMeasure cad \<le> last ?mns"
  proof
    fix cad assume "cad \<in> set cadences"
    then have "cadMeasure cad \<in> set ?mns" unfolding assms(3) by (rule detectCadences_measures)
    moreover have "sorted ?mns" by (simp add: measureNumbersOf_def)
    ultimately show "cadMeasure cad \<le> last ?mns" by (rule sorted_le_last[rotated])
  qed
  from detectPhrases_chain[OF cad False, of gen c1 sps] obtain b where
    ch: "chainFrom (hd ?mns) (phraseRanges ?phrases) b" and b: "b \<le> last ?mns + 1" by blast
  from detectPeriods_partition[of gen c2 ?phrases]
  have cc: "concat (map perPhrases periods) = ?phrases" and ok: "\<forall>p \<in> set periods. periodOk p"
    unfolding assms(4) by simp_all
  from ch have ch': "chainFrom (hd ?mns) (phraseRanges (concat (map perPhrases periods))) b"
    by (simp only: cc)
  from periods_chain[OF ch' ok]
  have pc: "chainFrom (hd ?mns) (periodRanges periods) b" "\<forall>p \<in> set periods. periodChain p"
    by simp_all
  from set_measureNumbersOf[OF assms(1)] False
  have "1 \<le> hd ?mns" "last ?mns \<le> L"
    using hd_in_set[of ?mns] last_in_set[of ?mns] by blast+
  with pc ok b show ?thesis by (intro conjI exI[of _ "hd ?mns"] exI[of _ b]) auto
qed

lemma form_ok:
  assumes "fa0 = fst (detectForm gen c5 periods)" "pop = fst (detectPopularMusicForm gen c6 periods)"
  shows "\<exists>secs. faSections (if faConfidence pop > faConfidence fa0 then assignForm fa0 pop else fa0)
                 = Some secs \<and> sectionsSpan periods secs"
proof -
  from detectForm_span[of gen c5 periods] assms(1) obtain secs where
    s: "faSections fa0 = Some secs" "sectionsSpan periods secs" by auto
  have p: "\<And>s. faSections pop = Some s \<Longrightarrow> sectionsSpan periods s"
    unfolding assms(2) by (rule detectPopularMusicForm_span)
  from assignForm_span[OF s p] s show ?thesis by auto
qed

lemma analyzeFrom_ok:
  assumes "\<forall>n \<in> set notes. 1 \<le> measureNumber n \<and> measureNumber n \<le> L" "0 \<le> L"
  shows "analysisOk L (fPeriods (fst (analyzeFrom gen c notes ks ts modeAn motives sps info)))
           (fForm (fst (analyzeFrom gen c notes ks ts modeAn motives sps info)))"
proof -
  let ?r = "fst (analyzeFrom gen c notes ks ts modeAn motives sps info)"
  obtain cadences c1 where a1: "detectCadences gen c notes ks = (cadences, c1)"
    by (cases "detectCadences gen c notes ks") auto
  obtain phrases c2 where a2: "detectPhrases gen c1 notes cadences sps = (phrases, c2)"
    by (cases "detectPhrases gen c1 notes cadences sps") auto
  obtain periods c3 where a3: "detectPeriods gen c2 phrases = (periods, c3)"
    by (cases "detectPeriods gen c2 phrases") auto
  obtain cps c4 where a4: "detectCompoundPeriods gen c3 periods = (cps, c4)"
    by (cases "detectCompoundPeriods gen c3 periods") auto
  obtain fa0 c5 where a5: "detectForm gen c4 periods = (fa0, c5)"
    by (cases "detectForm gen c4 periods") auto
  obtain pop c6 where a6: "detectPopularMusicForm gen c5 periods = (pop, c6)"
    by (cases "detectPopularMusicForm gen c5 periods") auto
  have per: "fPeriods ?r = periods"
    and form: "fForm ?r = (if faConfidence pop > faConfidence fa0 then assignForm fa0 pop else fa0)"
    by (simp_all add: analyzeFrom_def a1 a2 a3 a4 a5 a6 Let_def split_beta)
  from periods_ok[OF assms, of cadences gen c ks periods c2 c1 sps] a1 a2 a3
  have 1: "(\<exists>a b. chainFrom a (periodRanges periods) b \<and> 1 \<le> a \<and> b \<le> L + 1)
         \<and> (\<forall>p \<in> set periods. periodOk p \<and> periodChain p)" by simp
  from form_ok[of fa0 gen c4 periods pop c5] a5 a6
  have 2: "\<exists>secs. faSections (if faConfidence pop > faConfidence fa0 then assignForm fa0 pop else fa0)
                 = Some secs \<and> sectionsSpan periods secs" by simp
  from 1 2 show ?thesis unfolding analysisOk_def per form by blast
qed

lemma analyzeComplete_ok:
  assumes "\<forall>n \<in> set notes. 1 \<le> measureNumber n \<and> measureNumber n \<le> L" "0 \<le> L"
  shows "analysisOk L (fPeriods (fst (analyzeComplete gen c notes opts)))
           (fForm (fst (analyzeComplete gen c notes opts)))"
  unfolding analyzeComplete_def Let_def split_beta by (rule analyzeFrom_ok[OF assms])

lemma analyzeCompleteChunked_ok:
  assumes "\<forall>n \<in> set notes. 1 \<le> measureNumber n \<and> measureNumber n \<le> L" "0 \<le> L"
  shows "analysisOk L (fPeriods (fst (analyzeCompleteChunked gen c notes opts)))
           (fForm (fst (analyzeCompleteChunked gen c notes opts)))"
proof (cases "length notes < maxNotesPerChunk * 2 \<and> length (measureNumbersOf notes) < maxMeasuresPerChunk * 2")
  case True
  then show ?thesis using analyzeComplete_ok[OF assms, of gen c opts]
    by (simp add: analyzeCompleteChunked_def)
next
  case False
  have "analyzeCompleteChunked gen c notes opts =
       (let ks = keyOrDefault opts;
            ts = timeOrDefault opts;
            modeAn = detectMode (take 500 notes) ks;
            (motives, c1) =
              processInChunks notes (\<lambda>c chunkNotes. detectMotives gen c chunkNotes ts) motMeasure c;
            (sps, c2) =
              processInChunks notes
                (\<lambda>c chunkNotes.
                   detectSubPhrases gen c chunkNotes
                     (filter (\<lambda>m. list_ex (\<lambda>n. measureNumber n = motMeasure m) chunkNotes) motives))
                spStart c1
        in analyzeFrom gen c2 notes ks ts modeAn motives sps
             (Some (length notes, length (measureNumbersOf notes))))"
    unfolding analyzeCompleteChunked_def if_not_P[OF False] ..
  then show ?thesis
    unfolding Let_def split_beta by (simp only: analyzeFrom_ok[OF assms])
qed

text \<open>
  C4, for a score with at least one measure whose notes all lie in the measures 1 to the
  number of measures: \<^verbatim>\<open>buildHierarchy\<close> returns a tree, and in it every node has
  \<open>startMeasure \<le> endMeasure\<close>, every child lies inside its parent, the children of every
  node are pairwise non-overlapping, and the children of every theme, period, phrase and
  sub-phrase node are contiguous.  Both the complete and the chunked analysis are covered.
\<close>

theorem C4_tree_consistency:
  assumes "psMeasures ps \<noteq> []"
    and "\<forall>n \<in> set (psNotes ps). 1 \<le> measureNumber n \<and> measureNumber n \<le> int (length (psMeasures ps))"
  shows "\<exists>tree c'. buildHierarchy gen c ps = Some (tree, c') \<and> wellFormedNode tree"
proof -
  let ?opts = "\<lparr>aoKeySignature = psKeySignature ps,
                 aoTimeSignature = Some (case psTimeSignature ps of
                                           None \<Rightarrow> \<lparr>beats = 4, beatType = 4\<rparr> | Some ts \<Rightarrow> ts)\<rparr>"
  let ?res = "if length (psNotes ps) > 1000 \<or> length (psMeasures ps) > 64
            then analyzeCompleteChunked gen c (psNotes ps) ?opts
            else analyzeComplete gen c (psNotes ps) ?opts"
  have ok: "analysisOk (int (length (psMeasures ps))) (fPeriods (fst ?res)) (fForm (fst ?res))"
    using analyzeComplete_ok[OF assms(2)] analyzeCompleteChunked_ok[OF assms(2)] by simp
  from buildTree_wf[OF ok assms(1), of gen "snd ?res"] obtain tree c' where
    t: "buildTree gen (snd ?res) ps (fPeriods (fst ?res)) (fForm (fst ?res)) = Some (tree, c')"
    and w: "wellFormedNode tree" by blast
  have "buildHierarchy gen c ps = Some (fst (labelNode (psNotes ps) [] (assignConfidence tree)), c')"
    unfolding buildHierarchy_def Let_def split_beta using t by simp
  moreover have "wellFormedNode (fst (labelNode (psNotes ps) [] (assignConfidence tree)))"
    using labelNode_wf[of "psNotes ps" "[]" "assignConfidence tree"] wf_assignConfidence[OF w] by simp
  ultimately show ?thesis by blast
qed


text \<open>The theorem at the score of four measures.\<close>

theorem C4_tree_consistency_witness:
  "length (psMeasures sampleScore) = 4
   \<and> map measureNumber (psNotes sampleScore) = [1, 2, 3, 4]
   \<and> (\<exists>tree c'. buildHierarchy sampleIds 0 sampleScore = Some (tree, c') \<and> wellFormedNode tree)"
  using C4_tree_consistency[of sampleScore sampleIds 0]
  by (simp add: sampleScore_def sampleNote_def)

text \<open>
  Counterexample to C4 as stated: for the score without measures the root node spans the
  measures 1 to 0, so its start measure exceeds its end measure.
\<close>

theorem C4_counterexample:
  "map_option (rangeOf \<circ> fst) (buildHierarchy sampleIds 0 emptyScore) = Some (1, 0)
   \<and> map_option (wellFormedNode \<circ> fst) (buildHierarchy sampleIds 0 emptyScore) = Some False"
  by code_simp

end
